(* ===== verification/Prelude.thy ===== *)
theory Prelude
  imports Main "HOL-Library.Word" "HOL-Library.Multiset"
begin

text \<open>
  Shared vocabulary of the development: named collections of definitions, generic lemmas on lists
  and association lists, and the interface of an ordered key/value bucket (the storage the Agent
  keeps its state in) together with its list model.
\<close>

unbundle bit_operations_syntax

section \<open>Collections and types\<close>

named_theorems go_lib \<open>definitions of the Go library model, for evaluating closed terms\<close>
named_theorems bucket_simps \<open>laws of the ordered key/value bucket, instantiated\<close>

text \<open>A stored value is what decoding its bytes gives: a value, or bytes that do not decode.\<close>

datatype 'a cell = Valid 'a | Malformed

section \<open>Lists\<close>

lemma length_filter_mset: "length (filter P xs) = size (filter_mset P (mset xs))"
  by (metis mset_filter size_mset)

section \<open>Ordered key/value buckets\<close>

text \<open>
  The interface the code relies on: reading after a write, reading after a delete, and iteration
  (\<open>items\<close>) in strictly increasing key order.
\<close>

locale bucket =
  fixes get :: "'b \<Rightarrow> 'k::linorder \<Rightarrow> 'v option"
    and put :: "'b \<Rightarrow> 'k \<Rightarrow> 'v \<Rightarrow> 'b"
    and del :: "'b \<Rightarrow> 'k \<Rightarrow> 'b"
    and items :: "'b \<Rightarrow> ('k \<times> 'v) list"
    and invar :: "'b \<Rightarrow> bool"
  assumes get_items: "invar b \<Longrightarrow> get b k = map_of (items b) k"
    and items_sorted: "invar b \<Longrightarrow> sorted_wrt (<) (map fst (items b))"
    and get_put: "invar b \<Longrightarrow> get (put b k v) = (get b)(k \<mapsto> v)"
    and get_del: "invar b \<Longrightarrow> get (del b k) = (get b)(k := None)"
    and invar_put: "invar b \<Longrightarrow> invar (put b k v)"
    and invar_del: "invar b \<Longrightarrow> invar (del b k)"
begin

lemma distinct_keys: "invar b \<Longrightarrow> distinct (map fst (items b))"
  using items_sorted strict_sorted_iff by blast

lemma in_items: "invar b \<Longrightarrow> (k, v) \<in> set (items b) \<longleftrightarrow> get b k = Some v"
  by (simp add: distinct_keys get_items)

lemma mset_items: "invar b \<Longrightarrow> mset (items b) = mset_set (set (items b))"
  using distinct_keys[of b] by (simp add: distinct_map mset_set_set)

lemma set_items_put:
  "invar b \<Longrightarrow> set (items (put b k v)) = insert (k, v) {p \<in> set (items b). fst p \<noteq> k}"
  by (auto simp: in_items invar_put get_put split: if_splits)

lemma mset_put_new:
  assumes "invar b" "get b k = None"
  shows "mset (items (put b k v)) = add_mset (k, v) (mset (items b))"
proof -
  have out: "(k, w) \<notin> set (items b)" for w
    using assms by (simp add: in_items)
  have "{p \<in> set (items b). fst p \<noteq> k} = set (items b)"
    using out by auto
  then have "set (items (put b k v)) = insert (k, v) (set (items b))"
    using assms by (simp only: set_items_put)
  then have "mset (items (put b k v)) = mset_set (insert (k, v) (set (items b)))"
    using mset_items[OF invar_put[OF assms(1)]] by simp
  also have "\<dots> = add_mset (k, v) (mset_set (set (items b)))"
    using out by (simp add: mset_set.insert)
  finally show ?thesis
    using mset_items[OF assms(1)] by simp
qed

lemma mset_put_old:
  assumes "invar b" "get b k = Some w"
  shows "mset (items (put b k v)) = add_mset (k, v) (mset (items b) - {#(k, w)#})"
proof -
  have "fst p = k \<longleftrightarrow> p = (k, w)" if "p \<in> set (items b)" for p
    using assms that by (cases p) (auto simp: in_items)
  then have "{p \<in> set (items b). fst p \<noteq> k} = set (items b) - {(k, w)}"
    by blast
  then have "set (items (put b k v)) = insert (k, v) (set (items b) - {(k, w)})"
    using assms by (simp only: set_items_put)
  moreover have "(k, v) \<notin> set (items b) - {(k, w)}"
    using assms by (auto simp: in_items)
  ultimately have "mset (items (put b k v)) = add_mset (k, v) (mset_set (set (items b) - {(k, w)}))"
    using mset_items[OF invar_put[OF assms(1)]] by (simp add: mset_set.insert)
  also have "mset_set (set (items b) - {(k, w)}) = mset_set (set (items b)) - {#(k, w)#}"
    using assms by (subst mset_set_Diff) (auto simp: in_items)
  finally show ?thesis
    using mset_items[OF assms(1)] by simp
qed

text \<open>How many stored values satisfy a predicate, after a write.\<close>

lemma count_put_new:
  assumes "invar b" "get b k = None"
  shows "length (filter P (map snd (items (put b k v)))) =
    length (filter P (map snd (items b))) + (if P v then 1 else 0)"
  using assms by (simp add: length_filter_mset mset_put_new)

lemma count_put_old:
  assumes "invar b" "get b k = Some w"
  shows "length (filter P (map snd (items (put b k v)))) + (if P w then 1 else 0) =
    length (filter P (map snd (items b))) + (if P v then 1 else 0)"
proof -
  have "(k, w) \<in># mset (items b)"
    using assms by (simp add: in_items)
  then obtain m where "mset (items b) = add_mset (k, w) m"
    by (metis insert_DiffM)
  with assms show ?thesis
    by (simp add: length_filter_mset mset_put_old)
qed

lemma values_put:
  "invar b \<Longrightarrow> u \<in> set (map snd (items (put b k v))) \<Longrightarrow> u = v \<or> u \<in> set (map snd (items b))"
  by (auto simp: set_items_put)

end

section \<open>The list model of a bucket\<close>

text \<open>An association list in strictly increasing key order.\<close>

fun bput :: "('k::linorder \<times> 'v) list \<Rightarrow> 'k \<Rightarrow> 'v \<Rightarrow> ('k \<times> 'v) list" where
  "bput [] k v = [(k, v)]"
| "bput ((a, w) # b) k v =
     (if k < a then (k, v) # (a, w) # b
      else if k = a then (k, v) # b
      else (a, w) # bput b k v)"

fun bdel :: "('k \<times> 'v) list \<Rightarrow> 'k \<Rightarrow> ('k \<times> 'v) list" where
  "bdel [] k = []"
| "bdel ((a, w) # b) k = (if a = k then b else (a, w) # bdel b k)"

definition bget :: "('k \<times> 'v) list \<Rightarrow> 'k \<Rightarrow> 'v option" where
  "bget b k = map_of b k"

definition bitems :: "('k \<times> 'v) list \<Rightarrow> ('k \<times> 'v) list" where
  "bitems b = b"

definition bsorted :: "('k::linorder \<times> 'v) list \<Rightarrow> bool" where
  "bsorted b \<longleftrightarrow> sorted_wrt (<) (map fst b)"

lemma bput_keys: "set (map fst (bput b k v)) = insert k (set (map fst b))"
  by (induction b k v rule: bput.induct) auto

lemma bsorted_bput: "bsorted b \<Longrightarrow> bsorted (bput b k v)"
proof (induction b k v rule: bput.induct)
  case (2 a w b k v)
  have "set (map fst (bput b k v)) = insert k (set (map fst b))"
    by (rule bput_keys)
  with 2 show ?case
    by (auto simp: bsorted_def)
qed (simp add: bsorted_def)

lemma bdel_subset: "set (bdel b k) \<subseteq> set b"
  by (induction b k rule: bdel.induct) auto

lemma bsorted_bdel: "bsorted b \<Longrightarrow> bsorted (bdel b k)"
proof (induction b k rule: bdel.induct)
  case (2 a w b k)
  with bdel_subset[of b k] show ?case
    by (auto simp: bsorted_def)
qed simp

lemma map_of_bput: "bsorted b \<Longrightarrow> map_of (bput b k v) = (map_of b)(k \<mapsto> v)"
  by (induction b k v rule: bput.induct) (auto simp: bsorted_def fun_eq_iff)

lemma map_of_bdel: "bsorted b \<Longrightarrow> map_of (bdel b k) = (map_of b)(k := None)"
proof (induction b k rule: bdel.induct)
  case (2 a w b k)
  then have "a \<notin> set (map fst b)"
    by (auto simp: bsorted_def)
  then have "map_of b a = None"
    by (simp add: map_of_eq_None_iff)
  with 2 show ?case
    by (auto simp: bsorted_def fun_eq_iff)
qed simp

lemma bget_map_of: "bget b = map_of b"
  by (simp add: fun_eq_iff bget_def)

interpretation bkt: bucket bget bput bdel bitems bsorted
proof unfold_locales
  fix b :: "('a::linorder \<times> 'b) list" and k :: 'a and v :: 'b
  assume b: "bsorted b"
  show "bget b k = map_of (bitems b) k"
    by (simp add: bget_def bitems_def)
  show "sorted_wrt (<) (map fst (bitems b))"
    using b by (simp add: bsorted_def bitems_def)
  show "bget (bput b k v) = (bget b)(k \<mapsto> v)"
    using b by (simp add: bget_map_of map_of_bput)
  show "bget (bdel b k) = (bget b)(k := None)"
    using b by (simp add: bget_map_of map_of_bdel)
  show "bsorted (bput b k v)"
    using b by (rule bsorted_bput)
  show "bsorted (bdel b k)"
    using b by (rule bsorted_bdel)
qed

lemmas [bucket_simps] = bkt.get_put bkt.get_del bkt.invar_put bkt.invar_del

lemma bget_bput_same [simp]: "bget (bput b k v) k = Some v"
  by (induction b k v rule: bput.induct) (auto simp: bget_def)

lemma bsorted_Nil [simp]: "bsorted []"
  by (simp add: bsorted_def)

end
