(* ===== verification/Go_Lib.thy ===== *)
theory Go_Lib
  imports Prelude
begin

text \<open>
  What the program uses of Go and its standard library: fixed-width integers, \<open>strings\<close>,
  \<open>strconv\<close>, \<open>path/filepath\<close>, \<open>time\<close> and the layout of RFC 4122 identifiers. A Go string is a
  list of bytes (\<open>char\<close> is a byte), a \<open>time.Time\<close> is the number of nanoseconds since the zero
  time (0001-01-01 00:00 UTC), so that \<open>IsZero\<close> is equality with 0, and a \<open>time.Duration\<close> is a
  signed 64-bit number of nanoseconds.
\<close>

section \<open>Integers\<close>

text \<open>Go's \<open>int\<close> and \<open>int64\<close>: two's complement, wrapping around.\<close>

definition wrap64 :: "int \<Rightarrow> int" where
  [go_lib]: "wrap64 x = (x + 9223372036854775808) mod 18446744073709551616 - 9223372036854775808"

definition max_int64 :: int where
  [go_lib]: "max_int64 = 9223372036854775807"

definition min_int64 :: int where
  [go_lib]: "min_int64 = -9223372036854775808"

lemma wrap64_id: "min_int64 \<le> x \<Longrightarrow> x \<le> max_int64 \<Longrightarrow> wrap64 x = x"
  by (simp add: wrap64_def min_int64_def max_int64_def)

lemma wrap64_range: "min_int64 \<le> wrap64 x \<and> wrap64 x \<le> max_int64"
proof -
  have "0 \<le> (x + 9223372036854775808) mod 18446744073709551616"
    and "(x + 9223372036854775808) mod 18446744073709551616 < 18446744073709551616"
    by simp_all
  then show ?thesis
    unfolding wrap64_def min_int64_def max_int64_def by linarith
qed

lemma wrap64_over:
  assumes "max_int64 < x" "x \<le> 2 * max_int64"
  shows "wrap64 x = x - 18446744073709551616"
proof -
  have "(x + 9223372036854775808) mod 18446744073709551616 =
      (x + 9223372036854775808 - 18446744073709551616) mod 18446744073709551616"
    by (simp only: minus_mod_self2)
  also have "\<dots> = x + 9223372036854775808 - 18446744073709551616"
    using assms by (intro mod_pos_pos_trivial) (auto simp: max_int64_def)
  finally show ?thesis
    by (simp add: wrap64_def)
qed

text \<open>The conversion \<open>uint32(n)\<close> of a length.\<close>

definition uint32_of :: "nat \<Rightarrow> nat" where
  [go_lib]: "uint32_of n = n mod 4294967296"

text \<open>Sums and differences of \<open>uint64\<close>.\<close>

definition u64_add :: "nat \<Rightarrow> nat \<Rightarrow> nat" where
  [go_lib]: "u64_add a b = (a + b) mod 18446744073709551616"

definition u64_sub :: "nat \<Rightarrow> nat \<Rightarrow> nat" where
  [go_lib]: "u64_sub a b = (a + 18446744073709551616 - b) mod 18446744073709551616"

lemma u64_add_small: "a + b < 18446744073709551616 \<Longrightarrow> u64_add a b = a + b"
  by (simp add: u64_add_def)

lemma u64_sub_le:
  assumes "b \<le> a" "a < 18446744073709551616"
  shows "u64_sub a b = a - b"
proof -
  have "a + 18446744073709551616 - b = (a - b) + 18446744073709551616"
    using assms(1) by (rule add_diff_assoc2[symmetric])
  then have "u64_sub a b = (a - b) mod 18446744073709551616"
    unfolding u64_sub_def by (simp only: mod_add_self2)
  also have "\<dots> = a - b"
    using assms(2) by (intro mod_less) linarith
  finally show ?thesis .
qed

section \<open>Identifiers\<close>

text \<open>
  A \<open>uuid.UUID\<close> is 16 bytes, here one 128-bit word, first byte most significant. \<open>Version\<close> is the
  high nibble of byte 6 and the variant is RFC 4122 when the two high bits of byte 8 are \<open>10\<close>.
  The canonical text form is lower-case hexadecimal in groups of 8, 4, 4, 4 and 12 digits, so it
  orders identifiers as the word order does.
\<close>

type_synonym uuid = "128 word"

definition uuid_nil :: uuid where
  [go_lib]: "uuid_nil = 0"

definition uuid_version :: "uuid \<Rightarrow> nat" where
  [go_lib]: "uuid_version u = unat (drop_bit 76 u AND 15)"

definition uuid_rfc4122 :: "uuid \<Rightarrow> bool" where
  [go_lib]: "uuid_rfc4122 u \<longleftrightarrow> drop_bit 62 u AND 3 = 2"

text \<open>The test \<open>id.Version() != 7 || id.Variant() != uuid.RFC4122\<close> the code repeats, negated.\<close>

definition uuid_v7 :: "uuid \<Rightarrow> bool" where
  [go_lib]: "uuid_v7 u \<longleftrightarrow> uuid_version u = 7 \<and> uuid_rfc4122 u"

definition hex_digit :: "nat \<Rightarrow> char" where
  [go_lib]: "hex_digit n = (if n < 10 then char_of (48 + n) else char_of (87 + n))"

text \<open>The \<open>n\<close> lowest hexadecimal digits of a number, most significant first.\<close>

fun hex_digits :: "nat \<Rightarrow> nat \<Rightarrow> string" where
  "hex_digits 0 v = []"
| "hex_digits (Suc n) v = hex_digits n (v div 16) @ [hex_digit (v mod 16)]"

definition uuid_string :: "uuid \<Rightarrow> string" where
  [go_lib]: "uuid_string u =
     (let h = hex_digits 32 (unat u)
      in take 8 h @ ''-'' @ take 4 (drop 8 h) @ ''-'' @ take 4 (drop 12 h) @ ''-'' @
         take 4 (drop 16 h) @ ''-'' @ drop 20 h)"

section \<open>Strings\<close>

definition byte :: "char \<Rightarrow> nat" where
  [go_lib]: "byte c = of_char c"

text \<open>
  The length in bytes of the white-space character a string starts with, 0 if it starts with
  another: the ASCII ones and the UTF-8 encodings of U+0085, U+00A0, U+1680, U+2000 to U+200A,
  U+2028, U+2029, U+202F, U+205F and U+3000 (\<open>unicode.IsSpace\<close>).
\<close>

fun space_len :: "string \<Rightarrow> nat" where
  "space_len [] = 0"
| "space_len (a # s) =
     (if byte a = 32 \<or> 9 \<le> byte a \<and> byte a \<le> 13 then 1
      else case s of
        [] \<Rightarrow> 0
      | b # t \<Rightarrow>
          (if byte a = 194 \<and> (byte b = 133 \<or> byte b = 160) then 2
           else case t of
             [] \<Rightarrow> 0
           | c # _ \<Rightarrow>
               (if byte a = 225 \<and> byte b = 154 \<and> byte c = 128
                 \<or> byte a = 226 \<and> byte b = 128 \<and> (128 \<le> byte c \<and> byte c \<le> 138 \<or> byte c = 168 \<or> byte c = 169 \<or> byte c = 175)
                 \<or> byte a = 226 \<and> byte b = 129 \<and> byte c = 159
                 \<or> byte a = 227 \<and> byte b = 128 \<and> byte c = 128
                then 3 else 0)))"

lemma space_len_pos: "space_len s \<noteq> 0 \<Longrightarrow> length (drop (space_len s) s) < length s"
  by (cases s) auto

text \<open>\<open>strings.Fields\<close>: the maximal runs of characters that are not white space.\<close>

function go_fields_from :: "string \<Rightarrow> string \<Rightarrow> string list" where
  "go_fields_from w [] = (if w = [] then [] else [w])"
| "go_fields_from w (c # s) =
     (if space_len (c # s) = 0 then go_fields_from (w @ [c]) s
      else (if w = [] then [] else [w]) @ go_fields_from [] (drop (space_len (c # s)) (c # s)))"
  by pat_completeness auto
termination
  by (relation "measure (\<lambda>(w, s). length s)") (use space_len_pos in force)+

definition go_fields :: "string \<Rightarrow> string list" where
  [go_lib]: "go_fields s = go_fields_from [] s"

text \<open>\<open>strings.Split(s, sep)\<close> for a one-byte separator.\<close>

fun go_split :: "char \<Rightarrow> string \<Rightarrow> string list" where
  "go_split sep [] = [[]]"
| "go_split sep (c # s) =
     (if c = sep then [] # go_split sep s
      else case go_split sep s of [] \<Rightarrow> [[c]] | w # ws \<Rightarrow> (c # w) # ws)"

text \<open>\<open>strings.Cut(s, sep)\<close> for a one-byte separator: \<open>None\<close> when the separator is absent.\<close>

fun go_cut :: "char \<Rightarrow> string \<Rightarrow> (string \<times> string) option" where
  "go_cut sep [] = None"
| "go_cut sep (c # s) =
     (if c = sep then Some ([], s) else map_option (\<lambda>(a, b). (c # a, b)) (go_cut sep s))"

lemma go_cut_Some: "go_cut sep s = Some (a, b) \<longleftrightarrow> s = a @ sep # b \<and> sep \<notin> set a"
proof (induction s arbitrary: a)
  case (Cons c s)
  show ?case
  proof (cases "c = sep")
    case True
    then show ?thesis by (cases a) auto
  next
    case False
    then show ?thesis using Cons.IH by (cases a) auto
  qed
qed simp

lemma go_cut_None: "go_cut sep s = None \<longleftrightarrow> sep \<notin> set s"
  by (induction s) auto

definition has_prefix :: "string \<Rightarrow> string \<Rightarrow> bool" where
  [go_lib]: "has_prefix s p \<longleftrightarrow> take (length p) s = p"

definition has_suffix :: "string \<Rightarrow> string \<Rightarrow> bool" where
  [go_lib]: "has_suffix s p \<longleftrightarrow> length p \<le> length s \<and> drop (length s - length p) s = p"

definition trim_prefix :: "string \<Rightarrow> string \<Rightarrow> string" where
  [go_lib]: "trim_prefix s p = (if has_prefix s p then drop (length p) s else s)"

text \<open>\<open>strings.EqualFold\<close> against an ASCII word none of whose letters folds outside ASCII.\<close>

definition ascii_upper :: "char \<Rightarrow> char" where
  [go_lib]: "ascii_upper c = (if 97 \<le> byte c \<and> byte c \<le> 122 then char_of (byte c - 32) else c)"

definition equal_fold :: "string \<Rightarrow> string \<Rightarrow> bool" where
  [go_lib]: "equal_fold s t \<longleftrightarrow> map ascii_upper s = map ascii_upper t"

text \<open>\<open>strings.IndexFunc(s, unicode.IsControl) >= 0\<close>: U+0000 to U+001F and U+007F to U+009F.\<close>

fun has_control :: "string \<Rightarrow> bool" where
  "has_control [] = False"
| "has_control (a # s) =
     (byte a < 32 \<or> byte a = 127
      \<or> byte a = 194 \<and> (case s of [] \<Rightarrow> False | b # _ \<Rightarrow> 128 \<le> byte b \<and> byte b \<le> 159)
      \<or> has_control s)"

text \<open>\<open>strings.TrimSpace(s) == ""\<close>.\<close>

definition blank :: "string \<Rightarrow> bool" where
  [go_lib]: "blank s \<longleftrightarrow> go_fields s = []"

text \<open>\<open>hex.DecodeString\<close>: pairs of digits in either case.\<close>

definition hex_nibble :: "char \<Rightarrow> nat option" where
  [go_lib]: "hex_nibble c =
     (if 48 \<le> byte c \<and> byte c \<le> 57 then Some (byte c - 48)
      else if 97 \<le> byte c \<and> byte c \<le> 102 then Some (byte c - 87)
      else if 65 \<le> byte c \<and> byte c \<le> 70 then Some (byte c - 55)
      else None)"

fun hex_decode :: "string \<Rightarrow> 8 word list option" where
  "hex_decode [] = Some []"
| "hex_decode [c] = None"
| "hex_decode (a # b # s) =
     (case (hex_nibble a, hex_nibble b, hex_decode s) of
        (Some x, Some y, Some bs) \<Rightarrow> Some (word_of_nat (16 * x + y) # bs)
      | _ \<Rightarrow> None)"

section \<open>Decimal numbers\<close>

fun digits_value :: "int \<Rightarrow> string \<Rightarrow> int option" where
  "digits_value acc [] = Some acc"
| "digits_value acc (c # s) =
     (if 48 \<le> byte c \<and> byte c \<le> 57 then digits_value (acc * 10 + (int (byte c) - 48)) s else None)"

text \<open>\<open>strconv.Atoi\<close>: an optional sign, at least one digit, and a value that fits an \<open>int\<close>.\<close>

definition atoi :: "string \<Rightarrow> int option" where
  [go_lib]: "atoi s =
     (let neg = (s \<noteq> [] \<and> hd s = CHR ''-'');
          body = (if s \<noteq> [] \<and> (hd s = CHR ''-'' \<or> hd s = CHR ''+'') then tl s else s)
      in if body = [] then None
         else case digits_value 0 body of
           None \<Rightarrow> None
         | Some n \<Rightarrow>
             (let v = (if neg then - n else n)
              in if min_int64 \<le> v \<and> v \<le> max_int64 then Some v else None))"

lemma atoi_range: "atoi s = Some v \<Longrightarrow> min_int64 \<le> v \<and> v \<le> max_int64"
  by (auto simp: atoi_def Let_def split: option.splits if_splits)

text \<open>The \<open>n\<close> lowest decimal digits of a number (\<open>%0nd\<close> of one that fits).\<close>

fun dec_digits :: "nat \<Rightarrow> nat \<Rightarrow> string" where
  "dec_digits 0 v = []"
| "dec_digits (Suc n) v = dec_digits n (v div 10) @ [char_of (48 + v mod 10)]"

text \<open>\<open>%d\<close> of a number.\<close>

fun nat_digits :: "nat \<Rightarrow> string" where
  "nat_digits n = (if n < 10 then [char_of (48 + n)] else nat_digits (n div 10) @ [char_of (48 + n mod 10)])"

declare nat_digits.simps [simp del]

definition itoa :: "int \<Rightarrow> string" where
  [go_lib]: "itoa v = (if v < 0 then CHR ''-'' # nat_digits (nat (- v)) else nat_digits (nat v))"

section \<open>Sorting\<close>

text \<open>Comparison of strings, byte by byte.\<close>

fun string_less :: "string \<Rightarrow> string \<Rightarrow> bool" where
  "string_less [] [] = False"
| "string_less [] (y # ys) = True"
| "string_less (x # xs) [] = False"
| "string_less (x # xs) (y # ys) = (byte x < byte y \<or> byte x = byte y \<and> string_less xs ys)"

lemma byte_eq [simp]: "byte x = byte y \<longleftrightarrow> x = y"
  by (simp add: byte_def)

lemma string_less_irrefl [simp]: "\<not> string_less s s"
  by (induction s) auto

lemma string_less_append:
  "length a = length b \<Longrightarrow> string_less (a @ s) (b @ t) \<longleftrightarrow> string_less a b \<or> a = b \<and> string_less s t"
  by (induction a b rule: list_induct2) auto

lemma byte_hex_digit: "n < 16 \<Longrightarrow> byte (hex_digit n) = (if n < 10 then 48 + n else 87 + n)"
  by (auto simp: byte_def hex_digit_def)

lemma length_hex_digits [simp]: "length (hex_digits n v) = n"
  by (induction n arbitrary: v) auto

lemma hex_digits_less:
  "v < 16 ^ n \<Longrightarrow> w < 16 ^ n \<Longrightarrow>
     (string_less (hex_digits n v) (hex_digits n w) \<longleftrightarrow> v < w) \<and> (hex_digits n v = hex_digits n w \<longleftrightarrow> v = w)"
proof (induction n arbitrary: v w)
  case (Suc n)
  have d: "v div 16 < 16 ^ n" "w div 16 < 16 ^ n"
    using Suc.prems by (auto simp: less_mult_imp_div_less mult.commute)
  have h: "byte (hex_digit (v mod 16)) < byte (hex_digit (w mod 16)) \<longleftrightarrow> v mod 16 < w mod 16"
    "hex_digit (v mod 16) = hex_digit (w mod 16) \<longleftrightarrow> v mod 16 = w mod 16"
    using byte_eq[of "hex_digit (v mod 16)" "hex_digit (w mod 16)"]
    by (auto simp: byte_hex_digit simp del: byte_eq split: if_splits)
  have lt: "v < w \<longleftrightarrow> v div 16 < w div 16 \<or> v div 16 = w div 16 \<and> v mod 16 < w mod 16"
    using div_mult_mod_eq[of v 16] div_mult_mod_eq[of w 16] mod_less_divisor[of 16 v] mod_less_divisor[of 16 w]
    by linarith
  have eq: "v = w \<longleftrightarrow> v div 16 = w div 16 \<and> v mod 16 = w mod 16"
    using div_mult_mod_eq[of v 16] div_mult_mod_eq[of w 16] by metis
  show ?case
    using Suc.IH[OF d] h lt eq by (auto simp: string_less_append)
qed simp

lemma uuid_digits: "unat (u :: uuid) < 16 ^ 32"
  using unsigned_less[of u, where 'a = nat] by simp

lemma string_less_split:
  assumes "length a = length b"
  shows "string_less (take n a @ sep @ s) (take n b @ sep @ t) \<longleftrightarrow>
    string_less (take n a) (take n b) \<or> take n a = take n b \<and> string_less s t"
  using assms by (auto simp: string_less_append)

lemma uuid_groups:
  assumes "length a = 32" "length b = 32"
  shows "string_less (take 8 a @ ''-'' @ take 4 (drop 8 a) @ ''-'' @ take 4 (drop 12 a) @ ''-'' @
        take 4 (drop 16 a) @ ''-'' @ drop 20 a)
      (take 8 b @ ''-'' @ take 4 (drop 8 b) @ ''-'' @ take 4 (drop 12 b) @ ''-'' @
        take 4 (drop 16 b) @ ''-'' @ drop 20 b) \<longleftrightarrow> string_less a b"
proof -
  have split: "string_less (drop m x) (drop m y) \<longleftrightarrow>
      string_less (take n (drop m x)) (take n (drop m y)) \<or>
      take n (drop m x) = take n (drop m y) \<and> string_less (drop (n + m) x) (drop (n + m) y)"
    if "length x = length y" for m n and x y :: string
    using string_less_append[of "take n (drop m x)" "take n (drop m y)" "drop n (drop m x)" "drop n (drop m y)"] that
    by (simp del: drop_drop) (simp add: add.commute)
  show ?thesis
    using assms split[of a b 0 8] split[of a b 8 4] split[of a b 12 4] split[of a b 16 4]
    by (simp add: string_less_split string_less_append)
qed

text \<open>The canonical texts of two identifiers are ordered as the identifiers are.\<close>

lemma uuid_string_less: "string_less (uuid_string u) (uuid_string v) \<longleftrightarrow> u < v"
  using hex_digits_less[OF uuid_digits[of u] uuid_digits[of v]]
  by (simp only: uuid_string_def Let_def uuid_groups[OF length_hex_digits length_hex_digits] word_less_nat_alt)

lemma string_less_asym: "string_less a b \<Longrightarrow> \<not> string_less b a"
  by (induction a b rule: string_less.induct) auto

text \<open>
  \<open>sort.Slice(xs, less)\<close>. The result of the library is a sorted permutation; it is determined when
  no two elements are equivalent, and elements that are keep their order here.
\<close>

fun insert_slice :: "('a \<Rightarrow> 'a \<Rightarrow> bool) \<Rightarrow> 'a \<Rightarrow> 'a list \<Rightarrow> 'a list" where
  "insert_slice lt x [] = [x]"
| "insert_slice lt x (y # ys) = (if lt x y then x # y # ys else y # insert_slice lt x ys)"

definition sort_slice :: "('a \<Rightarrow> 'a \<Rightarrow> bool) \<Rightarrow> 'a list \<Rightarrow> 'a list" where
  "sort_slice lt xs = foldl (\<lambda>acc x. insert_slice lt x acc) [] xs"

lemma mset_insert_slice [simp]: "mset (insert_slice lt x ys) = add_mset x (mset ys)"
  by (induction ys) auto

lemma mset_sort_slice [simp]: "mset (sort_slice lt xs) = mset xs"
proof -
  have "mset (foldl (\<lambda>acc x. insert_slice lt x acc) acc xs) = mset acc + mset xs" for acc
    by (induction xs arbitrary: acc) auto
  from this[of "[]"] show ?thesis by (simp add: sort_slice_def)
qed

lemma set_sort_slice [simp]: "set (sort_slice lt xs) = set xs"
  by (metis mset_sort_slice set_mset_mset)

lemma length_sort_slice [simp]: "length (sort_slice lt xs) = length xs"
  by (metis mset_sort_slice size_mset)

lemma sort_slice_snoc: "sort_slice lt (xs @ [x]) = insert_slice lt x (sort_slice lt xs)"
  by (simp add: sort_slice_def)

text \<open>Keeping only the \<open>k\<close> first elements before an insertion does not change the \<open>k\<close> first after it.\<close>

lemma take_insert_slice: "take k (insert_slice lt x (take k ys)) = take k (insert_slice lt x ys)"
  by (induction ys arbitrary: k) (auto simp: take_Cons split: nat.splits)

text \<open>What \<open>sort.Slice\<close> asks of \<open>less\<close>: a strict weak order.\<close>

locale weak_order =
  fixes lt :: "'a \<Rightarrow> 'a \<Rightarrow> bool"
  assumes asym: "lt x y \<Longrightarrow> \<not> lt y x"
    and negtrans: "\<not> lt y x \<Longrightarrow> \<not> lt z y \<Longrightarrow> \<not> lt z x"
begin

lemma sorted_insert:
  "sorted_wrt (\<lambda>a b. \<not> lt b a) ys \<Longrightarrow> sorted_wrt (\<lambda>a b. \<not> lt b a) (insert_slice lt x ys)"
proof (induction ys)
  case (Cons y ys)
  have "set (insert_slice lt x ys) = insert x (set ys)"
    by (metis mset_insert_slice set_mset_add_mset_insert set_mset_mset)
  then show ?case
    using Cons asym[of x y] negtrans[of y x] by (auto simp del: insert_slice.simps(1))
qed simp

lemma sorted_sort: "sorted_wrt (\<lambda>a b. \<not> lt b a) (sort_slice lt xs)"
proof -
  have "sorted_wrt (\<lambda>a b. \<not> lt b a) acc \<Longrightarrow>
      sorted_wrt (\<lambda>a b. \<not> lt b a) (foldl (\<lambda>acc x. insert_slice lt x acc) acc xs)" for acc
    by (induction xs arbitrary: acc) (auto simp: sorted_insert)
  from this[of "[]"] show ?thesis by (simp add: sort_slice_def)
qed

lemma insert_last: "\<forall>y \<in> set ys. \<not> lt x y \<Longrightarrow> insert_slice lt x ys = ys @ [x]"
  by (induction ys) auto

text \<open>Sorting a sorted list leaves it as it is.\<close>

lemma sort_sorted: "sorted_wrt (\<lambda>a b. \<not> lt b a) ys \<Longrightarrow> sort_slice lt ys = ys"
proof (induction ys rule: rev_induct)
  case (snoc y ys)
  then show ?case
    using insert_last[of ys y] by (auto simp: sort_slice_snoc sorted_wrt_append)
qed (simp add: sort_slice_def)

text \<open>Two sorted arrangements of the same values, no two of them equivalent, are the same.\<close>

lemma sorted_unique:
  assumes "sorted_wrt (\<lambda>a b. \<not> lt b a) xs" "sorted_wrt (\<lambda>a b. \<not> lt b a) ys" "mset xs = mset ys"
    and "\<And>a b. a \<in> set xs \<Longrightarrow> b \<in> set xs \<Longrightarrow> a \<noteq> b \<Longrightarrow> lt a b \<or> lt b a"
  shows "xs = ys"
  using assms
proof (induction xs arbitrary: ys)
  case (Cons x xs)
  then obtain y ys' where ys: "ys = y # ys'"
    by (cases ys) auto
  have sets: "set (x # xs) = set ys"
    using Cons.prems(3) by (metis set_mset_mset)
  have "x = y"
  proof (rule ccontr)
    assume ne: "x \<noteq> y"
    with sets ys have y: "y \<in> set xs" and "x \<in> set ys'" by auto
    with Cons.prems ys have "\<not> lt y x" "\<not> lt x y" by auto
    with Cons.prems(4)[of x y] ne y show False by auto
  qed
  with Cons ys show ?case by auto
qed simp

end

section \<open>JSON text\<close>

text \<open>The number of bytes of the UTF-8 sequence a string starts with, 0 when they encode no rune.\<close>

definition cont_byte :: "char \<Rightarrow> bool" where
  [go_lib]: "cont_byte c \<longleftrightarrow> 128 \<le> byte c \<and> byte c < 192"

fun rune_len :: "string \<Rightarrow> nat" where
  "rune_len [] = 0"
| "rune_len (a # s) =
     (if byte a < 128 then 1
      else case s of
        [] \<Rightarrow> 0
      | b # t \<Rightarrow>
          (if 194 \<le> byte a \<and> byte a < 224 then (if cont_byte b then 2 else 0)
           else case t of
             [] \<Rightarrow> 0
           | c # u \<Rightarrow>
               (if 224 \<le> byte a \<and> byte a < 240 then
                  (if cont_byte b \<and> cont_byte c \<and> (byte a = 224 \<longrightarrow> 160 \<le> byte b)
                     \<and> (byte a = 237 \<longrightarrow> byte b < 160) then 3 else 0)
                else case u of
                  [] \<Rightarrow> 0
                | d # _ \<Rightarrow>
                    (if 240 \<le> byte a \<and> byte a < 245 \<and> cont_byte b \<and> cont_byte c \<and> cont_byte d
                       \<and> (byte a = 240 \<longrightarrow> 144 \<le> byte b) \<and> (byte a = 244 \<longrightarrow> byte b < 144) then 4 else 0))))"

text \<open>\<open>json.Marshal\<close> of a byte of a string: control characters, quotes, the backslash and \<open><\<close>, \<open>>\<close>, \<open>&\<close> are escaped.\<close>

definition json_byte :: "char \<Rightarrow> string" where
  [go_lib]: "json_byte c =
     (if byte c = 34 \<or> byte c = 92 then [char_of (92::nat), c]
      else if byte c = 8 then [char_of (92::nat), CHR ''b'']
      else if byte c = 12 then [char_of (92::nat), CHR ''f'']
      else if byte c = 10 then [char_of (92::nat), CHR ''n'']
      else if byte c = 13 then [char_of (92::nat), CHR ''r'']
      else if byte c = 9 then [char_of (92::nat), CHR ''t'']
      else if byte c < 32 \<or> byte c = 60 \<or> byte c = 62 \<or> byte c = 38
      then char_of (92::nat) # ''u00'' @ hex_digits 2 (byte c)
      else [c])"

text \<open>The other runes are copied, but for the line separators U+2028 and U+2029 and bytes that encode no rune.\<close>

definition json_rune :: "nat \<Rightarrow> string \<Rightarrow> string" where
  [go_lib]: "json_rune n s =
     (if n = 0 then char_of (92::nat) # ''ufffd''
      else if n = 1 then json_byte (hd s)
      else if map byte (take n s) = [226, 128, 168] then char_of (92::nat) # ''u2028''
      else if map byte (take n s) = [226, 128, 169] then char_of (92::nat) # ''u2029''
      else take n s)"

function json_chars :: "string \<Rightarrow> string" where
  "json_chars [] = []"
| "json_chars (a # s) = json_rune (rune_len (a # s)) (a # s) @ json_chars (drop (max 1 (rune_len (a # s))) (a # s))"
  by pat_completeness auto
termination
  by (relation "measure length") auto

definition json_string :: "string \<Rightarrow> string" where
  [go_lib]: "json_string s = [char_of (34::nat)] @ json_chars s @ [char_of (34::nat)]"

definition json_bool :: "bool \<Rightarrow> string" where
  [go_lib]: "json_bool b = (if b then ''true'' else ''false'')"

fun json_commas :: "string list \<Rightarrow> string" where
  "json_commas [] = []"
| "json_commas [x] = x"
| "json_commas (x # xs) = x @ '','' @ json_commas xs"

definition json_array :: "string list \<Rightarrow> string" where
  [go_lib]: "json_array xs = ''['' @ json_commas xs @ '']''"

text \<open>An object: the members in the order of the struct's fields; a member left out is \<open>None\<close>.\<close>

definition json_object :: "(string \<times> string option) list \<Rightarrow> string" where
  [go_lib]: "json_object fs =
     ''{'' @ json_commas (map (\<lambda>(k, v). json_string k @ '':'' @ the v) (filter (\<lambda>(k, v). v \<noteq> None) fs)) @ ''}''"

section \<open>Paths\<close>

text \<open>
  \<open>filepath.Clean\<close> on Unix: drop empty and \<open>.\<close> elements, let \<open>..\<close> remove the element before it
  (or nothing at the root), and keep a leading \<open>..\<close> of a relative path.
\<close>

fun clean_step :: "bool \<Rightarrow> string list \<Rightarrow> string \<Rightarrow> string list" where
  "clean_step rooted out w =
     (if w = '''' \<or> w = ''.'' then out
      else if w = ''..'' then
        (if out \<noteq> [] \<and> last out \<noteq> ''..'' then butlast out
         else if rooted then out else out @ [w])
      else out @ [w])"

fun join_path :: "string list \<Rightarrow> string" where
  "join_path [] = ''''"
| "join_path [w] = w"
| "join_path (w # ws) = w @ ''/'' @ join_path ws"

definition is_abs :: "string \<Rightarrow> bool" where
  [go_lib]: "is_abs p \<longleftrightarrow> p \<noteq> [] \<and> hd p = CHR ''/''"

definition path_clean :: "string \<Rightarrow> string" where
  [go_lib]: "path_clean p =
     (let out = foldl (clean_step (is_abs p)) [] (go_split (CHR ''/'') p);
          body = join_path out
      in if is_abs p then CHR ''/'' # body else if body = [] then ''.'' else body)"

section \<open>Time\<close>

type_synonym time = int
type_synonym duration = int

definition second :: duration where
  [go_lib]: "second = 1000000000"

definition minute :: duration where
  [go_lib]: "minute = 60000000000"

definition hour :: duration where
  [go_lib]: "hour = 3600000000000"

text \<open>\<open>time.Duration(n) * time.Second\<close> for an \<open>int\<close>.\<close>

definition seconds :: "int \<Rightarrow> duration" where
  [go_lib]: "seconds n = wrap64 (n * 1000000000)"

lemma seconds_small: "0 \<le> n \<Longrightarrow> n \<le> 9000000000 \<Longrightarrow> seconds n = n * 1000000000"
  unfolding seconds_def by (rule wrap64_id) (simp_all add: min_int64_def max_int64_def)

definition is_zero :: "time \<Rightarrow> bool" where
  [go_lib]: "is_zero t \<longleftrightarrow> t = 0"

text \<open>\<open>t.Sub(u)\<close> saturates at the smallest and the largest duration.\<close>

definition time_sub :: "time \<Rightarrow> time \<Rightarrow> duration" where
  [go_lib]: "time_sub t u = max min_int64 (min max_int64 (t - u))"

lemma time_sub_le: "min_int64 \<le> d \<Longrightarrow> d < max_int64 \<Longrightarrow> time_sub t u \<le> d \<longleftrightarrow> t - u \<le> d"
  by (auto simp: time_sub_def)

lemma time_sub_ge: "min_int64 < d \<Longrightarrow> d \<le> max_int64 \<Longrightarrow> d \<le> time_sub t u \<longleftrightarrow> d \<le> t - u"
  by (auto simp: time_sub_def)

text \<open>\<open>t.Truncate(d)\<close> rounds down to a multiple of \<open>d\<close> since the zero time.\<close>

definition time_truncate :: "time \<Rightarrow> duration \<Rightarrow> time" where
  [go_lib]: "time_truncate t d = t - t mod d"

text \<open>\<open>t.Unix()\<close>: whole seconds since 1970-01-01, rounding down.\<close>

definition unix :: "time \<Rightarrow> int" where
  [go_lib]: "unix t = t div 1000000000 - 62135596800"

definition from_unix :: "int \<Rightarrow> time" where
  [go_lib]: "from_unix n = (n + 62135596800) * 1000000000"

lemma unix_from_unix [simp]: "unix (from_unix n) = n"
  by (simp add: unix_def from_unix_def)

subsection \<open>The civil calendar\<close>

text \<open>
  Year, month and day of a day number counted from 0001-01-01, in the proleptic Gregorian
  calendar. Counting from 1 March puts the leap day last: 400 years are 146097 days, and month
  \<open>k\<close> of such a year starts at day \<open>(153 * k + 2) div 5\<close>.
\<close>

definition civil_of_days :: "int \<Rightarrow> int \<times> int \<times> int" where
  [go_lib]: "civil_of_days days =
     (let z = days + 306;
          era = z div 146097;
          doe = z mod 146097;
          yoe = (doe - doe div 1460 + doe div 36524 - doe div 146096) div 365;
          doy = doe - (365 * yoe + yoe div 4 - yoe div 100);
          mp = (5 * doy + 2) div 153;
          d = doy - (153 * mp + 2) div 5 + 1;
          m = (if mp < 10 then mp + 3 else mp - 9)
      in (yoe + era * 400 + (if m \<le> 2 then 1 else 0), m, d))"

text \<open>Day 0 is a Monday; \<open>time.Weekday\<close> counts from Sunday.\<close>

definition weekday_of_days :: "int \<Rightarrow> int" where
  [go_lib]: "weekday_of_days days = (days + 1) mod 7"

text \<open>
  A \<open>*time.Location\<close> gives the offset from UTC, in seconds, at each instant; which one a name
  stands for is the time zone database's business.
\<close>

type_synonym location = "time \<Rightarrow> int"

text \<open>Seconds of local time: what \<open>t.In(loc)\<close> shows.\<close>

definition local_seconds :: "location \<Rightarrow> time \<Rightarrow> int" where
  [go_lib]: "local_seconds loc t = t div 1000000000 + loc t"

definition local_minute :: "int \<Rightarrow> int" where
  [go_lib]: "local_minute s = (s div 60) mod 60"

definition local_hour :: "int \<Rightarrow> int" where
  [go_lib]: "local_hour s = (s div 3600) mod 24"

definition local_day :: "int \<Rightarrow> int" where
  [go_lib]: "local_day s = (case civil_of_days (s div 86400) of (y, m, d) \<Rightarrow> d)"

definition local_month :: "int \<Rightarrow> int" where
  [go_lib]: "local_month s = (case civil_of_days (s div 86400) of (y, m, d) \<Rightarrow> m)"

definition local_weekday :: "int \<Rightarrow> int" where
  [go_lib]: "local_weekday s = weekday_of_days (s div 86400)"

text \<open>\<open>t.UTC().Format(time.RFC3339)\<close>, for years 0 to 9999.\<close>

definition rfc3339 :: "time \<Rightarrow> string" where
  [go_lib]: "rfc3339 t =
     (let s = t div 1000000000
      in case civil_of_days (s div 86400) of
        (y, m, d) \<Rightarrow>
          dec_digits 4 (nat y) @ ''-'' @ dec_digits 2 (nat m) @ ''-'' @ dec_digits 2 (nat d) @ ''T'' @
          dec_digits 2 (nat (local_hour s)) @ '':'' @ dec_digits 2 (nat (local_minute s)) @ '':'' @
          dec_digits 2 (nat (s mod 60)) @ ''Z'')"

text \<open>\<open>t.UTC().Format(time.RFC3339Nano)\<close>: the fraction of the second without trailing zeros.\<close>

definition rfc3339nano :: "time \<Rightarrow> string" where
  [go_lib]: "rfc3339nano t =
     (let frac = rev (dropWhile (\<lambda>c. c = CHR ''0'') (rev (dec_digits 9 (nat (t mod 1000000000)))))
      in butlast (rfc3339 t) @ (if frac = [] then [] else CHR ''.'' # frac) @ ''Z'')"

lemma local_minute_range: "0 \<le> local_minute s \<and> local_minute s \<le> 59"
  using pos_mod_bound[of 60 "s div 60"] by (simp add: local_minute_def)

lemma local_hour_range: "0 \<le> local_hour s \<and> local_hour s \<le> 23"
  using pos_mod_bound[of 24 "s div 3600"] by (simp add: local_hour_def)

lemma local_weekday_range: "0 \<le> local_weekday s \<and> local_weekday s \<le> 6"
  using pos_mod_bound[of 7 "s div 86400 + 1"] by (simp add: local_weekday_def weekday_of_days_def)

end
