(* ===== verification/Schedule.thy ===== *)
theory Schedule
  imports Go_Lib
begin

text \<open>
  The Agent's run times of one plan (\<open>internal/agent/schedule/schedule.go\<close>): five-field cron in a
  time zone, parsed into bit masks, the search for the next matching minute, the stable jitter and
  the misfire and concurrency decisions. The time zone database (\<open>time.LoadLocation\<close>), SHA-256
  and \<open>uuid.NewSHA1\<close> are parameters.
\<close>

section \<open>Model\<close>

text \<open>The bound of the search: one leap year of minutes.\<close>

definition maxMinutesAhead :: int where
  "maxMinutesAhead = 366 * 24 * 60"

definition fieldBounds :: "(int \<times> int) list" where
  "fieldBounds = [(0, 59), (0, 23), (1, 31), (1, 12), (0, 6)]"

record spec =
  Cron :: string
  Timezone :: string
  JitterSeconds :: int
  MisfireGraceSeconds :: int
  ConcurrencyPolicy :: string

record scheduler =
  planID :: uuid
  sched_spec :: spec
  loc :: location
  field_masks :: "64 word list"
  domRestricted :: bool
  dowRestricted :: bool

text \<open>The messages of \<open>New\<close> and \<open>parseField\<close>. \<open>LoopDiverges\<close> is no message: it is the loop of \<open>parseField\<close> not ending.\<close>

datatype schedule_error =
  InvalidTimezone | CronFieldCount | EmptyListItem | InvalidStep | InvalidRange
  | RangeOutOfBounds | ValueOutOfBounds | JitterOutOfRange | MisfireOutOfRange | LoopDiverges

subsection \<open>Parsing a field\<close>

text \<open>\<open>1 << uint(d)\<close> in \<open>uint64\<close>: a shift of 64 or more gives 0, and a negative \<open>d\<close> converts to one.\<close>

definition shl_one :: "int \<Rightarrow> 64 word" where
  "shl_one d = (if 0 \<le> d \<and> d < 64 then push_bit (nat d) 1 else 0)"

text \<open>\<open>for value := low; value <= high; value += step { mask |= 1 << uint(value-min) }\<close>, at most
  \<open>fuel\<close> tests of the guard; the addition wraps around.\<close>

fun fill_loop :: "nat \<Rightarrow> int \<Rightarrow> int \<Rightarrow> int \<Rightarrow> int \<Rightarrow> 64 word \<Rightarrow> 64 word option" where
  "fill_loop 0 mn high step v msk = None"
| "fill_loop (Suc fuel) mn high step v msk =
     (if v \<le> high
      then fill_loop fuel mn high step (wrap64 (v + step)) (msk OR shl_one (wrap64 (v - mn)))
      else Some msk)"

definition fill_fuel :: nat where
  "fill_fuel = 128"

text \<open>The step of a list item: what follows the first \<open>/\<close>, 1 when there is none.\<close>

definition item_step :: "string \<Rightarrow> schedule_error + (string \<times> int)" where
  "item_step item =
     (case go_cut (CHR ''/'') item of
        None \<Rightarrow> Inr (item, 1)
      | Some (base, rawStep) \<Rightarrow>
          (case atoi rawStep of
             None \<Rightarrow> Inl InvalidStep
           | Some parsed \<Rightarrow> if parsed < 1 then Inl InvalidStep else Inr (base, parsed)))"

text \<open>The range of a list item: \<open>*\<close>, \<open>first-last\<close> or one value.\<close>

definition item_range :: "int \<Rightarrow> int \<Rightarrow> string \<Rightarrow> schedule_error + (int \<times> int)" where
  "item_range mn mx item =
     (if item = ''*'' then Inr (mn, mx)
      else case go_cut (CHR ''-'') item of
        Some (left, right) \<Rightarrow>
          (case atoi left of
             None \<Rightarrow> Inl InvalidRange
           | Some lo \<Rightarrow>
               (case atoi right of
                  None \<Rightarrow> Inl RangeOutOfBounds
                | Some hi \<Rightarrow>
                    if lo < mn \<or> hi > mx \<or> lo > hi then Inl RangeOutOfBounds
                    else Inr (lo, hi)))
      | None \<Rightarrow>
          (case atoi item of
             None \<Rightarrow> Inl ValueOutOfBounds
           | Some v \<Rightarrow> if v < mn \<or> v > mx then Inl ValueOutOfBounds else Inr (v, v)))"

definition parse_item :: "int \<Rightarrow> int \<Rightarrow> string \<Rightarrow> 64 word \<Rightarrow> schedule_error + 64 word" where
  "parse_item mn mx item msk =
     (if item = '''' then Inl EmptyListItem
      else case item_step item of
        Inl e \<Rightarrow> Inl e
      | Inr (base, step) \<Rightarrow>
          (case item_range mn mx base of
             Inl e \<Rightarrow> Inl e
           | Inr (low, high) \<Rightarrow>
               (case fill_loop fill_fuel mn high step low msk of
                  None \<Rightarrow> Inl LoopDiverges
                | Some m \<Rightarrow> Inr m)))"

fun parse_items :: "int \<Rightarrow> int \<Rightarrow> string list \<Rightarrow> 64 word \<Rightarrow> schedule_error + 64 word" where
  "parse_items mn mx [] msk = Inr msk"
| "parse_items mn mx (item # rest) msk =
     (case parse_item mn mx item msk of
        Inl e \<Rightarrow> Inl e
      | Inr m \<Rightarrow> parse_items mn mx rest m)"

definition parseField :: "string \<Rightarrow> int \<Rightarrow> int \<Rightarrow> schedule_error + (64 word \<times> bool)" where
  "parseField part mn mx =
     (case parse_items mn mx (go_split (CHR '','') part) 0 of
        Inl e \<Rightarrow> Inl e
      | Inr msk \<Rightarrow> Inr (msk, part = ''*''))"

subsection \<open>Building a scheduler\<close>

text \<open>The loop of \<open>New\<close> over the five parts.\<close>

fun parse_fields :: "(string \<times> int \<times> int) list \<Rightarrow> schedule_error + (64 word \<times> bool) list" where
  "parse_fields [] = Inr []"
| "parse_fields ((part, mn, mx) # rest) =
     (case parseField part mn mx of
        Inl e \<Rightarrow> Inl e
      | Inr f \<Rightarrow>
          (case parse_fields rest of
             Inl e \<Rightarrow> Inl e
           | Inr fs \<Rightarrow> Inr (f # fs)))"

definition New :: "(string \<Rightarrow> location option) \<Rightarrow> uuid \<Rightarrow> spec \<Rightarrow> schedule_error + scheduler" where
  "New load_location plan sp =
     (case load_location (Timezone sp) of
        None \<Rightarrow> Inl InvalidTimezone
      | Some l \<Rightarrow>
          if Timezone sp = '''' \<or> Timezone sp = ''Local'' then Inl InvalidTimezone
          else if length (go_fields (Cron sp)) \<noteq> length fieldBounds then Inl CronFieldCount
          else
            (case parse_fields (zip (go_fields (Cron sp)) fieldBounds) of
               Inl e \<Rightarrow> Inl e
             | Inr fs \<Rightarrow>
                 if JitterSeconds sp < 0 \<or> JitterSeconds sp > 3600 then Inl JitterOutOfRange
                 else if MisfireGraceSeconds sp < 0 \<or> MisfireGraceSeconds sp > 86400
                 then Inl MisfireOutOfRange
                 else Inr \<lparr>planID = plan, sched_spec = sp, loc = l, field_masks = map fst fs,
                   domRestricted = (\<not> snd (fs ! 2)), dowRestricted = (\<not> snd (fs ! 4))\<rparr>))"

subsection \<open>Matching and searching\<close>

text \<open>\<open>bit\<close> of the source.\<close>

definition mask_bit :: "64 word \<Rightarrow> int \<Rightarrow> int \<Rightarrow> bool" where
  "mask_bit msk v offset \<longleftrightarrow> \<not> v < offset \<and> msk AND shl_one (v - offset) \<noteq> 0"

text \<open>\<open>matches\<close>, of the local time shown as \<open>s\<close> seconds.\<close>

definition matches :: "scheduler \<Rightarrow> int \<Rightarrow> bool" where
  "matches c s =
     (if \<not> mask_bit (field_masks c ! 0) (local_minute s) 0 \<or> \<not> mask_bit (field_masks c ! 1) (local_hour s) 0
         \<or> \<not> mask_bit (field_masks c ! 3) (local_month s) 1 then False
      else
        let domMatch = mask_bit (field_masks c ! 2) (local_day s) 1;
            dowMatch = mask_bit (field_masks c ! 4) (local_weekday s) 0
        in if domRestricted c \<and> dowRestricted c then domMatch \<or> dowMatch
           else domMatch \<and> dowMatch)"

text \<open>The search loop of \<open>NextScheduled\<close>, from its counter \<open>i\<close> on.\<close>

function search :: "scheduler \<Rightarrow> time \<Rightarrow> int \<Rightarrow> time option" where
  "search c start i =
     (if i < maxMinutesAhead then
        if matches c (local_seconds (loc c) (start + i * minute)) then Some (start + i * minute)
        else search c start (i + 1)
      else None)"
  by pat_completeness auto
termination
  by (relation "measure (\<lambda>(c, start, i). nat (maxMinutesAhead - i))") auto

declare search.simps [simp del]

definition NextScheduled :: "scheduler \<Rightarrow> time \<Rightarrow> time option" where
  "NextScheduled c t = search c (time_truncate t minute + minute) 0"

text \<open>\<open>binary.BigEndian.Uint64(sum[:8])\<close>.\<close>

definition be_uint64 :: "8 word list \<Rightarrow> nat" where
  "be_uint64 bs = foldl (\<lambda>acc b. acc * 256 + unat b) 0 (take 8 bs)"

definition slot_key :: "uuid \<Rightarrow> time \<Rightarrow> string" where
  "slot_key plan scheduled = uuid_string plan @ ''|'' @ rfc3339 scheduled"

definition StableJitter :: "(string \<Rightarrow> 8 word list) \<Rightarrow> uuid \<Rightarrow> time \<Rightarrow> int \<Rightarrow> duration" where
  "StableJitter sha256 plan scheduled maxSeconds =
     (if maxSeconds \<le> 0 then 0
      else seconds (int (be_uint64 (sha256 (slot_key plan scheduled)) mod nat (maxSeconds + 1))))"

definition NextRun :: "(string \<Rightarrow> 8 word list) \<Rightarrow> scheduler \<Rightarrow> time \<Rightarrow> time option" where
  "NextRun sha256 c t =
     (case NextScheduled c t of
        None \<Rightarrow> None
      | Some scheduled \<Rightarrow>
          Some (scheduled + StableJitter sha256 (planID c) scheduled (JitterSeconds (sched_spec c))))"

subsection \<open>Decisions\<close>

datatype misfire_decision = RunCompensation | ReportMissed

definition DecideMisfire :: "time \<Rightarrow> time \<Rightarrow> int \<Rightarrow> misfire_decision" where
  "DecideMisfire now scheduled graceSeconds =
     (if \<not> now > scheduled then RunCompensation
      else if time_sub now scheduled \<le> seconds graceSeconds then RunCompensation
      else ReportMissed)"

definition ConcurrencySkip :: "string \<Rightarrow> bool \<Rightarrow> bool" where
  "ConcurrencySkip policy running \<longleftrightarrow> equal_fold policy ''FORBID'' \<and> running"

text \<open>\<open>uuid.NewSHA1(uuid.NameSpaceOID, data)\<close> is the parameter \<open>new_sha1\<close>.\<close>

definition OperationID :: "(string \<Rightarrow> uuid) \<Rightarrow> uuid \<Rightarrow> time \<Rightarrow> uuid" where
  "OperationID new_sha1 plan scheduled = new_sha1 (slot_key plan scheduled)"

subsection \<open>Reference meaning of a cron field\<close>

text \<open>The values a list item, and a whole field, stand for.\<close>

definition item_set :: "int \<Rightarrow> int \<Rightarrow> string \<Rightarrow> int set" where
  "item_set mn mx item =
     (case item_step item of
        Inl _ \<Rightarrow> {}
      | Inr (base, step) \<Rightarrow>
          (case item_range mn mx base of
             Inl _ \<Rightarrow> {}
           | Inr (low, high) \<Rightarrow> set (filter (\<lambda>v. step dvd v - low) [low..high])))"

definition field_set :: "int \<Rightarrow> int \<Rightarrow> string \<Rightarrow> int set" where
  "field_set mn mx part = \<Union> (set (map (item_set mn mx) (go_split (CHR '','') part)))"

text \<open>No step of the field is so large that adding it to a value of the field overflows an \<open>int\<close>.\<close>

definition step_fits :: "string \<Rightarrow> bool" where
  "step_fits item = (case item_step item of Inl _ \<Rightarrow> True | Inr (_, step) \<Rightarrow> step \<le> max_int64 - 59)"

definition steps_fit :: "string \<Rightarrow> bool" where
  "steps_fit part = list_all step_fits (go_split (CHR '','') part)"

text \<open>A field as cron reads it: \<open>(lowest, highest, part)\<close> holds of a value; and a whole expression.\<close>

definition cron_holds :: "string list \<Rightarrow> int \<Rightarrow> bool" where
  "cron_holds parts s \<longleftrightarrow>
     local_minute s \<in> field_set 0 59 (parts ! 0) \<and> local_hour s \<in> field_set 0 23 (parts ! 1) \<and>
     local_month s \<in> field_set 1 12 (parts ! 3) \<and>
     (let dom = local_day s \<in> field_set 1 31 (parts ! 2);
          dow = local_weekday s \<in> field_set 0 6 (parts ! 4)
      in if parts ! 2 \<noteq> ''*'' \<and> parts ! 4 \<noteq> ''*'' then dom \<or> dow else dom \<and> dow)"

subsection \<open>A concrete plan, for the witnesses: every day at two minutes past midnight UTC\<close>

definition demo_spec :: spec where
  "demo_spec = \<lparr>Cron = ''2 0 * * *'', Timezone = ''UTC'', JitterSeconds = 60,
     MisfireGraceSeconds = 300, ConcurrencyPolicy = ''FORBID''\<rparr>"

definition demo_locations :: "string \<Rightarrow> location option" where
  "demo_locations tz = (if tz = ''UTC'' then Some (\<lambda>_. 0) else None)"

definition demo_clock :: scheduler where
  "demo_clock = \<lparr>planID = 7, sched_spec = demo_spec, loc = (\<lambda>_. 0),
     field_masks = [4, 1, 2147483647, 4095, 127], domRestricted = False, dowRestricted = False\<rparr>"

section \<open>The mask of a field\<close>

lemma bit_shl_one: "bit (shl_one d) i \<longleftrightarrow> 0 \<le> d \<and> d < 64 \<and> i = nat d"
  by (auto simp: shl_one_def bit_simps)

lemma mask_bit_iff: "mask_bit msk v off \<longleftrightarrow> off \<le> v \<and> v - off < 64 \<and> bit msk (nat (v - off))"
proof (cases "off \<le> v \<and> v - off < 64")
  case True
  have "msk AND shl_one (v - off) = 0 \<longleftrightarrow>
      (\<forall>n<64. \<not> (bit msk n \<and> bit (shl_one (v - off)) n))"
    using bit_eq_iff[of "msk AND shl_one (v - off)" 0] by (simp add: bit_and_iff)
  moreover have "nat (v - off) < 64"
    using True by linarith
  ultimately have "msk AND shl_one (v - off) = 0 \<longleftrightarrow> \<not> bit msk (nat (v - off))"
    using True by (auto simp: bit_shl_one)
  with True show ?thesis by (auto simp: mask_bit_def)
next
  case False
  then show ?thesis by (auto simp: mask_bit_def shl_one_def)
qed

text \<open>Whatever the step, the loop only sets bits of values up to \<open>high\<close>.\<close>

lemma fill_loop_bits:
  "fill_loop fuel mn high step v msk = Some m \<Longrightarrow> min_int64 \<le> v \<Longrightarrow> v \<le> max_int64 \<Longrightarrow>
     0 \<le> mn \<Longrightarrow> mn \<le> 1 \<Longrightarrow> high \<le> 59 \<Longrightarrow> bit m i \<Longrightarrow> bit msk i \<or> int i \<le> high - mn"
proof (induction fuel arbitrary: v msk)
  case (Suc fuel)
  show ?case
  proof (cases "v \<le> high")
    case True
    have "bit (msk OR shl_one (wrap64 (v - mn))) i \<or> int i \<le> high - mn"
      using Suc.IH[of "wrap64 (v + step)"] Suc.prems True wrap64_range[of "v + step"] by auto
    moreover have "int i \<le> high - mn" if "bit (shl_one (wrap64 (v - mn))) i"
    proof (cases "min_int64 \<le> v - mn")
      case True
      with Suc.prems \<open>v \<le> high\<close> have "wrap64 (v - mn) = v - mn"
        by (intro wrap64_id) (auto simp: max_int64_def)
      with that \<open>v \<le> high\<close> show ?thesis by (auto simp: bit_shl_one)
    next
      case False
      with Suc.prems have "v = min_int64" "mn = 1" by auto
      with that show ?thesis
        by (auto simp: bit_shl_one wrap64_def min_int64_def)
    qed
    ultimately show ?thesis by (auto simp: bit_or_iff)
  next
    case False
    with Suc.prems show ?thesis by simp
  qed
qed simp

text \<open>When no addition overflows, the loop sets exactly the bits of \<open>v, v + step, \<dots>\<close> up to \<open>high\<close>.\<close>

lemma fill_loop_exact:
  assumes "1 \<le> step" "high + step \<le> max_int64" "0 \<le> mn" "mn \<le> v" "high \<le> 59"
    and "nat (high - v + 1) < fuel"
  shows "\<exists>m. fill_loop fuel mn high step v msk = Some m \<and>
    (\<forall>i. bit m i \<longleftrightarrow> bit msk i \<or> (int i + mn \<le> high \<and> v \<le> int i + mn \<and> step dvd int i + mn - v))"
  using assms
proof (induction fuel arbitrary: v msk)
  case (Suc fuel)
  show ?case
  proof (cases "v \<le> high")
    case True
    have w: "wrap64 (v + step) = v + step" "wrap64 (v - mn) = v - mn"
      using Suc.prems True by (auto intro!: wrap64_id simp: min_int64_def max_int64_def)
    have "nat (high - (v + step) + 1) < fuel"
      using Suc.prems True by linarith
    then obtain m where m: "fill_loop fuel mn high step (v + step) (msk OR shl_one (v - mn)) = Some m"
      and bits: "\<And>i. bit m i \<longleftrightarrow> bit (msk OR shl_one (v - mn)) i \<or>
        (int i + mn \<le> high \<and> v + step \<le> int i + mn \<and> step dvd int i + mn - (v + step))"
      using Suc.IH[of "v + step" "msk OR shl_one (v - mn)"] Suc.prems True by auto
    have "bit m i \<longleftrightarrow> bit msk i \<or> (int i + mn \<le> high \<and> v \<le> int i + mn \<and> step dvd int i + mn - v)" for i
    proof -
      have dvd: "step dvd int i + mn - (v + step) \<longleftrightarrow> step dvd int i + mn - v"
        using dvd_add_triv_right_iff[of step "int i + mn - (v + step)"] by (simp add: algebra_simps)
      have "v + step \<le> int i + mn" if "v \<le> int i + mn" "step dvd int i + mn - v" "int i + mn \<noteq> v"
        using that zdvd_imp_le[of step "int i + mn - v"] by linarith
      moreover have "bit (shl_one (v - mn)) i \<longleftrightarrow> int i + mn = v"
        using Suc.prems True by (auto simp: bit_shl_one)
      ultimately show ?thesis
        using True Suc.prems by (auto simp: bits bit_or_iff dvd)
    qed
    with m w True show ?thesis by auto
  next
    case False
    then show ?thesis by auto
  qed
qed simp

text \<open>
  The loop always ends. A step so large that an addition overflows takes the counter to the bottom
  of the range and, two additions later, at least two below where it was.
\<close>

lemma fill_loop_ends_wrapping:
  assumes "max_int64 - high < step" "step \<le> max_int64" "high \<le> 59" "v \<le> high" "- 200 \<le> v"
    and "nat (v + 2) < fuel" "1 < fuel"
  shows "fill_loop fuel mn high step v msk \<noteq> None"
  using assms
proof (induction "nat (v + 200)" arbitrary: v fuel msk rule: less_induct)
  case less
  define f where "f = fuel - 2"
  have f: "fuel = Suc (Suc f)"
    using less.prems(7) by (simp add: f_def)
  show ?case
  proof (cases "v + step \<le> max_int64")
    case True
    then have "wrap64 (v + step) = v + step"
      using less.prems by (intro wrap64_id) (auto simp: min_int64_def max_int64_def)
    moreover have "\<not> v + step \<le> high"
      using less.prems by (auto simp: max_int64_def)
    ultimately show ?thesis
      using f by simp
  next
    case False
    have w: "wrap64 (v + step) = v + step - 18446744073709551616"
      using False less.prems by (intro wrap64_over) (auto simp: max_int64_def)
    have w2: "wrap64 (v + step - 18446744073709551616 + step) =
        v + step - 18446744073709551616 + step"
      using False less.prems by (intro wrap64_id) (auto simp: min_int64_def max_int64_def)
    let ?u = "v + step - 18446744073709551616 + step"
    have u: "?u \<le> v - 2" "- 200 \<le> ?u" and v: "1 \<le> v"
      using False less.prems by (auto simp: max_int64_def)
    have "fill_loop f mn high step ?u m \<noteq> None" for m
    proof (rule less.hyps)
      show "nat (?u + 200) < nat (v + 200)"
        using u by simp
      show "nat (?u + 2) < f" "1 < f"
        using u v f less.prems by linarith+
    qed (use less.prems u in auto)
    moreover have "v + step - 18446744073709551616 \<le> high"
      using less.prems by (auto simp: max_int64_def)
    ultimately show ?thesis
      using f w w2 less.prems by simp
  qed
qed

text \<open>
  When the addition of a step overflows, the next one brings the counter back: with \<open>k\<close> what the step lacks of
  \<open>2 ^ 63\<close>, the loop goes through \<open>v\<close>, \<open>v - 2 * k\<close>, \<open>v - 4 * k\<close> and so on, with values below the
  field, which set no bit, in between.
\<close>

lemma shl_one_below: "- 9223372036854775809 \<le> d \<Longrightarrow> d < 0 \<Longrightarrow> shl_one (wrap64 d) = 0"
  by (cases "d = - 9223372036854775809") (auto simp: shl_one_def wrap64_def)

lemma fill_loop_overflow:
  assumes "1 \<le> k" "k \<le> 59" "0 \<le> mn" "mn \<le> 1" "v \<le> high" "high \<le> 59" "- 59 \<le> v" "nat (v + 62) \<le> fuel"
  shows "\<exists>m. fill_loop fuel mn high (9223372036854775808 - k) v msk = Some m \<and>
    (\<forall>i. bit m i \<longleftrightarrow> bit msk i \<or> (int i + mn \<le> v \<and> 2 * k dvd v - (int i + mn)))"
  using assms
proof (induction "nat (v + 200)" arbitrary: v fuel msk rule: less_induct)
  case less
  let ?step = "9223372036854775808 - k"
  define f where "f = fuel - 2"
  have f: "fuel = Suc (Suc f)"
    using less.prems by (simp add: f_def)
  have first: "bit (shl_one (wrap64 (v - mn))) i \<longleftrightarrow> v = int i + mn" for i
  proof (cases "mn \<le> v")
    case True
    then have "wrap64 (v - mn) = v - mn"
      using less.prems by (intro wrap64_id) (auto simp: min_int64_def max_int64_def)
    with True less.prems show ?thesis by (auto simp: bit_shl_one)
  next
    case False
    with less.prems shl_one_below[of "v - mn"] show ?thesis by auto
  qed
  show ?case
  proof (cases "k \<le> v")
    case False
    have w: "wrap64 (v + ?step) = v + ?step"
      using less.prems False by (intro wrap64_id) (auto simp: min_int64_def max_int64_def)
    have one: "int i + mn \<le> v \<and> 2 * k dvd v - (int i + mn) \<longleftrightarrow> v = int i + mn" for i
      using False less.prems zdvd_imp_le[of "2 * k" "v - (int i + mn)"] by (auto simp: order.order_iff_strict)
    have out: "\<not> v + ?step \<le> high" using less.prems by auto
    show ?thesis
      using w out less.prems(5) by (auto simp: f one bit_or_iff first)
  next
    case True
    have w: "wrap64 (v + ?step) = v - k - 9223372036854775808"
      using True less.prems wrap64_over[of "v + ?step"] by (auto simp: max_int64_def)
    have w2: "wrap64 (v - k - 9223372036854775808 + ?step) = v - 2 * k"
      using True less.prems wrap64_id[of "v - 2 * k"] by (auto simp: min_int64_def max_int64_def)
    have none: "shl_one (wrap64 (v - k - 9223372036854775808 - mn)) = 0"
      using True less.prems by (intro shl_one_below) auto
    have "\<exists>m. fill_loop f mn high ?step (v - 2 * k) (msk OR shl_one (wrap64 (v - mn))) = Some m \<and>
        (\<forall>i. bit m i \<longleftrightarrow> bit (msk OR shl_one (wrap64 (v - mn))) i \<or>
          (int i + mn \<le> v - 2 * k \<and> 2 * k dvd v - 2 * k - (int i + mn)))"
      by (rule less.hyps) (use less.prems True f in auto)
    then obtain m where m: "fill_loop f mn high ?step (v - 2 * k) (msk OR shl_one (wrap64 (v - mn))) = Some m"
      and bits: "\<And>i. bit m i \<longleftrightarrow> bit msk i \<or> v = int i + mn \<or>
          (int i + mn \<le> v - 2 * k \<and> 2 * k dvd v - 2 * k - (int i + mn))"
      by (auto simp: bit_or_iff first)
    have split: "int i + mn \<le> v \<and> 2 * k dvd v - (int i + mn) \<longleftrightarrow>
        v = int i + mn \<or> (int i + mn \<le> v - 2 * k \<and> 2 * k dvd v - 2 * k - (int i + mn))" for i
    proof -
      have "v - (int i + mn) = (v - 2 * k - (int i + mn)) + 2 * k"
        by simp
      then have "2 * k dvd v - 2 * k - (int i + mn) \<longleftrightarrow> 2 * k dvd v - (int i + mn)"
        by (metis dvd_add_left_iff dvd_refl)
      moreover have "int i + mn \<le> v - 2 * k" if "2 * k dvd v - (int i + mn)" "int i + mn < v"
        using zdvd_imp_le[OF that(1)] that(2) by simp
      ultimately show ?thesis using less.prems by force
    qed
    have "v - k - 9223372036854775808 \<le> high" using less.prems by auto
    with m bits split w w2 none less.prems(5) show ?thesis by (auto simp: f)
  qed
qed

lemma fill_loop_ends:
  assumes "1 \<le> step" "step \<le> max_int64" "0 \<le> mn" "mn \<le> low" "low \<le> high" "high \<le> 59"
  shows "fill_loop fill_fuel mn high step low msk \<noteq> None"
proof (cases "high + step \<le> max_int64")
  case True
  moreover have "nat (high - low + 1) < fill_fuel"
    using assms by (auto simp: fill_fuel_def)
  ultimately show ?thesis
    using fill_loop_exact[of step high mn low fill_fuel msk] assms by auto
next
  case False
  moreover have "nat (low + 2) < fill_fuel" "1 < fill_fuel"
    using assms by (auto simp: fill_fuel_def)
  ultimately show ?thesis
    using fill_loop_ends_wrapping[of high step low fill_fuel mn msk] assms by auto
qed

lemma item_step_range: "item_step item = Inr (base, step) \<Longrightarrow> 1 \<le> step \<and> step \<le> max_int64"
  by (auto simp: item_step_def max_int64_def min_int64_def dest!: atoi_range split: option.splits if_splits)

lemma item_range_bounds:
  "item_range mn mx item = Inr (low, high) \<Longrightarrow> mn \<le> mx \<Longrightarrow> mn \<le> low \<and> low \<le> high \<and> high \<le> mx"
  by (auto simp: item_range_def split: option.splits if_splits)

lemma parse_item_ends:
  assumes "0 \<le> mn" "mn \<le> mx" "mx \<le> 59"
  shows "parse_item mn mx item msk \<noteq> Inl LoopDiverges"
proof
  assume "parse_item mn mx item msk = Inl LoopDiverges"
  then obtain base step low high where st: "item_step item = Inr (base, step)"
    and r: "item_range mn mx base = Inr (low, high)"
    and none: "fill_loop fill_fuel mn high step low msk = None"
    by (auto simp: parse_item_def item_step_def item_range_def split: if_splits sum.splits option.splits)
  from item_step_range[OF st] item_range_bounds[OF r] assms none show False
    using fill_loop_ends[of step mn low high msk] by auto
qed

lemma parse_items_ends:
  "0 \<le> mn \<Longrightarrow> mn \<le> mx \<Longrightarrow> mx \<le> 59 \<Longrightarrow> parse_items mn mx its msk \<noteq> Inl LoopDiverges"
  by (induction its arbitrary: msk) (auto split: sum.splits simp: parse_item_ends)

lemma parseField_ends: "0 \<le> mn \<Longrightarrow> mn \<le> mx \<Longrightarrow> mx \<le> 59 \<Longrightarrow> parseField part mn mx \<noteq> Inl LoopDiverges"
  by (auto simp: parseField_def parse_items_ends split: sum.splits)

lemma parse_fields_ends:
  "\<forall>(part, mn, mx) \<in> set ps. 0 \<le> mn \<and> mn \<le> mx \<and> mx \<le> 59 \<Longrightarrow> parse_fields ps \<noteq> Inl LoopDiverges"
  by (induction ps rule: parse_fields.induct) (auto split: sum.splits simp: parseField_ends)

lemma zip_bounds_ok:
  "\<forall>(part, mn, mx) \<in> set (zip parts fieldBounds). 0 \<le> mn \<and> mn \<le> mx \<and> mx \<le> 59"
  by (auto simp: fieldBounds_def dest!: set_zip_rightD)

lemma parse_item_bits:
  assumes ok: "parse_item mn mx item msk = Inr m" and b: "0 \<le> mn" "mn \<le> mx" "mx \<le> 59"
    and small: "step_fits item"
  shows "bit m i \<longleftrightarrow> bit msk i \<or> int i + mn \<in> item_set mn mx item"
proof -
  from ok obtain base step low high where st: "item_step item = Inr (base, step)"
    and r: "item_range mn mx base = Inr (low, high)"
    and fl: "fill_loop fill_fuel mn high step low msk = Some m"
    by (auto simp: parse_item_def split: if_splits sum.splits option.splits)
  have "nat (high - low + 1) < fill_fuel" "high + step \<le> max_int64"
    using item_range_bounds[OF r] b small st by (auto simp: fill_fuel_def step_fits_def)
  then have "bit m i \<longleftrightarrow> bit msk i \<or>
      (int i + mn \<le> high \<and> low \<le> int i + mn \<and> step dvd int i + mn - low)"
    using fill_loop_exact[of step high mn low fill_fuel msk] item_step_range[OF st]
      item_range_bounds[OF r] b fl by auto
  then show ?thesis
    by (auto simp: item_set_def st r)
qed

lemma parse_items_bits:
  assumes "parse_items mn mx its msk = Inr m" "0 \<le> mn" "mn \<le> mx" "mx \<le> 59"
    and "list_all step_fits its"
  shows "bit m i \<longleftrightarrow> bit msk i \<or> (\<exists>item\<in>set its. int i + mn \<in> item_set mn mx item)"
  using assms
proof (induction its arbitrary: msk)
  case (Cons item its)
  then obtain k where k: "parse_item mn mx item msk = Inr k" and ks: "parse_items mn mx its k = Inr m"
    by (auto split: sum.splits)
  with Cons parse_item_bits[OF k] show ?case by auto
qed simp

lemma item_set_range: "mn \<le> mx \<Longrightarrow> item_set mn mx item \<subseteq> {mn..mx}"
  by (auto simp: item_set_def split: sum.splits dest!: item_range_bounds)

lemma field_set_range: "mn \<le> mx \<Longrightarrow> field_set mn mx part \<subseteq> {mn..mx}"
  using item_set_range by (fastforce simp: field_set_def)

lemma parseField_denotes:
  assumes ok: "parseField part mn mx = Inr (m, w)" and b: "0 \<le> mn" "mn \<le> mx" "mx \<le> 59"
    and small: "steps_fit part"
  shows "mask_bit m v mn \<longleftrightarrow> v \<in> field_set mn mx part"
proof -
  have "bit m i \<longleftrightarrow> int i + mn \<in> field_set mn mx part" for i
    using parse_items_bits[of mn mx "go_split (CHR '','') part" 0 m i] ok b small
    by (auto simp: parseField_def steps_fit_def field_set_def split: sum.splits)
  moreover have "v \<in> field_set mn mx part \<Longrightarrow> mn \<le> v \<and> v - mn < 64"
    using field_set_range[OF b(2), of part] b by auto
  ultimately show ?thesis
    by (auto simp: mask_bit_iff)
qed

lemma parse_fields_five:
  assumes "parse_fields (zip parts fieldBounds) = Inr fs" "length parts = length fieldBounds"
  shows "\<exists>f0 f1 f2 f3 f4. fs = [f0, f1, f2, f3, f4] \<and>
    parseField (parts ! 0) 0 59 = Inr f0 \<and> parseField (parts ! 1) 0 23 = Inr f1 \<and>
    parseField (parts ! 2) 1 31 = Inr f2 \<and> parseField (parts ! 3) 1 12 = Inr f3 \<and>
    parseField (parts ! 4) 0 6 = Inr f4"
proof -
  obtain p0 p1 p2 p3 p4 where "parts = [p0, p1, p2, p3, p4]"
    using assms(2) by (auto simp: fieldBounds_def numeral_eq_Suc length_Suc_conv)
  with assms(1) show ?thesis
    by (auto simp: fieldBounds_def split: sum.splits)
qed

lemma parseField_wildcard: "parseField part mn mx = Inr (m, w) \<Longrightarrow> w \<longleftrightarrow> part = ''*''"
  by (auto simp: parseField_def split: sum.splits)

lemma New_matches:
  assumes new: "New load_location plan sp = Inr c" and fit: "list_all steps_fit (go_fields (Cron sp))"
  shows "matches c s \<longleftrightarrow> cron_holds (go_fields (Cron sp)) s"
proof -
  let ?ps = "go_fields (Cron sp)"
  from new obtain fs where fs: "parse_fields (zip ?ps fieldBounds) = Inr fs"
    and len: "length ?ps = length fieldBounds"
    and c: "field_masks c = map fst fs" "domRestricted c = (\<not> snd (fs ! 2))"
      "dowRestricted c = (\<not> snd (fs ! 4))"
    by (auto simp: New_def split: option.splits sum.splits if_splits)
  from parse_fields_five[OF fs len] obtain m0 w0 m1 w1 m2 w2 m3 w3 m4 w4
    where fs': "fs = [(m0, w0), (m1, w1), (m2, w2), (m3, w3), (m4, w4)]"
    and p: "parseField (?ps ! 0) 0 59 = Inr (m0, w0)" "parseField (?ps ! 1) 0 23 = Inr (m1, w1)"
      "parseField (?ps ! 2) 1 31 = Inr (m2, w2)" "parseField (?ps ! 3) 1 12 = Inr (m3, w3)"
      "parseField (?ps ! 4) 0 6 = Inr (m4, w4)"
    by auto
  have "steps_fit (?ps ! i)" if "i < 5" for i
    using fit len that by (auto simp: list_all_length fieldBounds_def)
  then have fits: "steps_fit (?ps ! 0)" "steps_fit (?ps ! 1)" "steps_fit (?ps ! 2)" "steps_fit (?ps ! 3)"
      "steps_fit (?ps ! 4)"
    by auto
  note d = parseField_denotes[OF p(1) _ _ _ fits(1), simplified]
    parseField_denotes[OF p(2) _ _ _ fits(2), simplified]
    parseField_denotes[OF p(3) _ _ _ fits(3), simplified]
    parseField_denotes[OF p(4) _ _ _ fits(4), simplified]
    parseField_denotes[OF p(5) _ _ _ fits(5), simplified]
  show ?thesis
    using parseField_wildcard[OF p(3)] parseField_wildcard[OF p(5)]
    by (auto simp add: matches_def cron_holds_def c fs' d Let_def)
qed

section \<open>The search\<close>

lemma search_Some:
  "search c start i = Some u \<Longrightarrow>
     \<exists>k. i \<le> k \<and> k < maxMinutesAhead \<and> u = start + k * minute \<and>
       matches c (local_seconds (loc c) u) \<and>
       (\<forall>j. i \<le> j \<and> j < k \<longrightarrow> \<not> matches c (local_seconds (loc c) (start + j * minute)))"
proof (induction c start i rule: search.induct)
  case (1 c start i)
  show ?case
  proof (cases "matches c (local_seconds (loc c) (start + i * minute))")
    case True
    with "1.prems" show ?thesis
      by (intro exI[of _ i]) (auto simp: search.simps[of c start i] split: if_splits)
  next
    case False
    with "1.prems" have lt: "i < maxMinutesAhead" and rec: "search c start (i + 1) = Some u"
      by (auto simp: search.simps[of c start i] split: if_splits)
    from "1.IH"[OF lt False rec] obtain k where k: "i + 1 \<le> k" "k < maxMinutesAhead"
      "u = start + k * minute" "matches c (local_seconds (loc c) u)"
      "\<And>j. i + 1 \<le> j \<Longrightarrow> j < k \<Longrightarrow> \<not> matches c (local_seconds (loc c) (start + j * minute))"
      by blast
    have "\<not> matches c (local_seconds (loc c) (start + j * minute))" if "i \<le> j" "j < k" for j
      using that False k(5)[of j] by (cases "j = i") auto
    with k show ?thesis by (intro exI[of _ k]) auto
  qed
qed

lemma search_None:
  "search c start i = None \<Longrightarrow> i \<le> j \<Longrightarrow> j < maxMinutesAhead \<Longrightarrow>
     \<not> matches c (local_seconds (loc c) (start + j * minute))"
proof (induction c start i rule: search.induct)
  case (1 c start i)
  then show ?case
    by (cases "j = i") (auto simp: search.simps[of c start i] split: if_splits)
qed

lemma truncate_minute:
  "time_truncate t minute mod minute = 0" "time_truncate t minute \<le> t" "t < time_truncate t minute + minute"
  by (auto simp: time_truncate_def minute_def second_def)

lemma later_minute:
  assumes "t < w" "w mod minute = 0"
  shows "\<exists>j\<ge>0. w = time_truncate t minute + minute + j * minute"
proof -
  have d: "60000000000 dvd w" "60000000000 dvd time_truncate t minute"
    using assms truncate_minute(1)[of t] by (auto simp: minute_def)
  then obtain a b where ab: "w = 60000000000 * a" "time_truncate t minute = 60000000000 * b"
    by (auto elim!: dvdE)
  then have "b < a"
    using truncate_minute(2)[of t] assms(1) by linarith
  with ab show ?thesis
    by (intro exI[of _ "a - b - 1"]) (auto simp: minute_def algebra_simps)
qed

lemma StableJitter_range:
  "0 \<le> n \<Longrightarrow> n \<le> 3600 \<Longrightarrow> 0 \<le> StableJitter sha256 plan t n \<and> StableJitter sha256 plan t n \<le> n * second"
proof -
  assume n: "0 \<le> n" "n \<le> 3600"
  let ?r = "int (be_uint64 (sha256 (slot_key plan t)) mod nat (n + 1))"
  have "?r \<le> n"
    using n pos_mod_bound[of "n + 1"] by (auto simp: zmod_int)
  with n show ?thesis
    by (auto simp: StableJitter_def seconds_small second_def)
qed

lemma New_jitter: "New load_location plan sp = Inr c \<Longrightarrow>
    sched_spec c = sp \<and> planID c = plan \<and> 0 \<le> JitterSeconds sp \<and> JitterSeconds sp \<le> 3600"
  by (auto simp: New_def split: option.splits sum.splits if_splits)

lemma NextScheduled_Some:
  assumes "NextScheduled c t = Some u"
  shows "t < u \<and> u mod minute = 0 \<and> matches c (local_seconds (loc c) u) \<and>
    (\<forall>w. t < w \<and> w < u \<and> w mod minute = 0 \<longrightarrow> \<not> matches c (local_seconds (loc c) w))"
proof -
  let ?s = "time_truncate t minute + minute"
  obtain k where k: "0 \<le> k" "u = ?s + k * minute" "matches c (local_seconds (loc c) u)"
    "\<And>j. 0 \<le> j \<Longrightarrow> j < k \<Longrightarrow> \<not> matches c (local_seconds (loc c) (?s + j * minute))"
    using search_Some[of c ?s 0 u] assms unfolding NextScheduled_def by blast
  have "\<not> matches c (local_seconds (loc c) w)" if w: "t < w" "w < u" "w mod minute = 0" for w
    using later_minute[OF w(1,3)] k(2) w(2) k(4) by (force simp: minute_def)
  with k truncate_minute[of t] show ?thesis
    by (auto simp: minute_def)
qed

lemma NextScheduled_None:
  assumes "NextScheduled c t = None" and w: "t < w" "w \<le> t + maxMinutesAhead * minute" "w mod minute = 0"
  shows "\<not> matches c (local_seconds (loc c) w)"
proof -
  obtain j where j: "0 \<le> j" "w = time_truncate t minute + minute + j * minute"
    using later_minute[OF w(1,3)] by blast
  moreover have "j < maxMinutesAhead"
    using w(2) j truncate_minute[of t] by (auto simp: minute_def maxMinutesAhead_def)
  ultimately show ?thesis
    using search_None[of c "time_truncate t minute + minute" 0 j] assms(1) by (simp add: NextScheduled_def)
qed

lemma demo_fields: "go_fields (Cron demo_spec) = [''2'', ''0'', ''*'', ''*'', ''*'']"
  by code_simp

lemma demo_masks: "parse_fields (zip [''2'', ''0'', ''*'', ''*'', ''*''] fieldBounds) =
    Inr [(4, False), (1, False), (2147483647, True), (4095, True), (127, True)]"
  by code_simp

lemma demo_New: "New demo_locations 7 demo_spec = Inr demo_clock"
proof -
  have "Timezone demo_spec = ''UTC''" "JitterSeconds demo_spec = 60" "MisfireGraceSeconds demo_spec = 300"
    by (simp_all add: demo_spec_def)
  moreover have "length fieldBounds = 5"
    by (simp add: fieldBounds_def)
  ultimately show ?thesis
    by (simp add: New_def demo_fields demo_masks demo_locations_def demo_clock_def)
qed

lemma demo_loc: "loc demo_clock = (\<lambda>_. 0)"
  by (simp add: demo_clock_def)

lemma demo_steps: "list_all steps_fit (go_fields (Cron demo_spec))"
  by code_simp

lemma demo_next: "NextScheduled demo_clock 0 = Some 120000000000"
  by code_simp

section \<open>Properties\<close>

text \<open>C24: Building a scheduler always ends: whatever the cron text, the loop of \<open>parseField\<close> that fills
  a mask leaves within its bound, even when its counter overflows.\<close>

theorem new_terminates: "New load_location plan sp \<noteq> Inl LoopDiverges"
  using parse_fields_ends[OF zip_bounds_ok]
  by (auto simp: New_def split: option.splits sum.splits if_splits)

text \<open>C8: The next scheduled time of a plan is the earliest whole minute after \<open>t\<close> at which its cron
  expression holds in its time zone, with the day-of-month and day-of-week fields joined by \<open>or\<close> when both are
  restricted; and when there is none, no minute of the following 366 days satisfies the expression. This is for an
  expression none of whose steps is within 59 of the largest \<open>int\<close>: adding a larger one to a value of the field may overflow.\<close>

theorem next_scheduled_earliest:
  assumes "New load_location plan sp = Inr c" and "list_all steps_fit (go_fields (Cron sp))"
  shows "case NextScheduled c t of
      Some u \<Rightarrow> t < u \<and> u mod minute = 0 \<and>
        cron_holds (go_fields (Cron sp)) (local_seconds (loc c) u) \<and>
        (\<forall>w. t < w \<and> w < u \<and> w mod minute = 0 \<longrightarrow>
          \<not> cron_holds (go_fields (Cron sp)) (local_seconds (loc c) w))
    | None \<Rightarrow> \<forall>w. t < w \<and> w \<le> t + 366 * 24 * hour \<and> w mod minute = 0 \<longrightarrow>
          \<not> cron_holds (go_fields (Cron sp)) (local_seconds (loc c) w)"
proof (cases "NextScheduled c t")
  case None
  have "366 * 24 * hour = maxMinutesAhead * minute"
    by (simp add: hour_def minute_def maxMinutesAhead_def)
  with None show ?thesis
    using NextScheduled_None[of c t] New_matches[OF assms] by auto
next
  case (Some u)
  then show ?thesis
    using NextScheduled_Some[of c t u] New_matches[OF assms] by auto
qed

theorem next_scheduled_earliest_witness:
  "NextScheduled demo_clock 0 = Some 120000000000 \<and>
   cron_holds [''2'', ''0'', ''*'', ''*'', ''*''] 120 \<and>
   \<not> cron_holds [''2'', ''0'', ''*'', ''*'', ''*''] 60"
  using next_scheduled_earliest[OF demo_New demo_steps, of 0]
  by (auto simp: demo_next demo_fields local_seconds_def demo_loc minute_def dest: spec[of _ 60000000000])

text \<open>C9: A run time lies between its scheduled minute and \<open>JitterSeconds\<close> after it, so always after \<open>t\<close>.\<close>

theorem next_run_window:
  assumes "New load_location plan sp = Inr c" and "NextRun sha256 c t = Some r"
  shows "\<exists>u. NextScheduled c t = Some u \<and> t < u \<and> u \<le> r \<and> r \<le> u + JitterSeconds sp * second"
proof -
  from assms(2) obtain u where u: "NextScheduled c t = Some u"
    and r: "r = u + StableJitter sha256 (planID c) u (JitterSeconds (sched_spec c))"
    by (auto simp: NextRun_def split: option.splits)
  show ?thesis
    using New_jitter[OF assms(1)] StableJitter_range[of "JitterSeconds sp" sha256 plan u]
      NextScheduled_Some[OF u] u r by auto
qed

theorem next_run_window_witness:
  "NextRun (\<lambda>_. replicate 7 0 @ 15 # replicate 24 1) demo_clock 0 = Some 135000000000 \<and>
   (\<exists>u. NextScheduled demo_clock 0 = Some u \<and> 0 < u \<and> u \<le> 135000000000 \<and>
      135000000000 \<le> u + JitterSeconds demo_spec * second)"
proof -
  have "NextRun (\<lambda>_. replicate 7 0 @ 15 # replicate 24 1) demo_clock 0 = Some 135000000000"
    by code_simp
  then show ?thesis
    using next_run_window[OF demo_New] by blast
qed

text \<open>C25: A step close to the largest \<open>int\<close> overflows the loop counter. For any of the five fields, when it is one
  value \<open>v\<close> with a step such that \<open>v + step\<close> exceeds the largest \<open>int\<close>, the field is accepted; cron reads it as
  \<open>v\<close> alone, but the code selects exactly the values of the field \<open>v\<close>, \<open>v - 2 * (2 ^ 63 - step)\<close>,
  \<open>v - 4 * (2 ^ 63 - step)\<close> and so on: for the minute field \<open>5/9223372036854775807\<close> also minutes 3 and 1.\<close>

theorem huge_step_selects_other_minutes:
  assumes "(mn, mx) \<in> set fieldBounds" and "go_split (CHR '','') part = [part]"
    and "item_step part = Inr (base, step)" and "item_range mn mx base = Inr (v, v)" and "max_int64 < v + step"
  shows "\<exists>m. parseField part mn mx = Inr (m, False) \<and> field_set mn mx part = {v} \<and>
     (\<forall>w. mask_bit m w mn \<longleftrightarrow> mn \<le> w \<and> w \<le> v \<and> 2 * (2 ^ 63 - step) dvd v - w)"
proof -
  define k where "k = 9223372036854775808 - step"
  have b: "0 \<le> mn" "mn \<le> 1" "mn < mx" "mx \<le> 59"
    using assms(1) by (auto simp: fieldBounds_def)
  have v: "mn \<le> v" "v \<le> mx"
    using item_range_bounds[OF assms(4)] b by auto
  have k: "1 \<le> k" "k \<le> 59" "step = 9223372036854775808 - k"
    using item_step_range[OF assms(3)] assms(5) v b by (auto simp: k_def max_int64_def)
  have fuel: "nat (v + 62) \<le> fill_fuel"
    using v b by (simp add: fill_fuel_def)
  from fill_loop_overflow[OF k(1,2) b(1,2) order.refl _ _ fuel, of 0] v b obtain m
    where m: "fill_loop fill_fuel mn v step v 0 = Some m"
      and bits: "\<And>i. bit m i \<longleftrightarrow> int i + mn \<le> v \<and> 2 * k dvd v - (int i + mn)"
    by (auto simp: k(3))
  have "step \<noteq> 1"
    using assms(5) v b by (auto simp: max_int64_def)
  then have ne: "part \<noteq> ''''" "part \<noteq> ''*''"
    using assms(3) by (auto simp: item_step_def)
  have "parseField part mn mx = Inr (m, False)"
    using assms(2-4) m ne by (simp add: parseField_def parse_item_def)
  moreover have "field_set mn mx part = {v}"
    using assms(2-4) by (auto simp: field_set_def item_set_def)
  moreover have "mask_bit m w mn \<longleftrightarrow> mn \<le> w \<and> w \<le> v \<and> 2 * (2 ^ 63 - step) dvd v - w" for w
    using v b by (auto simp: mask_bit_iff bits k(3))
  ultimately show ?thesis by blast
qed

theorem huge_step_selects_other_minutes_witness:
  "\<exists>m. parseField ''5/9223372036854775807'' 0 59 = Inr (m, False) \<and> field_set 0 59 ''5/9223372036854775807'' = {5} \<and>
     mask_bit m 5 0 \<and> mask_bit m 3 0 \<and> mask_bit m 1 0"
proof -
  have "go_split (CHR '','') ''5/9223372036854775807'' = [''5/9223372036854775807'']"
    "item_step ''5/9223372036854775807'' = Inr (''5'', 9223372036854775807)" "item_range 0 59 ''5'' = Inr (5, 5)"
    by code_simp+
  from huge_step_selects_other_minutes[OF _ this] show ?thesis
    by (force simp: fieldBounds_def max_int64_def)
qed

end
