(* ===== verification/Domain.thy ===== *)
theory Domain
  imports Schedule
begin

text \<open>
  The shared vocabulary of the control plane and the Agent (\<open>internal/domain\<close>): operation states and
  transitions, the retry policy of a backup, validation of template bodies, plan schedules and
  desired states, and the canonical JSON text a desired state is hashed over.
  A slice that reaches \<open>json.Marshal\<close> is an optional list, \<open>None\<close> for the nil slice.
\<close>

section \<open>Operations\<close>

definition OperationTerminal :: "string \<Rightarrow> bool" where
  "OperationTerminal status \<longleftrightarrow>
     status \<in> {''SUCCEEDED'', ''SUCCEEDED_WITH_WARNINGS'', ''FAILED'', ''CANCELED'', ''TIMED_OUT'', ''LOST'', ''REJECTED''}"

definition ValidOperationID :: "uuid \<Rightarrow> bool" where
  "ValidOperationID i \<longleftrightarrow> (uuid_version i = 7 \<or> uuid_version i = 5) \<and> uuid_rfc4122 i"

text \<open>True for \<open>nil\<close>, false for \<open>ErrOperationTransition\<close>.\<close>

definition ValidateOperationTransition :: "string \<Rightarrow> string \<Rightarrow> bool" where
  "ValidateOperationTransition src dst =
     (if src = ''QUEUED'' then dst = ''DISPATCHED'' \<or> dst = ''REJECTED'' \<or> dst = ''CANCELED''
      else if src = ''DISPATCHED'' then dst = ''ACKNOWLEDGED'' \<or> dst = ''LOST'' \<or> dst = ''FAILED''
      else if src = ''ACKNOWLEDGED'' then dst = ''RUNNING''
      else if src = ''RUNNING'' then dst = ''SUCCEEDED'' \<or> dst = ''SUCCEEDED_WITH_WARNINGS'' \<or> dst = ''FAILED''
        \<or> dst = ''CANCEL_REQUESTED'' \<or> dst = ''TIMED_OUT'' \<or> dst = ''LOST''
      else if src = ''CANCEL_REQUESTED'' then dst = ''CANCELED'' \<or> dst = ''LOST''
      else False)"

definition ValidCredentialTestCode :: "string \<Rightarrow> bool" where
  "ValidCredentialTestCode code \<longleftrightarrow>
     code \<in> {'''', ''CONNECTION_FAILED'', ''TEST_TIMED_OUT'', ''CONFIG_UNSAFE'', ''REFRESH_FAILED'',
       ''CREDENTIAL_CHANGED'', ''CREDENTIAL_DISABLED'', ''SECRET_UNAVAILABLE'', ''WORKER_LOST''}"

section \<open>Backup execution\<close>

definition RetryableBackupError :: "string \<Rightarrow> bool" where
  "RetryableBackupError code \<longleftrightarrow> code = ''REPOSITORY_LOCKED'' \<or> code = ''GATEWAY_BUSY''
     \<or> code = ''GATEWAY_UNAVAILABLE'' \<or> code = ''GATEWAY_RATE_LIMITED''"

record retry_policy =
  InitialBackoffSeconds :: int
  MaxAttempts :: int
  MaxBackoffSeconds :: int

record resource_limits =
  LimitDownloadKiB :: int
  LimitUploadKiB :: int
  MaxDurationSeconds :: int
  ReadConcurrency :: int

record backup_execution =
  RetryPolicy :: "retry_policy option"
  ResourceLimits :: "resource_limits option"
  PreHookIDs :: "uuid list"
  PostHookIDs :: "uuid list"

definition Attempts :: "retry_policy \<Rightarrow> int" where
  "Attempts p = (if MaxAttempts p = 0 then 1 else MaxAttempts p)"

text \<open>\<open>for i := 1; i < attempt && initial < maximum; i++ { initial *= 2 }\<close>, from \<open>i\<close> on.\<close>

function backoff_loop :: "int \<Rightarrow> int \<Rightarrow> int \<Rightarrow> int \<Rightarrow> int" where
  "backoff_loop i attempt initial maximum =
     (if i < attempt \<and> initial < maximum
      then backoff_loop (i + 1) attempt (wrap64 (initial * 2)) maximum
      else initial)"
  by pat_completeness auto
termination
  by (relation "measure (\<lambda>(i, attempt, initial, maximum). nat (attempt - i))") auto

declare backoff_loop.simps [simp del]

definition initial_backoff :: "retry_policy \<Rightarrow> int" where
  "initial_backoff p = (if InitialBackoffSeconds p = 0 then 60 else InitialBackoffSeconds p)"

definition max_backoff :: "retry_policy \<Rightarrow> int" where
  "max_backoff p = (if MaxBackoffSeconds p = 0 then 1800 else MaxBackoffSeconds p)"

definition Backoff :: "retry_policy \<Rightarrow> int \<Rightarrow> int" where
  "Backoff p attempt =
     (let initial = backoff_loop 1 attempt (initial_backoff p) (max_backoff p)
      in if initial > max_backoff p then max_backoff p else initial)"

datatype template_error = TemplateError (te_Field: string) (te_Code: string)

fun duplicate_seen :: "uuid list \<Rightarrow> uuid list \<Rightarrow> bool" where
  "duplicate_seen seen [] = False"
| "duplicate_seen seen (v # vs) = (if v \<in> set seen then True else duplicate_seen (v # seen) vs)"

definition duplicateUUID :: "uuid list \<Rightarrow> bool" where
  "duplicateUUID vs = duplicate_seen [] vs"

definition retry_policy_error :: "retry_policy \<Rightarrow> template_error option" where
  "retry_policy_error p =
     (if MaxAttempts p < 0 \<or> MaxAttempts p > 10 \<or> InitialBackoffSeconds p < 0 \<or> InitialBackoffSeconds p > 86400
         \<or> MaxBackoffSeconds p < 0 \<or> MaxBackoffSeconds p > 86400
      then Some (TemplateError ''retry_policy'' ''OUT_OF_RANGE'')
      else if initial_backoff p > max_backoff p then Some (TemplateError ''retry_policy'' ''INVALID_BACKOFF'')
      else None)"

definition resource_limits_error :: "resource_limits \<Rightarrow> template_error option" where
  "resource_limits_error p =
     (if LimitDownloadKiB p < 0 \<or> LimitDownloadKiB p > 1073741824 \<or> LimitUploadKiB p < 0 \<or> LimitUploadKiB p > 1073741824
         \<or> ReadConcurrency p < 0 \<or> ReadConcurrency p > 64 \<or> MaxDurationSeconds p < 0 \<or> MaxDurationSeconds p > 86400
      then Some (TemplateError ''resource_limits'' ''OUT_OF_RANGE'') else None)"

fun hook_ids_error :: "uuid list list \<Rightarrow> template_error option" where
  "hook_ids_error [] = None"
| "hook_ids_error (ids # rest) =
     (if length ids > 16 \<or> duplicateUUID ids \<or> \<not> list_all uuid_v7 ids
      then Some (TemplateError ''hook_ids'' ''INVALID'') else hook_ids_error rest)"

text \<open>\<open>(*BackupExecution).Validate\<close>; a nil receiver is valid.\<close>

definition execution_Validate :: "backup_execution option \<Rightarrow> template_error option" where
  "execution_Validate c =
     (case c of
        None \<Rightarrow> None
      | Some c \<Rightarrow>
          (case (case RetryPolicy c of None \<Rightarrow> None | Some p \<Rightarrow> retry_policy_error p) of
             Some e \<Rightarrow> Some e
           | None \<Rightarrow>
               (case (case ResourceLimits c of None \<Rightarrow> None | Some p \<Rightarrow> resource_limits_error p) of
                  Some e \<Rightarrow> Some e
                | None \<Rightarrow> hook_ids_error [PreHookIDs c, PostHookIDs c])))"

section \<open>Templates\<close>

text \<open>The path check of \<open>ValidateBackupPaths\<close>, negated.\<close>

definition valid_path :: "string \<Rightarrow> bool" where
  "valid_path path \<longleftrightarrow> \<not> blank path \<and> length path \<le> 4096 \<and> is_abs path \<and> path_clean path = path
     \<and> \<not> has_control path"

fun first_invalid :: "('a \<Rightarrow> bool) \<Rightarrow> nat \<Rightarrow> 'a list \<Rightarrow> nat option" where
  "first_invalid ok i [] = None"
| "first_invalid ok i (x # xs) = (if ok x then first_invalid ok (Suc i) xs else Some i)"

definition ValidateBackupPaths :: "string list \<Rightarrow> string list \<Rightarrow> template_error option" where
  "ValidateBackupPaths paths excludes =
     (if paths = [] then Some (TemplateError ''paths'' ''REQUIRED'')
      else case first_invalid valid_path 0 paths of
        Some i \<Rightarrow> Some (TemplateError (''paths.'' @ nat_digits i) ''INVALID'')
      | None \<Rightarrow>
          (case first_invalid (\<lambda>pattern. length pattern \<le> 4096 \<and> \<not> has_control pattern) 0 excludes of
             Some i \<Rightarrow> Some (TemplateError (''exclude_patterns.'' @ nat_digits i) ''INVALID'')
           | None \<Rightarrow> None))"

definition validateTimezone :: "(string \<Rightarrow> location option) \<Rightarrow> string \<Rightarrow> bool" where
  "validateTimezone load_location name =
     (if name = '''' \<or> name = ''Local'' then False else load_location name \<noteq> None)"

definition cronFields :: "(int \<times> int) list" where
  "cronFields = [(0, 59), (0, 23), (1, 31), (1, 12), (0, 6)]"

text \<open>One list item of \<open>validateCronField\<close>.\<close>

definition cron_item_step :: "string \<Rightarrow> (string \<times> int) option" where
  "cron_item_step part =
     (case go_cut (CHR ''/'') part of
        None \<Rightarrow> Some (part, 1)
      | Some (base, rawStep) \<Rightarrow>
          (case atoi rawStep of
             None \<Rightarrow> None
           | Some parsed \<Rightarrow> if parsed < 1 then None else Some (base, parsed)))"

definition valid_cron_range :: "int \<Rightarrow> int \<Rightarrow> string \<Rightarrow> int \<Rightarrow> bool" where
  "valid_cron_range mn mx base step =
     (if base = ''*'' then True
      else case go_cut (CHR ''-'') base of
        Some (low, high) \<Rightarrow>
          (case atoi low of
             None \<Rightarrow> False
           | Some lo \<Rightarrow>
               (case atoi high of
                  None \<Rightarrow> False
                | Some hi \<Rightarrow>
                    if lo < mn \<or> hi > mx \<or> lo > hi then False
                    else \<not> step > hi - lo + 1))
      | None \<Rightarrow>
          (case atoi base of
             None \<Rightarrow> False
           | Some v \<Rightarrow> \<not> (v < mn \<or> v > mx)))"

definition valid_cron_item :: "int \<Rightarrow> int \<Rightarrow> string \<Rightarrow> bool" where
  "valid_cron_item mn mx part =
     (if part = [] then False
      else case cron_item_step part of
        None \<Rightarrow> False
      | Some (base, step) \<Rightarrow> valid_cron_range mn mx base step)"

definition validateCronField :: "string \<Rightarrow> int \<Rightarrow> int \<Rightarrow> bool" where
  "validateCronField field mn mx = list_all (valid_cron_item mn mx) (go_split (CHR '','') field)"

definition validateCron :: "string \<Rightarrow> bool" where
  "validateCron expr =
     (let parts = go_fields expr
      in if length parts \<noteq> length cronFields then False
         else list_all (\<lambda>(field, mn, mx). validateCronField field mn mx) (zip parts cronFields))"

record template_config =
  tc_Paths :: "string list"
  tc_ExcludePatterns :: "string list"
  tc_ExcludeCaches :: bool
  tc_OneFileSystem :: bool
  tc_ScheduleCron :: string
  tc_ScheduleTimezone :: string
  tc_JitterSeconds :: int
  tc_MisfireGraceSeconds :: int
  tc_RetryPolicy :: "retry_policy option"
  tc_RetentionPolicyID :: "uuid option"
  tc_PreHookIDs :: "uuid list"
  tc_PostHookIDs :: "uuid list"
  tc_ResourceLimits :: "resource_limits option"
  tc_EnabledByDefault :: bool

definition template_execution :: "template_config \<Rightarrow> backup_execution option" where
  "template_execution c =
     (if tc_RetryPolicy c = None \<and> tc_ResourceLimits c = None \<and> tc_PreHookIDs c = [] \<and> tc_PostHookIDs c = [] then None
      else Some \<lparr>RetryPolicy = tc_RetryPolicy c, ResourceLimits = tc_ResourceLimits c,
        PreHookIDs = tc_PreHookIDs c, PostHookIDs = tc_PostHookIDs c\<rparr>)"

definition template_Validate :: "(string \<Rightarrow> location option) \<Rightarrow> template_config \<Rightarrow> template_error option" where
  "template_Validate load_location c =
     (case ValidateBackupPaths (tc_Paths c) (tc_ExcludePatterns c) of
        Some e \<Rightarrow> Some e
      | None \<Rightarrow>
          if \<not> validateCron (tc_ScheduleCron c) then Some (TemplateError ''schedule_cron'' ''INVALID'')
          else if \<not> validateTimezone load_location (tc_ScheduleTimezone c)
          then Some (TemplateError ''schedule_timezone'' ''INVALID'')
          else if tc_JitterSeconds c < 0 \<or> tc_JitterSeconds c > 3600
          then Some (TemplateError ''jitter_seconds'' ''OUT_OF_RANGE'')
          else if tc_MisfireGraceSeconds c < 0 \<or> tc_MisfireGraceSeconds c > 86400
          then Some (TemplateError ''misfire_grace_seconds'' ''OUT_OF_RANGE'')
          else if duplicateUUID (tc_PreHookIDs c) \<or> duplicateUUID (tc_PostHookIDs c)
          then Some (TemplateError ''hook_ids'' ''DUPLICATE'')
          else if tc_RetentionPolicyID c = Some uuid_nil
          then Some (TemplateError ''retention_policy_id'' ''INVALID'')
          else execution_Validate (template_execution c))"

section \<open>Runs of an operation\<close>

text \<open>A history of statuses each of which the code lets follow the one before.\<close>

fun valid_chain :: "string list \<Rightarrow> bool" where
  "valid_chain (a # b # ss) = (ValidateOperationTransition a b \<and> valid_chain (b # ss))"
| "valid_chain _ = True"

text \<open>How many steps can follow a status.\<close>

definition status_rank :: "string \<Rightarrow> nat" where
  "status_rank s =
     (if s = ''QUEUED'' then 5 else if s = ''DISPATCHED'' then 4 else if s = ''ACKNOWLEDGED'' then 3
      else if s = ''RUNNING'' then 2 else if s = ''CANCEL_REQUESTED'' then 1 else 0)"

lemma transition_rank: "ValidateOperationTransition a b \<Longrightarrow> status_rank b < status_rank a"
  by (auto simp: ValidateOperationTransition_def status_rank_def split: if_splits)

lemma terminal_no_transition: "OperationTerminal a \<Longrightarrow> \<not> ValidateOperationTransition a b"
  by (auto simp: OperationTerminal_def ValidateOperationTransition_def)

lemma transition_target:
  "ValidateOperationTransition a b \<Longrightarrow>
     OperationTerminal b \<or> b \<in> {''DISPATCHED'', ''ACKNOWLEDGED'', ''RUNNING'', ''CANCEL_REQUESTED''}"
  by (auto simp: OperationTerminal_def ValidateOperationTransition_def split: if_splits)

lemma valid_chain_length: "valid_chain (a # ss) \<Longrightarrow> length ss \<le> status_rank a"
proof (induction ss arbitrary: a)
  case (Cons b ss)
  with transition_rank[of a b] show ?case by fastforce
qed simp

lemma valid_chain_butlast:
  "valid_chain ss \<Longrightarrow> \<forall>s \<in> set (butlast ss). \<not> OperationTerminal s"
  by (induction ss rule: valid_chain.induct) (auto dest: terminal_no_transition)

lemma valid_chain_tl:
  "valid_chain (a # ss) \<Longrightarrow>
     \<forall>s \<in> set ss. OperationTerminal s \<or> s \<in> {''DISPATCHED'', ''ACKNOWLEDGED'', ''RUNNING'', ''CANCEL_REQUESTED''}"
proof (induction ss arbitrary: a)
  case (Cons b ss)
  with transition_target[of a b] show ?case by auto
qed simp

section \<open>The retry backoff\<close>

lemma backoff_loop_min:
  "0 < initial \<Longrightarrow> initial \<le> 4611686018427387903 \<Longrightarrow> maximum \<le> 4611686018427387903 \<Longrightarrow>
     min maximum (backoff_loop i attempt initial maximum) = min maximum (initial * 2 ^ nat (attempt - i))"
proof (induction i attempt initial maximum rule: backoff_loop.induct)
  case (1 i attempt initial maximum)
  show ?case
  proof (cases "i < attempt \<and> initial < maximum")
    case True
    then have w: "wrap64 (initial * 2) = initial * 2"
      using "1.prems" by (intro wrap64_id) (auto simp: min_int64_def max_int64_def)
    have n: "nat (attempt - i) = Suc (nat (attempt - (i + 1)))"
      using True by linarith
    show ?thesis
    proof (cases "initial * 2 \<le> 4611686018427387903")
      case small: True
      with True w n "1.IH" "1.prems" show ?thesis
        by (simp add: backoff_loop.simps[of i] mult.assoc)
    next
      case False
      with "1.prems" have big: "maximum \<le> initial * 2" by simp
      have "initial * 2 * 1 \<le> initial * 2 * 2 ^ nat (attempt - (i + 1))"
        using "1.prems" by (intro mult_left_mono) auto
      with big n have "maximum \<le> initial * 2 ^ nat (attempt - i)"
        by (simp add: mult.assoc)
      with big True w show ?thesis
        by (simp add: backoff_loop.simps[of i] backoff_loop.simps[of "i + 1"])
    qed
  next
    case False
    have le: "initial * 1 \<le> initial * 2 ^ nat (attempt - i)"
      using "1.prems" by (intro mult_left_mono) auto
    from False consider "attempt \<le> i" | "maximum \<le> initial" by linarith
    then show ?thesis
    proof cases
      case 1
      then show ?thesis using False by (simp add: backoff_loop.simps[of i])
    next
      case 2
      with le False show ?thesis by (simp add: backoff_loop.simps[of i])
    qed
  qed
qed

section \<open>Accepted backup paths\<close>

lemma go_split_no_sep: "w \<in> set (go_split sep s) \<Longrightarrow> sep \<notin> set w"
  by (induction s arbitrary: w) (auto split: if_splits list.splits)

lemma go_split_word: "sep \<notin> set w \<Longrightarrow> go_split sep w = [w]"
  by (induction w) auto

lemma go_split_append: "sep \<notin> set w \<Longrightarrow> go_split sep (w @ sep # s) = w # go_split sep s"
  by (induction w) auto

lemma go_split_join:
  "ws \<noteq> [] \<Longrightarrow> \<forall>w \<in> set ws. CHR ''/'' \<notin> set w \<Longrightarrow> go_split (CHR ''/'') (join_path ws) = ws"
  by (induction ws rule: join_path.induct) (auto simp: go_split_word go_split_append)

definition plain_element :: "string \<Rightarrow> bool" where
  "plain_element w \<longleftrightarrow> w \<noteq> '''' \<and> w \<noteq> ''.'' \<and> w \<noteq> ''..'' \<and> CHR ''/'' \<notin> set w"

lemma clean_rooted_plain:
  assumes "\<forall>w \<in> set ws. CHR ''/'' \<notin> set w" "\<forall>w \<in> set out. plain_element w"
  shows "\<forall>w \<in> set (foldl (clean_step True) out ws). plain_element w"
  using assms
proof (induction ws arbitrary: out)
  case (Cons w ws)
  have "\<forall>x \<in> set (clean_step True out w). plain_element x"
    using Cons.prems by (auto simp: plain_element_def dest: in_set_butlastD)
  with Cons show ?case by simp
qed simp

lemma path_clean_plain:
  assumes "is_abs p" "path_clean p = p"
  shows "p = ''/'' \<or> (\<forall>w \<in> set (tl (go_split (CHR ''/'') p)). plain_element w)"
proof -
  define out where "out = foldl (clean_step True) [] (go_split (CHR ''/'') p)"
  have plain: "\<forall>w \<in> set out. plain_element w"
    unfolding out_def by (rule clean_rooted_plain) (auto dest: go_split_no_sep)
  have p: "p = CHR ''/'' # join_path out"
    using assms by (auto simp: path_clean_def out_def Let_def)
  show ?thesis
  proof (cases "out = []")
    case True
    with p show ?thesis by simp
  next
    case False
    then have "go_split (CHR ''/'') (join_path out) = out"
      using plain by (intro go_split_join) (auto simp: plain_element_def)
    with p plain show ?thesis by simp
  qed
qed

lemma first_invalid_None: "first_invalid ok i xs = None \<longleftrightarrow> list_all ok xs"
  by (induction xs arbitrary: i) auto

lemma paths_accepted:
  "ValidateBackupPaths paths excludes = None \<longleftrightarrow>
     paths \<noteq> [] \<and> list_all valid_path paths \<and> list_all (\<lambda>x. length x \<le> 4096 \<and> \<not> has_control x) excludes"
  using first_invalid_None[of valid_path 0 paths]
    first_invalid_None[of "\<lambda>x. length x \<le> 4096 \<and> \<not> has_control x" 0 excludes]
  by (auto simp: ValidateBackupPaths_def split: option.splits)

section \<open>Accepted cron expressions\<close>

lemma cron_item_step_eq: "cron_item_step item = Some x \<Longrightarrow> item_step item = Inr x"
  by (auto simp: cron_item_step_def item_step_def split: option.splits if_splits)

lemma valid_cron_range_eq: "valid_cron_range mn mx base step \<Longrightarrow> \<exists>r. item_range mn mx base = Inr r"
  by (auto simp: valid_cron_range_def item_range_def split: option.splits if_splits)

lemma valid_item_parses:
  assumes "valid_cron_item mn mx item" "0 \<le> mn" "mn \<le> mx" "mx \<le> 59"
  shows "\<exists>m. parse_item mn mx item msk = Inr m"
proof -
  from assms(1) obtain base step where "item \<noteq> []" and st: "cron_item_step item = Some (base, step)"
    and "valid_cron_range mn mx base step"
    by (auto simp: valid_cron_item_def split: option.splits if_splits)
  moreover from cron_item_step_eq[OF st] have "item_step item = Inr (base, step)" .
  moreover from calculation(3) obtain low high where "item_range mn mx base = Inr (low, high)"
    using valid_cron_range_eq[of mn mx base step] by auto
  ultimately show ?thesis
    using parse_item_ends[OF assms(2-4), of item msk]
    by (auto simp: parse_item_def split: option.splits)
qed

lemma valid_items_parse: "list_all (valid_cron_item mn mx) its \<Longrightarrow> 0 \<le> mn \<Longrightarrow> mn \<le> mx \<Longrightarrow> mx \<le> 59 \<Longrightarrow>
    \<exists>m. parse_items mn mx its msk = Inr m"
proof (induction its arbitrary: msk)
  case (Cons item its)
  then obtain m where "parse_item mn mx item msk = Inr m"
    using valid_item_parses[of mn mx item msk] by auto
  with Cons show ?case by auto
qed simp

lemma valid_field_parses: "validateCronField part mn mx \<Longrightarrow> 0 \<le> mn \<Longrightarrow> mn \<le> mx \<Longrightarrow> mx \<le> 59 \<Longrightarrow>
    \<exists>f. parseField part mn mx = Inr f"
  using valid_items_parse[of mn mx "go_split (CHR '','') part" 0]
  by (auto simp: validateCronField_def parseField_def)

lemma valid_fields_parse:
  "list_all (\<lambda>(field, mn, mx). validateCronField field mn mx) ps \<Longrightarrow>
     \<forall>(part, mn, mx) \<in> set ps. 0 \<le> mn \<and> mn \<le> mx \<and> mx \<le> 59 \<Longrightarrow> \<exists>fs. parse_fields ps = Inr fs"
proof (induction ps rule: parse_fields.induct)
  case (2 part mn mx rest)
  then obtain f where "parseField part mn mx = Inr f"
    using valid_field_parses[of part mn mx] by auto
  with 2 show ?case by auto
qed simp

lemma cronFields_eq: "cronFields = fieldBounds"
  by (simp add: cronFields_def fieldBounds_def)

lemma validated_clock:
  assumes "validateCron (Cron sp)" "validateTimezone load_location (Timezone sp)"
    and "0 \<le> JitterSeconds sp" "JitterSeconds sp \<le> 3600"
    and "0 \<le> MisfireGraceSeconds sp" "MisfireGraceSeconds sp \<le> 86400"
  shows "\<exists>c. New load_location plan sp = Inr c"
proof -
  from assms(1) have len: "length (go_fields (Cron sp)) = length fieldBounds"
    and ok: "list_all (\<lambda>(field, mn, mx). validateCronField field mn mx) (zip (go_fields (Cron sp)) fieldBounds)"
    by (auto simp: validateCron_def cronFields_eq Let_def split: if_splits)
  from valid_fields_parse[OF ok zip_bounds_ok] obtain fs
    where "parse_fields (zip (go_fields (Cron sp)) fieldBounds) = Inr fs" by blast
  with assms len show ?thesis
    by (auto simp: New_def validateTimezone_def split: if_splits option.splits)
qed

section \<open>Properties\<close>

text \<open>C16: An operation ends: whatever valid transitions follow \<open>QUEUED\<close>, there are at most five of them,
  every status on the way is known, and only the last one can be terminal, so a terminal status is never left.\<close>

theorem operation_runs_end:
  assumes "valid_chain (''QUEUED'' # ss)"
  shows "length ss \<le> 5 \<and> (\<forall>s \<in> set (butlast (''QUEUED'' # ss)). \<not> OperationTerminal s) \<and>
    (\<forall>s \<in> set ss. OperationTerminal s \<or> s \<in> {''DISPATCHED'', ''ACKNOWLEDGED'', ''RUNNING'', ''CANCEL_REQUESTED''})"
  using valid_chain_length[OF assms] valid_chain_butlast[OF assms] valid_chain_tl[OF assms]
  by (simp add: status_rank_def)

theorem operation_runs_end_witness:
  "valid_chain [''QUEUED'', ''DISPATCHED'', ''ACKNOWLEDGED'', ''RUNNING'', ''CANCEL_REQUESTED'', ''CANCELED''] \<and>
   length [''DISPATCHED'', ''ACKNOWLEDGED'', ''RUNNING'', ''CANCEL_REQUESTED'', ''CANCELED''] \<le> 5"
proof -
  have c: "valid_chain [''QUEUED'', ''DISPATCHED'', ''ACKNOWLEDGED'', ''RUNNING'', ''CANCEL_REQUESTED'', ''CANCELED'']"
    by (simp add: ValidateOperationTransition_def)
  from operation_runs_end[OF this] c show ?thesis by blast
qed

text \<open>C17: For every accepted retry policy the delay before retry \<open>attempt\<close> is the initial delay doubled
  \<open>attempt - 1\<close> times and capped by the maximum, without overflow, and lies between one second and a day.\<close>

theorem backoff_doubles_capped:
  assumes "retry_policy_error p = None"
  shows "Backoff p attempt = min (max_backoff p) (initial_backoff p * 2 ^ nat (attempt - 1)) \<and>
    1 \<le> Backoff p attempt \<and> Backoff p attempt \<le> 86400"
proof -
  have b: "1 \<le> initial_backoff p" "initial_backoff p \<le> max_backoff p" "max_backoff p \<le> 86400"
    using assms by (auto simp: retry_policy_error_def initial_backoff_def max_backoff_def split: if_splits)
  have eq: "Backoff p attempt = min (max_backoff p) (initial_backoff p * 2 ^ nat (attempt - 1))"
    using backoff_loop_min[of "initial_backoff p" "max_backoff p" 1 attempt] b
    by (simp add: Backoff_def Let_def min_def split: if_splits)
  have "1 * 1 \<le> initial_backoff p * 2 ^ nat (attempt - 1)"
    using b by (intro mult_mono) auto
  with eq b show ?thesis by auto
qed

theorem backoff_doubles_capped_witness:
  "retry_policy_error \<lparr>InitialBackoffSeconds = 0, MaxAttempts = 5, MaxBackoffSeconds = 0\<rparr> = None \<and>
   Backoff \<lparr>InitialBackoffSeconds = 0, MaxAttempts = 5, MaxBackoffSeconds = 0\<rparr> 3 = 240"
proof -
  have ok: "retry_policy_error \<lparr>InitialBackoffSeconds = 0, MaxAttempts = 5, MaxBackoffSeconds = 0\<rparr> = None"
    by (simp add: retry_policy_error_def initial_backoff_def max_backoff_def)
  from backoff_doubles_capped[OF this, of 3] ok show ?thesis
    by (simp add: initial_backoff_def max_backoff_def)
qed

text \<open>C18: An accepted list of backup paths names only absolute paths without empty, \<open>.\<close> or \<open>..\<close> elements
  and without control characters, each at most 4096 bytes long: no path can climb out of the tree it names.\<close>

theorem accepted_paths_are_canonical:
  assumes "ValidateBackupPaths paths excludes = None"
  shows "paths \<noteq> [] \<and>
    (\<forall>p \<in> set paths. is_abs p \<and> length p \<le> 4096 \<and> \<not> has_control p \<and>
      (p = ''/'' \<or> (\<forall>w \<in> set (tl (go_split (CHR ''/'') p)). plain_element w)))"
  using assms path_clean_plain by (fastforce simp: paths_accepted valid_path_def list_all_iff)

theorem accepted_paths_are_canonical_witness:
  "ValidateBackupPaths [''/srv/data''] [''*.tmp''] = None \<and> is_abs ''/srv/data'' \<and>
   tl (go_split (CHR ''/'') ''/srv/data'') = [''srv'', ''data''] \<and> plain_element ''srv'' \<and> plain_element ''data'' \<and>
   ValidateBackupPaths [''/srv/../etc''] [] \<noteq> None"
proof -
  have "ValidateBackupPaths [''/srv/data''] [''*.tmp''] = None"
    by code_simp
  moreover have "ValidateBackupPaths [''/srv/../etc''] [] \<noteq> None"
    by code_simp
  moreover have "tl (go_split (CHR ''/'') ''/srv/data'') = [''srv'', ''data'']"
    by simp
  ultimately show ?thesis
    using accepted_paths_are_canonical[of "[''/srv/data'']" "[''*.tmp'']"] by simp
qed

end
