(* ===== verification/Desired_State.thy ===== *)
theory Desired_State
  imports Domain
begin

text \<open>
  The desired state of an Agent (\<open>internal/domain/agentstate.go\<close>): the plan schedules it holds,
  their validation, the canonical JSON text the configuration hash is taken of, and the health of
  an Agent. \<open>sha256\<close> and the time zone database are parameters.
\<close>

section \<open>Model\<close>

record plan_schedule =
  ps_PlanID :: uuid
  ps_Revision :: int
  ps_Name :: string
  ps_HostID :: uuid
  ps_RepositoryID :: uuid
  ps_Cron :: string
  ps_Timezone :: string
  ps_JitterSeconds :: int
  ps_MisfireGraceSeconds :: int
  ps_ConcurrencyPolicy :: string
  ps_Paths :: "string list option"
  ps_ExcludePatterns :: "string list option"
  ps_ExcludeCaches :: bool
  ps_OneFileSystem :: bool
  ps_ConfigHash :: string
  ps_Execution :: "backup_execution option"

record runtime_policy =
  MaxParallelIOJobs :: nat
  LogLimitBytes :: nat

record desired_state =
  ds_AgentID :: uuid
  ds_Revision :: int
  ds_GeneratedAt :: time
  ds_ConfigHash :: string
  ds_RuntimePolicy :: runtime_policy
  ds_Plans :: "plan_schedule list"

datatype desired_error = DesiredStateError (de_Code: string) (de_FieldPath: string)

definition DefaultLogLimitBytes :: nat where
  "DefaultLogLimitBytes = 10485760"

text \<open>The elements of a slice; the nil slice has none.\<close>

definition slice :: "'a list option \<Rightarrow> 'a list" where
  "slice s = (case s of None \<Rightarrow> [] | Some xs \<Rightarrow> xs)"

subsection \<open>Canonical JSON\<close>

text \<open>An \<open>omitempty\<close> number, and an \<open>omitempty\<close> list.\<close>

definition json_int_omit :: "int \<Rightarrow> string option" where
  "json_int_omit v = (if v = 0 then None else Some (itoa v))"

definition json_uuids_omit :: "uuid list \<Rightarrow> string option" where
  "json_uuids_omit ids = (if ids = [] then None else Some (json_array (map (\<lambda>i. json_string (uuid_string i)) ids)))"

definition retry_policy_json :: "retry_policy \<Rightarrow> string" where
  "retry_policy_json p = json_object
     [(''initial_backoff_seconds'', json_int_omit (InitialBackoffSeconds p)),
      (''max_attempts'', json_int_omit (MaxAttempts p)),
      (''max_backoff_seconds'', json_int_omit (MaxBackoffSeconds p))]"

definition resource_limits_json :: "resource_limits \<Rightarrow> string" where
  "resource_limits_json p = json_object
     [(''limit_download_kib'', json_int_omit (LimitDownloadKiB p)),
      (''limit_upload_kib'', json_int_omit (LimitUploadKiB p)),
      (''max_duration_seconds'', json_int_omit (MaxDurationSeconds p)),
      (''read_concurrency'', json_int_omit (ReadConcurrency p))]"

definition execution_json :: "backup_execution \<Rightarrow> string" where
  "execution_json c = json_object
     [(''retry_policy'', map_option retry_policy_json (RetryPolicy c)),
      (''resource_limits'', map_option resource_limits_json (ResourceLimits c)),
      (''pre_hook_ids'', json_uuids_omit (PreHookIDs c)),
      (''post_hook_ids'', json_uuids_omit (PostHookIDs c))]"

definition json_strings :: "string list option \<Rightarrow> string" where
  "json_strings s = (case s of None \<Rightarrow> ''null'' | Some xs \<Rightarrow> json_array (map json_string xs))"

definition plan_json :: "plan_schedule \<Rightarrow> string" where
  "plan_json p = json_object
     [(''plan_id'', Some (json_string (uuid_string (ps_PlanID p)))),
      (''revision'', Some (itoa (ps_Revision p))),
      (''name'', Some (json_string (ps_Name p))),
      (''host_id'', Some (json_string (uuid_string (ps_HostID p)))),
      (''repository_id'', Some (json_string (uuid_string (ps_RepositoryID p)))),
      (''cron'', Some (json_string (ps_Cron p))),
      (''timezone'', Some (json_string (ps_Timezone p))),
      (''jitter_seconds'', Some (itoa (ps_JitterSeconds p))),
      (''misfire_grace_seconds'', Some (itoa (ps_MisfireGraceSeconds p))),
      (''concurrency_policy'', Some (json_string (ps_ConcurrencyPolicy p))),
      (''paths'', Some (json_strings (ps_Paths p))),
      (''exclude_patterns'', Some (json_strings (ps_ExcludePatterns p))),
      (''exclude_caches'', Some (json_bool (ps_ExcludeCaches p))),
      (''one_file_system'', Some (json_bool (ps_OneFileSystem p))),
      (''config_hash'', Some (json_string (ps_ConfigHash p))),
      (''execution'', map_option execution_json (ps_Execution p))]"

definition plan_less :: "plan_schedule \<Rightarrow> plan_schedule \<Rightarrow> bool" where
  "plan_less a b =
     (if ps_PlanID a \<noteq> ps_PlanID b then string_less (uuid_string (ps_PlanID a)) (uuid_string (ps_PlanID b))
      else ps_Revision a < ps_Revision b)"

definition runtime_policy_json :: "runtime_policy \<Rightarrow> string" where
  "runtime_policy_json r = json_object
     [(''max_parallel_io_jobs'', Some (itoa (int (MaxParallelIOJobs r)))),
      (''log_limit_bytes'', Some (itoa (int (LogLimitBytes r))))]"

definition CanonicalJSON :: "desired_state \<Rightarrow> string" where
  "CanonicalJSON s = json_object
     [(''plans'', Some (json_array (map plan_json (sort_slice plan_less (ds_Plans s))))),
      (''repositories'', Some (json_array [])),
      (''runtime_policy'', Some (runtime_policy_json (ds_RuntimePolicy s)))]"

text \<open>\<open>"sha256:" + hex.EncodeToString(hash[:])\<close>.\<close>

definition hex_encode :: "8 word list \<Rightarrow> string" where
  "hex_encode bs = concat (map (\<lambda>b. hex_digits 2 (unat b)) bs)"

definition config_hash :: "(string \<Rightarrow> 8 word list) \<Rightarrow> desired_state \<Rightarrow> string" where
  "config_hash sha256 s = ''sha256:'' @ hex_encode (sha256 (CanonicalJSON s))"

definition NewDefaultDesiredState ::
    "(string \<Rightarrow> 8 word list) \<Rightarrow> uuid \<Rightarrow> int \<Rightarrow> time \<Rightarrow> desired_state" where
  "NewDefaultDesiredState sha256 agent revision generatedAt =
     (let s = \<lparr>ds_AgentID = agent, ds_Revision = revision, ds_GeneratedAt = generatedAt, ds_ConfigHash = [],
                ds_RuntimePolicy = \<lparr>MaxParallelIOJobs = 1, LogLimitBytes = DefaultLogLimitBytes\<rparr>, ds_Plans = []\<rparr>
      in s\<lparr>ds_ConfigHash := config_hash sha256 s\<rparr>)"

subsection \<open>Validation\<close>

definition plan_Validate :: "(string \<Rightarrow> location option) \<Rightarrow> plan_schedule \<Rightarrow> desired_error option" where
  "plan_Validate load_location p =
     (if \<not> uuid_v7 (ps_PlanID p) then Some (DesiredStateError ''PLAN_ID_INVALID'' ''plans.plan_id'')
      else if ps_Revision p < 1 then Some (DesiredStateError ''PLAN_REVISION_INVALID'' ''plans.revision'')
      else if ps_Name p = [] \<or> length (ps_Name p) > 128 then Some (DesiredStateError ''PLAN_NAME_INVALID'' ''plans.name'')
      else if \<not> uuid_v7 (ps_RepositoryID p)
      then Some (DesiredStateError ''PLAN_REPOSITORY_INVALID'' ''plans.repository_id'')
      else if slice (ps_Paths p) = [] then Some (DesiredStateError ''PLAN_PATHS_REQUIRED'' ''plans.paths'')
      else if ps_JitterSeconds p < 0 \<or> ps_JitterSeconds p > 3600
      then Some (DesiredStateError ''PLAN_JITTER_INVALID'' ''plans.jitter_seconds'')
      else if ps_MisfireGraceSeconds p < 0 \<or> ps_MisfireGraceSeconds p > 86400
      then Some (DesiredStateError ''PLAN_MISFIRE_INVALID'' ''plans.misfire_grace_seconds'')
      else if ps_ConcurrencyPolicy p \<noteq> [] \<and> ps_ConcurrencyPolicy p \<noteq> ''FORBID'' \<and> ps_ConcurrencyPolicy p \<noteq> ''ALLOW''
      then Some (DesiredStateError ''PLAN_CONCURRENCY_INVALID'' ''plans.concurrency_policy'')
      else if \<not> validateCron (ps_Cron p) then Some (DesiredStateError ''PLAN_CRON_INVALID'' ''plans.cron'')
      else if \<not> validateTimezone load_location (ps_Timezone p)
      then Some (DesiredStateError ''PLAN_TIMEZONE_INVALID'' ''plans.timezone'')
      else case ValidateBackupPaths (slice (ps_Paths p)) (slice (ps_ExcludePatterns p)) of
        Some e \<Rightarrow> Some (DesiredStateError ''PLAN_PATHS_INVALID'' (''plans.'' @ te_Field e))
      | None \<Rightarrow>
          if execution_Validate (ps_Execution p) \<noteq> None
          then Some (DesiredStateError ''PLAN_EXECUTION_INVALID'' ''plans.execution'')
          else None)"

fun first_error :: "('a \<Rightarrow> 'e option) \<Rightarrow> 'a list \<Rightarrow> 'e option" where
  "first_error f [] = None"
| "first_error f (x # xs) = (case f x of Some e \<Rightarrow> Some e | None \<Rightarrow> first_error f xs)"

definition state_Validate ::
    "(string \<Rightarrow> location option) \<Rightarrow> (string \<Rightarrow> 8 word list) \<Rightarrow> desired_state \<Rightarrow> desired_error option" where
  "state_Validate load_location sha256 s =
     (if ds_AgentID s = uuid_nil then Some (DesiredStateError ''AGENT_ID_INVALID'' ''agent_id'')
      else if ds_Revision s < 1 then Some (DesiredStateError ''REVISION_INVALID'' ''revision'')
      else if is_zero (ds_GeneratedAt s) then Some (DesiredStateError ''GENERATED_AT_INVALID'' ''generated_at'')
      else if MaxParallelIOJobs (ds_RuntimePolicy s) < 1 \<or> MaxParallelIOJobs (ds_RuntimePolicy s) > 16
      then Some (DesiredStateError ''MAX_PARALLEL_IO_JOBS_INVALID'' ''runtime_policy.max_parallel_io_jobs'')
      else if LogLimitBytes (ds_RuntimePolicy s) < 65536 \<or> LogLimitBytes (ds_RuntimePolicy s) > DefaultLogLimitBytes
      then Some (DesiredStateError ''LOG_LIMIT_BYTES_INVALID'' ''runtime_policy.log_limit_bytes'')
      else case first_error (plan_Validate load_location) (ds_Plans s) of
        Some e \<Rightarrow> Some e
      | None \<Rightarrow>
          if ds_ConfigHash s \<noteq> config_hash sha256 s
          then Some (DesiredStateError ''CONFIG_HASH_MISMATCH'' ''config_hash'') else None)"

text \<open>The schedule specification of a plan, as the Agent builds it.\<close>

definition plan_spec :: "plan_schedule \<Rightarrow> spec" where
  "plan_spec p = \<lparr>Cron = ps_Cron p, Timezone = ps_Timezone p, JitterSeconds = ps_JitterSeconds p,
     MisfireGraceSeconds = ps_MisfireGraceSeconds p, ConcurrencyPolicy = ps_ConcurrencyPolicy p\<rparr>"

subsection \<open>Agent health\<close>

record agent_health =
  ag_Status :: string
  ag_LastSeenAt :: "time option"
  ag_HeartbeatErrorCode :: string
  ag_ConfigErrorCode :: string

definition HealthAt :: "agent_health \<Rightarrow> time \<Rightarrow> duration \<Rightarrow> string" where
  "HealthAt a now offlineAfter =
     (if ag_Status a = ''REVOKED'' then ''REVOKED''
      else case ag_LastSeenAt a of
        None \<Rightarrow> ''OFFLINE''
      | Some seen \<Rightarrow>
          if time_sub now seen > offlineAfter then ''OFFLINE''
          else if ag_HeartbeatErrorCode a \<noteq> [] \<or> ag_ConfigErrorCode a \<noteq> [] then ''DEGRADED''
          else ''ONLINE'')"

section \<open>Lemmas\<close>

interpretation plan_order: weak_order plan_less
proof unfold_locales
  fix x y z :: plan_schedule
  show "plan_less x y \<Longrightarrow> \<not> plan_less y x"
    by (auto simp: plan_less_def uuid_string_less split: if_splits)
  show "\<not> plan_less y x \<Longrightarrow> \<not> plan_less z y \<Longrightarrow> \<not> plan_less z x"
    by (auto simp: plan_less_def uuid_string_less split: if_splits)
qed

lemma slice_simps [simp]: "slice None = []" "slice (Some xs) = xs"
  by (simp_all add: slice_def)

lemma first_error_None: "first_error f xs = None \<longleftrightarrow> list_all (\<lambda>x. f x = None) xs"
  by (induction xs) (auto split: option.splits)

lemma state_Validate_plans:
  "state_Validate load_location sha256 s = None \<Longrightarrow> list_all (\<lambda>p. plan_Validate load_location p = None) (ds_Plans s)"
  by (auto simp: state_Validate_def first_error_None[symmetric] split: if_splits option.splits)

lemma state_Validate_policy:
  "state_Validate load_location sha256 s = None \<Longrightarrow>
     1 \<le> MaxParallelIOJobs (ds_RuntimePolicy s) \<and> MaxParallelIOJobs (ds_RuntimePolicy s) \<le> 16 \<and> 1 \<le> ds_Revision s"
  by (auto simp: state_Validate_def split: if_splits option.splits)

lemma plan_Validate_None:
  assumes "plan_Validate load_location p = None"
  shows "uuid_v7 (ps_PlanID p)" "1 \<le> ps_Revision p" "0 \<le> ps_JitterSeconds p" "ps_JitterSeconds p \<le> 3600"
    "0 \<le> ps_MisfireGraceSeconds p" "ps_MisfireGraceSeconds p \<le> 86400"
    "validateCron (ps_Cron p)" "validateTimezone load_location (ps_Timezone p)"
    "ValidateBackupPaths (slice (ps_Paths p)) (slice (ps_ExcludePatterns p)) = None"
    "execution_Validate (ps_Execution p) = None"
    "ps_ConcurrencyPolicy p \<in> {[], ''FORBID'', ''ALLOW''}"
  using assms by (auto simp: plan_Validate_def split: if_splits option.splits)

lemma plan_clock_exists:
  "plan_Validate load_location p = None \<Longrightarrow> \<exists>c. New load_location i (plan_spec p) = Inr c"
  by (rule validated_clock) (auto simp: plan_spec_def dest: plan_Validate_None)

lemma uuid_v7_nonnil: "uuid_v7 u \<Longrightarrow> u \<noteq> uuid_nil"
  by (auto simp: uuid_v7_def uuid_version_def uuid_nil_def)

section \<open>A concrete plan, for the witnesses\<close>

definition demo_plan :: plan_schedule where
  "demo_plan = \<lparr>ps_PlanID = 528914269453437118709761, ps_Revision = 1, ps_Name = ''data'', ps_HostID = 528914269453437118709762,
     ps_RepositoryID = 528914269453437118709763, ps_Cron = ''2 0 * * *'', ps_Timezone = ''UTC'', ps_JitterSeconds = 60,
     ps_MisfireGraceSeconds = 300, ps_ConcurrencyPolicy = ''FORBID'', ps_Paths = Some [''/data''],
     ps_ExcludePatterns = None, ps_ExcludeCaches = False, ps_OneFileSystem = True, ps_ConfigHash = ''c1'',
     ps_Execution = None\<rparr>"

definition demo_plan2 :: plan_schedule where
  "demo_plan2 = demo_plan\<lparr>ps_PlanID := 528914269453437118709770, ps_Name := ''home''\<rparr>"

definition demo_state :: "plan_schedule list \<Rightarrow> desired_state" where
  "demo_state ps = \<lparr>ds_AgentID = 528914269453437118709769, ds_Revision = 1, ds_GeneratedAt = 1, ds_ConfigHash = ''sha256:'',
     ds_RuntimePolicy = \<lparr>MaxParallelIOJobs = 1, LogLimitBytes = 65536\<rparr>, ds_Plans = ps\<rparr>"

lemma demo_hash: "config_hash (\<lambda>_. []) s = ''sha256:''"
  by (simp add: config_hash_def hex_encode_def)

lemma demo_plan2_valid: "plan_Validate demo_locations demo_plan2 = None"
  by code_simp

lemma demo_plan_valid: "plan_Validate demo_locations demo_plan = None"
  by code_simp

lemma demo_state_valid: "state_Validate demo_locations (\<lambda>_. []) (demo_state [demo_plan2, demo_plan]) = None"
  by (simp add: state_Validate_def demo_hash)
    (simp add: demo_state_def demo_plan_valid demo_plan2_valid is_zero_def uuid_nil_def DefaultLogLimitBytes_def)

section \<open>Properties\<close>

text \<open>C10: Every plan of a desired state the Agent accepts has a clock: what the shared validation lets through,
  the scheduler can be built from, with the same time zone database.\<close>

theorem accepted_plans_have_clocks:
  assumes "state_Validate load_location sha256 s = None"
  shows "\<forall>p \<in> set (ds_Plans s). \<exists>c. New load_location (ps_PlanID p) (plan_spec p) = Inr c"
  using state_Validate_plans[OF assms] plan_clock_exists by (fastforce simp: list_all_iff)

theorem accepted_plans_have_clocks_witness:
  "state_Validate demo_locations (\<lambda>_. []) (demo_state [demo_plan2, demo_plan]) = None \<and>
   (\<exists>c. New demo_locations (ps_PlanID demo_plan) (plan_spec demo_plan) = Inr c)"
  using accepted_plans_have_clocks[OF demo_state_valid] demo_state_valid by (simp add: demo_state_def)

text \<open>C11: The canonical text of a desired state, and so its configuration hash, does not depend on the order
  of its plans, as long as no two of them share identifier and revision.\<close>

theorem canonical_json_order_independent:
  assumes "mset (ds_Plans s) = mset (ds_Plans t)" and "ds_RuntimePolicy s = ds_RuntimePolicy t"
    and "distinct (map (\<lambda>p. (ps_PlanID p, ps_Revision p)) (ds_Plans s))"
  shows "CanonicalJSON s = CanonicalJSON t \<and> config_hash sha256 s = config_hash sha256 t"
proof -
  have "plan_less a b \<or> plan_less b a"
    if "a \<in> set (ds_Plans s)" "b \<in> set (ds_Plans s)" "a \<noteq> b" for a b
  proof -
    from assms(3) that have "ps_PlanID a \<noteq> ps_PlanID b \<or> ps_Revision a \<noteq> ps_Revision b"
      by (auto simp: distinct_map inj_on_def)
    then show ?thesis by (auto simp: plan_less_def uuid_string_less)
  qed
  then have "sort_slice plan_less (ds_Plans s) = sort_slice plan_less (ds_Plans t)"
    using assms(1) plan_order.sorted_sort by (intro plan_order.sorted_unique) auto
  with assms(2) show ?thesis
    by (simp add: CanonicalJSON_def config_hash_def)
qed

theorem canonical_json_order_independent_witness:
  "mset (ds_Plans (demo_state [demo_plan2, demo_plan])) = mset (ds_Plans (demo_state [demo_plan, demo_plan2])) \<and>
   CanonicalJSON (demo_state [demo_plan2, demo_plan]) = CanonicalJSON (demo_state [demo_plan, demo_plan2])"
proof -
  have m: "mset (ds_Plans (demo_state [demo_plan2, demo_plan])) = mset (ds_Plans (demo_state [demo_plan, demo_plan2]))"
    "ds_RuntimePolicy (demo_state [demo_plan2, demo_plan]) = ds_RuntimePolicy (demo_state [demo_plan, demo_plan2])"
    "distinct (map (\<lambda>p. (ps_PlanID p, ps_Revision p)) (ds_Plans (demo_state [demo_plan2, demo_plan])))"
    by (simp_all add: demo_state_def demo_plan2_def demo_plan_def)
  from canonical_json_order_independent[OF m] m(1) show ?thesis by blast
qed

end
