(* ===== verification/Agent_State.thy ===== *)
theory Agent_State
  imports Desired_State
begin

text \<open>
  The Agent's durable state (\<open>internal/agent/state.go\<close>, \<open>internal/agent/operations.go\<close>): operation
  records and plan runtimes in bbolt buckets, the in-memory registries of running and canceled
  operations, and the operations on them. A bucket that does not exist yet is the empty bucket. A stored
  value is a \<open>cell\<close>: \<open>Malformed\<close> when \<open>json.Unmarshal\<close> rejects it.
  \<open>faults\<close> says which write transactions fail: each \<open>db.Update\<close> takes the next entry, and \<open>False\<close> is a
  transaction that does not commit (or a value that does not encode); no entry left means no more failures.
\<close>

section \<open>Model\<close>

datatype float64 = Finite int int | PosInf | NegInf | NaN

record backup_summary =
  FilesNew :: int
  FilesChanged :: int
  FilesUnmodified :: int
  DirsNew :: int
  DirsChanged :: int
  DirsUnmodified :: int
  DataAdded :: int
  DataAddedPacked :: int
  TotalFilesProcessed :: int
  TotalBytesProcessed :: int
  BackupStart :: "time option"
  BackupEnd :: "time option"
  TotalDuration :: float64
  WarningCount :: int

record operation_record =
  op_ID :: uuid
  op_PlanID :: uuid
  op_PlanRevision :: int
  op_ConfigHash :: string
  op_ScheduledAt :: time
  op_StartedAt :: time
  op_FinishedAt :: time
  op_Status :: string
  op_ExitCode :: int
  op_ErrorCode :: string
  op_SnapshotID :: string
  op_FilesDone :: int
  op_TotalFiles :: int
  op_BytesDone :: int
  op_TotalBytes :: int
  op_FilesNew :: int
  op_DataAdded :: int
  op_Uploaded :: bool
  op_LastReportedAt :: time
  op_ParentOperationID :: uuid
  op_RootOperationID :: uuid
  op_Attempt :: int
  op_RetryAt :: time
  op_Deadline :: time
  op_Summary :: "backup_summary option"

text \<open>The record with every field at Go's zero value.\<close>

definition zero_operation :: operation_record where
  "zero_operation = \<lparr>op_ID = uuid_nil, op_PlanID = uuid_nil, op_PlanRevision = 0, op_ConfigHash = [],
     op_ScheduledAt = 0, op_StartedAt = 0, op_FinishedAt = 0, op_Status = [], op_ExitCode = 0, op_ErrorCode = [],
     op_SnapshotID = [], op_FilesDone = 0, op_TotalFiles = 0, op_BytesDone = 0, op_TotalBytes = 0,
     op_FilesNew = 0, op_DataAdded = 0, op_Uploaded = False, op_LastReportedAt = 0,
     op_ParentOperationID = uuid_nil, op_RootOperationID = uuid_nil, op_Attempt = 0, op_RetryAt = 0,
     op_Deadline = 0, op_Summary = None\<rparr>"

definition Terminal :: "operation_record \<Rightarrow> bool" where
  "Terminal r \<longleftrightarrow> op_Status r \<in> {''SUCCEEDED'', ''SUCCEEDED_WITH_WARNINGS'', ''FAILED'', ''CANCELED'', ''LOST'',
     ''MISSED'', ''CONCURRENCY_SKIPPED''}"

record plan_runtime =
  rt_PlanID :: uuid
  rt_PlanRevision :: int
  rt_ConfigHash :: string
  rt_LastScheduledAt :: time
  rt_NextRunAt :: time
  rt_LastOperationID :: uuid

definition zero_runtime :: plan_runtime where
  "zero_runtime = \<lparr>rt_PlanID = uuid_nil, rt_PlanRevision = 0, rt_ConfigHash = [], rt_LastScheduledAt = 0,
     rt_NextRunAt = 0, rt_LastOperationID = uuid_nil\<rparr>"

record config_result =
  cr_Revision :: int
  cr_ConfigHash :: string
  cr_Accepted :: bool
  cr_ErrorCode :: string
  cr_FieldPath :: string

record log_state =
  lg_Next :: nat
  lg_Ack :: nat
  lg_Bytes :: nat
  lg_Limit :: nat
  lg_Truncated :: bool
  lg_Critical :: "string list"
  lg_SentThrough :: nat
  lg_LastSentAt :: time

record operation_log =
  ol_meta :: "log_state cell option"
  ol_entries :: "(nat \<times> string) list"

record agent =
  operations :: "(uuid \<times> operation_record cell) list"
  plan_runtimes :: "(uuid \<times> plan_runtime cell) list"
  desired_active :: "desired_state cell option"
  desired_staging :: "desired_state cell option"
  outbound :: "config_result cell option"
  operation_logs :: "(uuid \<times> operation_log) list"
  running :: "(uuid \<times> bool) list"
  canceled :: "uuid list"
  schedulerTickAt :: time
  schedulerInterval :: duration
  hook_ids :: "uuid list"
  faults :: "bool list"

datatype store_error = StorageFailed | DecodeFailed | OtherError string

subsection \<open>Transactions\<close>

text \<open>\<open>db.Update\<close>: a failing transaction, or a body that returns an error, leaves the database as it was.\<close>

definition db_update :: "(agent \<Rightarrow> store_error + (agent \<times> 'a)) \<Rightarrow> agent \<Rightarrow> agent \<times> (store_error + 'a)" where
  "db_update body s =
     (let s' = s\<lparr>faults := tl (faults s)\<rparr>
      in if faults s \<noteq> [] \<and> \<not> hd (faults s) then (s', Inl StorageFailed)
         else case body s' of
           Inl e \<Rightarrow> (s', Inl e)
         | Inr (t, x) \<Rightarrow> (t, Inr x))"

fun decode_all :: "('k \<times> 'a cell) list \<Rightarrow> store_error + 'a list" where
  "decode_all [] = Inr []"
| "decode_all ((k, Malformed) # rest) = Inl DecodeFailed"
| "decode_all ((k, Valid x) # rest) =
     (case decode_all rest of Inl e \<Rightarrow> Inl e | Inr xs \<Rightarrow> Inr (x # xs))"

subsection \<open>Operations\<close>

definition put_operation_tx :: "operation_record \<Rightarrow> agent \<Rightarrow> store_error + (agent \<times> unit)" where
  "put_operation_tx r s = Inr (s\<lparr>operations := bput (operations s) (op_ID r) (Valid r)\<rparr>, ())"

definition PutOperation :: "operation_record \<Rightarrow> agent \<Rightarrow> agent \<times> (store_error + unit)" where
  "PutOperation r s = db_update (put_operation_tx r) s"

text \<open>The context of a run is its entry of \<open>running\<close>; the flag says it is canceled.\<close>

definition BeginOperation :: "uuid \<Rightarrow> agent \<Rightarrow> agent" where
  "BeginOperation i s = s\<lparr>running := bput (running s) i (i \<in> set (canceled s))\<rparr>"

definition end_run :: "uuid \<Rightarrow> agent \<Rightarrow> agent" where
  "end_run i s = s\<lparr>running := bdel (running s) i, canceled := removeAll i (canceled s)\<rparr>"

definition Operation :: "uuid \<Rightarrow> agent \<Rightarrow> store_error + operation_record option" where
  "Operation i s =
     (case bget (operations s) i of
        None \<Rightarrow> Inr None
      | Some Malformed \<Rightarrow> Inl DecodeFailed
      | Some (Valid r) \<Rightarrow> Inr (Some r))"

definition CancelOperation :: "uuid \<Rightarrow> agent \<Rightarrow> agent \<times> bool" where
  "CancelOperation i s =
     (if (case Operation i s of Inr (Some r) \<Rightarrow> Terminal r | _ \<Rightarrow> False) then (s, False)
      else if bget (running s) i \<noteq> None then (s\<lparr>running := bput (running s) i True\<rparr>, True)
      else if length (canceled s) < 256 then (s\<lparr>canceled := List.insert i (canceled s)\<rparr>, False)
      else (s, False))"

definition ConsumeCancel :: "uuid \<Rightarrow> agent \<Rightarrow> agent \<times> bool" where
  "ConsumeCancel i s =
     (if i \<in> set (canceled s) then (s\<lparr>canceled := removeAll i (canceled s)\<rparr>, True) else (s, False))"

definition updateOperation ::
    "uuid \<Rightarrow> (operation_record \<Rightarrow> operation_record) \<Rightarrow> agent \<Rightarrow> agent \<times> (store_error + unit)" where
  "updateOperation i update s = db_update (\<lambda>s.
     case bget (operations s) i of
       None \<Rightarrow> Inr (s, ())
     | Some Malformed \<Rightarrow> Inl DecodeFailed
     | Some (Valid r) \<Rightarrow> Inr (s\<lparr>operations := bput (operations s) i (Valid (update r))\<rparr>, ())) s"

definition MarkOperationUploaded :: "uuid \<Rightarrow> agent \<Rightarrow> agent \<times> (store_error + unit)" where
  "MarkOperationUploaded i s = updateOperation i (\<lambda>r. if Terminal r then r\<lparr>op_Uploaded := True\<rparr> else r) s"

definition markOperationReported :: "uuid \<Rightarrow> time \<Rightarrow> agent \<Rightarrow> agent \<times> (store_error + unit)" where
  "markOperationReported i now s = updateOperation i (\<lambda>r. r\<lparr>op_LastReportedAt := now\<rparr>) s"

definition is_running :: "operation_record \<Rightarrow> bool" where
  "is_running r \<longleftrightarrow> op_Status r = ''RUNNING''"

definition RunningOperations :: "agent \<Rightarrow> store_error + operation_record list" where
  "RunningOperations s =
     (case decode_all (bitems (operations s)) of
        Inl e \<Rightarrow> Inl e
      | Inr rs \<Rightarrow> Inr (filter is_running rs))"

definition PlanRuntime :: "uuid \<Rightarrow> agent \<Rightarrow> store_error + plan_runtime option" where
  "PlanRuntime i s =
     (case bget (plan_runtimes s) i of
        None \<Rightarrow> Inr None
      | Some Malformed \<Rightarrow> Inl DecodeFailed
      | Some (Valid r) \<Rightarrow> Inr (Some r))"

definition PutPlanRuntime :: "plan_runtime \<Rightarrow> agent \<Rightarrow> agent \<times> (store_error + unit)" where
  "PutPlanRuntime rt s =
     (if rt_PlanID rt = uuid_nil then (s, Inl (OtherError ''plan runtime requires a plan id''))
      else db_update (\<lambda>s. Inr (s\<lparr>plan_runtimes := bput (plan_runtimes s) (rt_PlanID rt) (Valid rt)\<rparr>, ())) s)"

definition PutOperationWithRuntime ::
    "operation_record \<Rightarrow> plan_runtime \<Rightarrow> agent \<Rightarrow> agent \<times> (store_error + unit)" where
  "PutOperationWithRuntime r rt s =
     (if rt_PlanID rt = uuid_nil \<or> op_PlanID r \<noteq> rt_PlanID rt
      then (s, Inl (OtherError ''operation and runtime plan mismatch''))
      else db_update (\<lambda>s. Inr (s\<lparr>operations := bput (operations s) (op_ID r) (Valid r),
             plan_runtimes := bput (plan_runtimes s) (rt_PlanID rt) (Valid rt)\<rparr>, ())) s)"

subsection \<open>Views for the control stream\<close>

definition runtime_less :: "plan_runtime \<Rightarrow> plan_runtime \<Rightarrow> bool" where
  "runtime_less a b =
     (if rt_NextRunAt a \<noteq> rt_NextRunAt b then rt_NextRunAt a < rt_NextRunAt b
      else string_less (uuid_string (rt_PlanID a)) (uuid_string (rt_PlanID b)))"

text \<open>\<open>if limit > 0 && len(items) > limit { items = items[:limit] }\<close>.\<close>

definition bounded :: "int \<Rightarrow> 'a list \<Rightarrow> 'a list" where
  "bounded limit xs = (if limit > 0 \<and> int (length xs) > limit then take (nat limit) xs else xs)"

definition NextRuns :: "int \<Rightarrow> agent \<Rightarrow> store_error + plan_runtime list" where
  "NextRuns limit s =
     (case decode_all (bitems (plan_runtimes s)) of
        Inl e \<Rightarrow> Inl e
      | Inr rts \<Rightarrow> Inr (bounded limit (sort_slice runtime_less (filter (\<lambda>rt. \<not> is_zero (rt_NextRunAt rt)) rts))))"

definition maxReportsPerBatch :: nat where
  "maxReportsPerBatch = 32"

definition resultRetryInterval :: duration where
  "resultRetryInterval = 30000000000"

definition report_less :: "operation_record \<Rightarrow> operation_record \<Rightarrow> bool" where
  "report_less a b =
     (if Terminal a \<noteq> Terminal b then Terminal a
      else if op_LastReportedAt a \<noteq> op_LastReportedAt b then op_LastReportedAt a < op_LastReportedAt b
      else string_less (uuid_string (op_ID a)) (uuid_string (op_ID b)))"

text \<open>The parent of a retry, when it is stored, must have been uploaded before the retry is reported.\<close>

definition parent_uploaded :: "(uuid \<times> operation_record cell) list \<Rightarrow> operation_record \<Rightarrow> bool" where
  "parent_uploaded ops r =
     (if op_ParentOperationID r = uuid_nil then True
      else case bget ops (op_ParentOperationID r) of
        None \<Rightarrow> True
      | Some Malformed \<Rightarrow> False
      | Some (Valid p) \<Rightarrow> op_Uploaded p)"

definition reportable :: "time \<Rightarrow> duration \<Rightarrow> operation_record \<Rightarrow> bool" where
  "reportable now progressInterval r \<longleftrightarrow>
     Terminal r \<and> \<not> op_Uploaded r \<and> (progressInterval = 0 \<or> time_sub now (op_LastReportedAt r) \<ge> resultRetryInterval)
     \<or> is_running r \<and> time_sub now (op_LastReportedAt r) \<ge> progressInterval"

definition report_step ::
    "(uuid \<times> operation_record cell) list \<Rightarrow> time \<Rightarrow> duration \<Rightarrow> operation_record list \<Rightarrow> operation_record \<Rightarrow> operation_record list" where
  "report_step ops now progressInterval items r =
     (if \<not> parent_uploaded ops r then items
      else take maxReportsPerBatch
        (sort_slice report_less (if reportable now progressInterval r then items @ [r] else items)))"

definition ReportableOperations :: "time \<Rightarrow> duration \<Rightarrow> agent \<Rightarrow> store_error + operation_record list" where
  "ReportableOperations now progressInterval s =
     (case decode_all (bitems (operations s)) of
        Inl e \<Rightarrow> Inl e
      | Inr rs \<Rightarrow> Inr (foldl (report_step (operations s) now progressInterval) [] rs))"

definition PendingResultIDs :: "int \<Rightarrow> agent \<Rightarrow> store_error + string list" where
  "PendingResultIDs limit s =
     (case decode_all (bitems (operations s)) of
        Inl e \<Rightarrow> Inl e
      | Inr rs \<Rightarrow> Inr (bounded limit (sort_slice string_less
          (map (\<lambda>r. uuid_string (op_ID r)) (filter (\<lambda>r. Terminal r \<and> \<not> op_Uploaded r) rs)))))"

subsection \<open>Recovery after a restart\<close>

definition lost_record :: "time \<Rightarrow> operation_record \<Rightarrow> operation_record" where
  "lost_record now r = r\<lparr>op_Status := ''LOST'', op_ErrorCode := ''LOCAL_OPERATION_RECOVERED'',
     op_FinishedAt := now, op_Uploaded := False\<rparr>"

fun running_keys :: "(uuid \<times> operation_record cell) list \<Rightarrow> (uuid \<times> operation_record) list" where
  "running_keys [] = []"
| "running_keys ((k, Malformed) # rest) = running_keys rest"
| "running_keys ((k, Valid r) # rest) = (if is_running r then (k, r) # running_keys rest else running_keys rest)"

definition RecoverRunningOperations :: "time \<Rightarrow> agent \<Rightarrow> agent \<times> (store_error + nat)" where
  "RecoverRunningOperations now s = db_update (\<lambda>s.
     case decode_all (bitems (operations s)) of
       Inl e \<Rightarrow> Inl e
     | Inr _ \<Rightarrow>
         (let found = running_keys (bitems (operations s))
          in Inr (s\<lparr>operations := foldl (\<lambda>b (k, r). bput b k (Valid (lost_record now r))) (operations s) found\<rparr>,
                  length found))) s"

section \<open>Transactions keep the database on failure\<close>

lemma db_update_Inl: "db_update body s = (t, Inl e) \<Longrightarrow> t = s\<lparr>faults := tl (faults s)\<rparr>"
  by (auto simp: db_update_def Let_def split: if_splits sum.splits prod.splits)

lemma db_update_Inr: "db_update body s = (t, Inr x) \<Longrightarrow> body (s\<lparr>faults := tl (faults s)\<rparr>) = Inr (t, x)"
  by (auto simp: db_update_def Let_def split: if_splits sum.splits prod.splits)

lemma db_update_commits:
  "list_all id (faults s) \<Longrightarrow> db_update body s =
     (case body (s\<lparr>faults := tl (faults s)\<rparr>) of Inl e \<Rightarrow> (s\<lparr>faults := tl (faults s)\<rparr>, Inl e) | Inr (t, x) \<Rightarrow> (t, Inr x))"
  by (cases "faults s") (auto simp: db_update_def Let_def split: sum.splits)

text \<open>A property the failure plan has no part in is kept by a transaction when it is kept by its body.\<close>

lemma db_update_inv:
  assumes "P s" "\<And>t f. P t \<Longrightarrow> P (t\<lparr>faults := f\<rparr>)" "\<And>t u x. P t \<Longrightarrow> body t = Inr (u, x) \<Longrightarrow> P u"
  shows "P (fst (db_update body s))"
proof (cases "db_update body s")
  case (Pair t r)
  show ?thesis
  proof (cases r)
    case (Inl e)
    with Pair have "t = s\<lparr>faults := tl (faults s)\<rparr>"
      by (simp add: db_update_Inl)
    with Pair assms(2)[OF assms(1)] show ?thesis by simp
  next
    case (Inr x)
    with Pair have "body (s\<lparr>faults := tl (faults s)\<rparr>) = Inr (t, x)"
      by (simp add: db_update_Inr)
    from assms(3)[OF assms(2)[OF assms(1)] this] Pair show ?thesis by simp
  qed
qed

section \<open>Well-formed stores\<close>

text \<open>Buckets are in key order, and an operation record is stored under its own identifier.\<close>

definition cell_ok :: "uuid \<Rightarrow> operation_record cell \<Rightarrow> bool" where
  "cell_ok k c = (case c of Valid r \<Rightarrow> op_ID r = k | Malformed \<Rightarrow> True)"

definition store_ok :: "agent \<Rightarrow> bool" where
  "store_ok s \<longleftrightarrow> bsorted (operations s) \<and> bsorted (plan_runtimes s) \<and> bsorted (running s) \<and>
     bsorted (operation_logs s) \<and> list_all (\<lambda>(k, c). cell_ok k c) (bitems (operations s)) \<and>
     distinct (canceled s) \<and> length (canceled s) \<le> 256"

lemma store_ok_faults [simp]: "store_ok (s\<lparr>faults := f\<rparr>) = store_ok s"
  by (simp add: store_ok_def)

lemma store_ok_ops: "store_ok s \<Longrightarrow> bget (operations s) k = Some (Valid r) \<Longrightarrow> op_ID r = k"
  by (auto simp: store_ok_def list_all_iff cell_ok_def bkt.in_items[symmetric] split: cell.splits)

lemma cells_put:
  "bsorted b \<Longrightarrow> list_all (\<lambda>(k, c). cell_ok k c) (bitems b) \<Longrightarrow> cell_ok k c \<Longrightarrow>
     list_all (\<lambda>(k, c). cell_ok k c) (bitems (bput b k c))"
  by (auto simp: list_all_iff bkt.set_items_put)

lemma store_ok_put_operation:
  "store_ok s \<Longrightarrow> op_ID r = k \<Longrightarrow> store_ok (s\<lparr>operations := bput (operations s) k (Valid r)\<rparr>)"
  by (auto simp: store_ok_def bucket_simps intro!: cells_put) (auto simp: cell_ok_def)

lemma store_ok_put_runtime:
  "store_ok s \<Longrightarrow> store_ok (s\<lparr>plan_runtimes := bput (plan_runtimes s) k c\<rparr>)"
  by (auto simp: store_ok_def bucket_simps)

lemma store_ok_update:
  assumes "store_ok s" "\<And>t u x. store_ok t \<Longrightarrow> body t = Inr (u, x) \<Longrightarrow> store_ok u"
  shows "store_ok (fst (db_update body s))"
  by (rule db_update_inv[where P = store_ok]) (use assms in auto)

lemma PutOperation_ok: "store_ok s \<Longrightarrow> store_ok (fst (PutOperation r s))"
  unfolding PutOperation_def
  by (rule store_ok_update) (auto simp: put_operation_tx_def store_ok_put_operation)

lemma updateOperation_ok:
  assumes "store_ok s" and keep: "\<And>r. op_ID (f r) = op_ID r"
  shows "store_ok (fst (updateOperation i f s))"
  unfolding updateOperation_def
proof (rule store_ok_update[OF assms(1)])
  fix t u :: agent and x
  assume t: "store_ok t"
  assume "(case bget (operations t) i of None \<Rightarrow> Inr (t, ()) | Some Malformed \<Rightarrow> Inl DecodeFailed
    | Some (Valid r) \<Rightarrow> Inr (t\<lparr>operations := bput (operations t) i (Valid (f r))\<rparr>, ())) = Inr (u, x)"
  with t show "store_ok u"
    using keep by (auto split: option.splits cell.splits intro!: store_ok_put_operation dest: store_ok_ops)
qed

lemma PutPlanRuntime_ok: "store_ok s \<Longrightarrow> store_ok (fst (PutPlanRuntime rt s))"
  unfolding PutPlanRuntime_def by (auto intro!: store_ok_update simp: store_ok_put_runtime)

lemma store_ok_put_both:
  "store_ok s \<Longrightarrow> store_ok (s\<lparr>operations := bput (operations s) (op_ID r) (Valid r),
     plan_runtimes := bput (plan_runtimes s) k c\<rparr>)"
  using store_ok_put_runtime[OF store_ok_put_operation[of s r "op_ID r"], of k c] by simp

lemma PutOperationWithRuntime_ok: "store_ok s \<Longrightarrow> store_ok (fst (PutOperationWithRuntime r rt s))"
  unfolding PutOperationWithRuntime_def by (auto intro!: store_ok_update simp: store_ok_put_both)

lemma BeginOperation_ok: "store_ok s \<Longrightarrow> store_ok (BeginOperation i s)"
  by (auto simp: store_ok_def BeginOperation_def bucket_simps)

lemma end_run_ok: "store_ok s \<Longrightarrow> store_ok (end_run i s)"
  by (auto simp: store_ok_def end_run_def bucket_simps distinct_removeAll intro: order.trans[OF length_removeAll_less_eq])

lemma CancelOperation_ok: "store_ok s \<Longrightarrow> store_ok (fst (CancelOperation i s))"
  by (auto simp: store_ok_def CancelOperation_def bucket_simps List.insert_def)

section \<open>Reading a bucket\<close>

lemma map_Valid_inj [simp]: "map Valid xs = map Valid ys \<longleftrightarrow> xs = ys"
  by (rule inj_map_eq_map) (simp add: inj_def)

lemma decode_all_Inr: "decode_all b = Inr xs \<longleftrightarrow> map snd b = map Valid xs"
proof (induction b arbitrary: xs rule: decode_all.induct)
  case (3 k x rest)
  show ?case
  proof (cases xs)
    case (Cons y ys)
    with 3[of ys] show ?thesis by (auto split: sum.splits)
  qed (auto split: sum.splits)
qed auto

lemma decode_all_values: "decode_all b = Inr xs \<Longrightarrow> set xs = {r. Valid r \<in> set (map snd b)}"
  by (auto simp: decode_all_Inr)

section \<open>Recovery\<close>

lemma running_keys_map_of:
  "distinct (map fst b) \<Longrightarrow> map_of (running_keys b) k =
     (case map_of b k of Some (Valid r) \<Rightarrow> if is_running r then Some r else None | _ \<Rightarrow> None)"
proof (induction b rule: running_keys.induct)
  case (2 k' rest)
  then have "map_of rest k' = None" by (simp add: map_of_eq_None_iff)
  with 2 show ?case by auto
next
  case (3 k' r rest)
  then have "map_of rest k' = None" by (simp add: map_of_eq_None_iff)
  with 3 show ?case by auto
qed simp

lemma running_keys_subset: "set (map fst (running_keys b)) \<subseteq> set (map fst b)"
  by (induction b rule: running_keys.induct) auto

lemma running_keys_distinct: "distinct (map fst b) \<Longrightarrow> distinct (map fst (running_keys b))"
proof (induction b rule: running_keys.induct)
  case (3 k r rest)
  with running_keys_subset[of rest] show ?case by auto
qed auto

lemma length_running_keys:
  "decode_all b = Inr rs \<Longrightarrow> length (running_keys b) = length (filter is_running rs)"
  by (induction b arbitrary: rs rule: decode_all.induct) (auto split: sum.splits)

lemma bget_put_all:
  "bsorted b \<Longrightarrow> distinct (map fst kvs) \<Longrightarrow>
     bsorted (foldl (\<lambda>b (k, r). bput b k (f r)) b kvs) \<and>
     bget (foldl (\<lambda>b (k, r). bput b k (f r)) b kvs) k =
       (case map_of kvs k of Some r \<Rightarrow> Some (f r) | None \<Rightarrow> bget b k)"
proof (induction kvs arbitrary: b)
  case (Cons kv kvs)
  then obtain k' r where kv: "kv = (k', r)" "k' \<notin> set (map fst kvs)"
    by (cases kv) auto
  then have "map_of kvs k' = None" by (simp add: map_of_eq_None_iff)
  with Cons kv show ?case by (auto simp: bucket_simps split: option.splits)
qed simp

lemma map_cell_Valid: "map_cell f c = Valid r \<Longrightarrow> (\<And>r0. c = Valid r0 \<Longrightarrow> r = f r0 \<Longrightarrow> P) \<Longrightarrow> P"
  by (cases c) auto

lemma Recover_get:
  assumes b: "bsorted (operations s)" and rec: "RecoverRunningOperations now s = (t, Inr n)"
  shows "bget (operations t) k =
    map_option (map_cell (\<lambda>r. if is_running r then lost_record now r else r)) (bget (operations s) k)"
    and "\<exists>rs. decode_all (bitems (operations s)) = Inr rs \<and> n = length (filter is_running rs)"
    and "bsorted (operations t)"
proof -
  let ?found = "running_keys (bitems (operations s))"
  from rec obtain rs where rs: "decode_all (bitems (operations s)) = Inr rs" and n: "n = length ?found"
    and t: "operations t = foldl (\<lambda>b (k, r). bput b k (Valid (lost_record now r))) (operations s) ?found"
    unfolding RecoverRunningOperations_def
    by (auto dest!: db_update_Inr simp: Let_def split: sum.splits)
  have d: "distinct (map fst ?found)"
    using bkt.distinct_keys[OF b] by (rule running_keys_distinct)
  show "bget (operations t) k =
    map_option (map_cell (\<lambda>r. if is_running r then lost_record now r else r)) (bget (operations s) k)"
    unfolding t using bget_put_all[OF b d, of "\<lambda>r. Valid (lost_record now r)" k]
      running_keys_map_of[OF bkt.distinct_keys[OF b], of k] bkt.get_items[OF b, of k]
    by (auto split: option.splits cell.splits)
  show "\<exists>rs. decode_all (bitems (operations s)) = Inr rs \<and> n = length (filter is_running rs)"
    using rs n length_running_keys by blast
  show "bsorted (operations t)"
    unfolding t using bget_put_all[OF b d, of "\<lambda>r. Valid (lost_record now r)" k] by blast
qed

section \<open>The report batch\<close>

interpretation report_order: weak_order report_less
proof unfold_locales
  fix x y z :: operation_record
  show "report_less x y \<Longrightarrow> \<not> report_less y x"
    by (auto simp: report_less_def uuid_string_less split: if_splits)
  show "\<not> report_less y x \<Longrightarrow> \<not> report_less z y \<Longrightarrow> \<not> report_less z x"
    by (auto simp: report_less_def uuid_string_less split: if_splits)
qed

interpretation runtime_order: weak_order runtime_less
proof unfold_locales
  fix x y z :: plan_runtime
  show "runtime_less x y \<Longrightarrow> \<not> runtime_less y x"
    by (auto simp: runtime_less_def uuid_string_less split: if_splits)
  show "\<not> runtime_less y x \<Longrightarrow> \<not> runtime_less z y \<Longrightarrow> \<not> runtime_less z x"
    by (auto simp: runtime_less_def uuid_string_less split: if_splits)
qed

text \<open>The batch so far is the head of the sorted list of everything eligible so far.\<close>

lemma report_fold:
  "foldl (report_step ops now ivl) (take maxReportsPerBatch (sort_slice report_less acc)) rs =
     take maxReportsPerBatch (sort_slice report_less
       (acc @ filter (\<lambda>r. parent_uploaded ops r \<and> reportable now ivl r) rs))"
proof (induction rs arbitrary: acc)
  case (Cons r rs)
  let ?k = maxReportsPerBatch
  let ?acc = "sort_slice report_less acc"
  have idem: "sort_slice report_less (take ?k ?acc) = take ?k ?acc"
    using report_order.sort_sorted[OF sorted_wrt_take[OF report_order.sorted_sort]] .
  show ?case
  proof (cases "parent_uploaded ops r \<and> reportable now ivl r")
    case True
    have "take ?k (sort_slice report_less (take ?k ?acc @ [r])) = take ?k (sort_slice report_less (acc @ [r]))"
      by (simp add: sort_slice_snoc idem take_insert_slice)
    with True Cons.IH[of "acc @ [r]"] show ?thesis
      by (simp add: report_step_def)
  next
    case False
    then have "report_step ops now ivl (take ?k ?acc) r = take ?k ?acc"
      by (auto simp: report_step_def idem)
    with False Cons.IH[of acc] show ?thesis by auto
  qed
qed simp

section \<open>A concrete store, for the witnesses\<close>

definition demo_record :: "uuid \<Rightarrow> string \<Rightarrow> operation_record" where
  "demo_record i status = zero_operation\<lparr>op_ID := i, op_PlanID := 7, op_Status := status\<rparr>"

definition demo_agent :: agent where
  "demo_agent = \<lparr>operations = [(1, Valid (demo_record 1 ''SUCCEEDED'')), (2, Valid (demo_record 2 ''RUNNING''))],
     plan_runtimes = [], desired_active = None, desired_staging = None, outbound = None, operation_logs = [],
     running = [], canceled = [], schedulerTickAt = 0, schedulerInterval = 0, hook_ids = [], faults = []\<rparr>"

lemma demo_agent_ok: "store_ok demo_agent"
  by (simp add: store_ok_def demo_agent_def bsorted_def bitems_def cell_ok_def demo_record_def)

section \<open>Properties\<close>

text \<open>C12: Recovery after a restart closes exactly the records a previous process left \<open>RUNNING\<close>: each becomes
  \<open>LOST\<close> with the error code \<open>LOCAL_OPERATION_RECOVERED\<close>, finished now and not yet uploaded, with its other
  fields kept; every other record keeps its value, no record is left running, and the number returned is the number of
  records closed.\<close>

theorem recovery_closes_running:
  assumes "store_ok s" and "RecoverRunningOperations now s = (t, Inr n)"
  shows "(\<forall>k. bget (operations t) k = map_option (map_cell (\<lambda>r. if op_Status r = ''RUNNING''
        then r\<lparr>op_Status := ''LOST'', op_ErrorCode := ''LOCAL_OPERATION_RECOVERED'', op_FinishedAt := now, op_Uploaded := False\<rparr>
        else r)) (bget (operations s) k)) \<and>
    (\<forall>k r. bget (operations t) k = Some (Valid r) \<longrightarrow> op_Status r \<noteq> ''RUNNING'') \<and>
    (\<exists>rs. decode_all (bitems (operations s)) = Inr rs \<and> n = length (filter (\<lambda>r. op_Status r = ''RUNNING'') rs))"
proof -
  have b: "bsorted (operations s)"
    using assms(1) by (simp add: store_ok_def)
  note get = Recover_get(1)[OF b assms(2), unfolded is_running_def lost_record_def]
  have "op_Status r \<noteq> ''RUNNING''" if "bget (operations t) k = Some (Valid r)" for k r
    using that unfolding get by (auto elim!: map_cell_Valid split: if_splits)
  with get Recover_get(2)[OF b assms(2), unfolded is_running_def[abs_def]] show ?thesis by blast
qed

theorem recovery_closes_running_witness:
  "\<exists>t. RecoverRunningOperations 9 demo_agent = (t, Inr 1) \<and>
     (\<exists>r. bget (operations t) 2 = Some (Valid r) \<and> op_Status r = ''LOST'' \<and> op_FinishedAt r = 9 \<and> \<not> op_Uploaded r) \<and>
     bget (operations t) 1 = Some (Valid (demo_record 1 ''SUCCEEDED''))"
proof -
  obtain t where t: "RecoverRunningOperations 9 demo_agent = (t, Inr 1)"
    by (simp add: RecoverRunningOperations_def db_update_def demo_agent_def bitems_def demo_record_def is_running_def)
  have "bget (operations demo_agent) 2 = Some (Valid (demo_record 2 ''RUNNING''))"
    "bget (operations demo_agent) 1 = Some (Valid (demo_record 1 ''SUCCEEDED''))"
    by (simp_all add: demo_agent_def bget_def)
  with recovery_closes_running[OF demo_agent_ok t] t show ?thesis
    by (auto simp: demo_record_def)
qed

text \<open>C13: A report batch is what a sort of everything eligible would put first: the bounded list the Agent
  keeps while it scans its records ends as the 32 first of all eligible records, terminal results before running ones
  and longest unreported first; a retry is eligible only when its stored parent has been uploaded.\<close>

theorem report_batch_is_sorted_prefix:
  assumes "ReportableOperations now ivl s = Inr batch"
  shows "\<exists>rs. decode_all (bitems (operations s)) = Inr rs \<and>
    batch = take 32 (sort_slice report_less (filter (\<lambda>r. parent_uploaded (operations s) r \<and> reportable now ivl r) rs)) \<and>
    length batch \<le> 32 \<and> sorted_wrt (\<lambda>a b. \<not> report_less b a) batch"
proof -
  from assms obtain rs where rs: "decode_all (bitems (operations s)) = Inr rs"
    and b: "batch = foldl (report_step (operations s) now ivl) [] rs"
    by (auto simp: ReportableOperations_def split: sum.splits)
  have "batch = take 32 (sort_slice report_less (filter (\<lambda>r. parent_uploaded (operations s) r \<and> reportable now ivl r) rs))"
    using report_fold[of "operations s" now ivl "[]" rs] b by (simp add: maxReportsPerBatch_def sort_slice_def)
  with rs show ?thesis
    using sorted_wrt_take[OF report_order.sorted_sort] by auto
qed

theorem report_batch_is_sorted_prefix_witness:
  "\<exists>batch. ReportableOperations 100 0 demo_agent = Inr batch \<and>
     batch = [demo_record 1 ''SUCCEEDED'', demo_record 2 ''RUNNING''] \<and> length batch \<le> 32"
proof -
  have b: "ReportableOperations 100 0 demo_agent = Inr [demo_record 1 ''SUCCEEDED'', demo_record 2 ''RUNNING'']"
    by code_simp
  from report_batch_is_sorted_prefix[OF this] b show ?thesis by auto
qed

end
