(* ===== verification/Agent_Logs.thy ===== *)
theory Agent_Logs
  imports Agent_State "HOL-Library.Sublist"
begin

text \<open>
  The Agent's log of an operation (\<open>internal/agent/logs.go\<close>) and the log entries of the domain
  (\<open>internal/domain/backup_log.go\<close>): appending with a size limit and a reserve for the final events, cutting the
  unacknowledged entries into chunks, and dropping the acknowledged ones. The loop that drops them deletes under a
  cursor while it moves on, and bbolt asks for the cursor to be repositioned after a change: which of the acknowledged
  keys the loop reaches is the parameter \<open>sweep\<close>, about which nothing is assumed.
\<close>

section \<open>Model\<close>

record log_entry =
  le_Sequence :: nat
  le_ObservedAt :: time
  le_Section :: string
  le_Level :: string
  le_Code :: string
  le_FilesDone :: int
  le_BytesDone :: int

definition MaxBackupLogChunkBytes :: nat where
  "MaxBackupLogChunkBytes = 32768"

definition ValidBackupErrorCode :: "string \<Rightarrow> bool" where
  "ValidBackupErrorCode code \<longleftrightarrow> code \<in> {[], ''EXECUTOR_UNAVAILABLE'', ''IDENTITY_UNAVAILABLE'',
     ''CREDENTIAL_UNAVAILABLE'', ''WORKDIR_UNAVAILABLE'', ''CONFIG_INVALID'', ''CANCELED'', ''GATEWAY_SESSION_FAILED'',
     ''GATEWAY_CLEANUP_UNCONFIRMED'', ''GATEWAY_BUSY'', ''INVALID_ENGINE_OUTPUT'', ''PARTIAL_READ'',
     ''GATEWAY_UNAVAILABLE'', ''GATEWAY_RATE_LIMITED'', ''REPOSITORY_LOCKED'', ''WRONG_REPOSITORY_PASSWORD'',
     ''REPOSITORY_MISSING'', ''BACKUP_FAILED'', ''UNKNOWN_EXIT_CODE'', ''STATE_STORAGE_UNAVAILABLE'',
     ''BACKUP_TIMED_OUT'', ''PRE_HOOK_FAILED'', ''POST_HOOK_FAILED'', ''CONFIG_SUPERSEDED'',
     ''LOCAL_OPERATION_RECOVERED'', ''MISFIRE_GRACE_EXCEEDED'', ''CONCURRENCY_SKIPPED'', ''AGENT_REJECTED''}"

definition log_codes :: "string set" where
  "log_codes = {''BACKUP_STARTED'', ''BACKUP_PROGRESS'', ''BACKUP_SUMMARY'', ''BACKUP_SUCCEEDED'',
     ''BACKUP_SUCCEEDED_WITH_WARNINGS'', ''HOOK_STARTED'', ''HOOK_FINISHED'', ''ENGINE_READ_ERROR'', ''LOG_TRUNCATED''}"

text \<open>\<open>BackupLogEntry.Validate\<close>: true for no error.\<close>

definition entry_Validate :: "log_entry \<Rightarrow> bool" where
  "entry_Validate e =
     (if le_Sequence e = 0 \<or> le_Sequence e > 4611686018427387904 \<or> is_zero (le_ObservedAt e)
         \<or> le_FilesDone e < 0 \<or> le_BytesDone e < 0 then False
      else if le_Section e \<noteq> ''backup'' \<and> le_Section e \<noteq> ''pre_hook'' \<and> le_Section e \<noteq> ''post_hook''
         \<and> le_Section e \<noteq> ''agent'' then False
      else if le_Level e \<noteq> ''INFO'' \<and> le_Level e \<noteq> ''WARN'' \<and> le_Level e \<noteq> ''ERROR'' then False
      else if le_Code e \<in> log_codes then True
      else le_Code e \<noteq> [] \<and> ValidBackupErrorCode (le_Code e))"

definition entry_json :: "log_entry \<Rightarrow> string" where
  "entry_json e = json_object
     [(''sequence'', Some (itoa (int (le_Sequence e)))),
      (''observed_at'', Some (json_string (rfc3339nano (le_ObservedAt e)))),
      (''section'', Some (json_string (le_Section e))),
      (''level'', Some (json_string (le_Level e))),
      (''code'', Some (json_string (le_Code e))),
      (''files_done'', Some (itoa (le_FilesDone e))),
      (''bytes_done'', Some (itoa (le_BytesDone e)))]"

definition zero_log :: log_state where
  "zero_log = \<lparr>lg_Next = 0, lg_Ack = 0, lg_Bytes = 0, lg_Limit = 0, lg_Truncated = False, lg_Critical = [],
     lg_SentThrough = 0, lg_LastSentAt = 0\<rparr>"

definition empty_log :: operation_log where
  "empty_log = \<lparr>ol_meta = None, ol_entries = []\<rparr>"

subsection \<open>Appending\<close>

text \<open>The limit of a log: chosen at its first entry from the active policy, kept from then on.\<close>

definition log_limit :: "agent \<Rightarrow> log_state \<Rightarrow> nat" where
  "log_limit s meta =
     (if lg_Limit meta = 0 then
        (let l = (case desired_active s of
                    Some (Valid d) \<Rightarrow> LogLimitBytes (ds_RuntimePolicy d)
                  | _ \<Rightarrow> DefaultLogLimitBytes)
         in if l < 65536 \<or> l > DefaultLogLimitBytes then DefaultLogLimitBytes else l)
      else lg_Limit meta)"

definition store_entry :: "operation_log \<Rightarrow> log_state \<Rightarrow> log_entry \<Rightarrow> bool \<Rightarrow> string \<Rightarrow> operation_log" where
  "store_entry l meta e critical key =
     \<lparr>ol_meta = Some (Valid (meta\<lparr>lg_Next := le_Sequence e,
         lg_Bytes := u64_add (lg_Bytes meta) (length (entry_json e)),
         lg_Critical := (if critical then List.insert key (lg_Critical meta) else lg_Critical meta)\<rparr>)),
      ol_entries = bput (ol_entries l) (le_Sequence e) (entry_json e)\<rparr>"

text \<open>Appending to one log: \<open>Inr None\<close> when the entry is dropped without an error.\<close>

definition append_log :: "nat \<Rightarrow> operation_log \<Rightarrow> log_state \<Rightarrow> log_entry \<Rightarrow> store_error + operation_log option" where
  "append_log limit l meta0 entry =
     (let e = entry\<lparr>le_Sequence := u64_add (lg_Next meta0) 1\<rparr>;
          critical = (le_Code e \<noteq> ''BACKUP_PROGRESS'');
          key = le_Section e @ '':'' @ le_Code e;
          meta = meta0\<lparr>lg_Limit := limit\<rparr>
      in if \<not> entry_Validate e then Inl (OtherError ''invalid local log entry'')
         else if critical \<and> key \<in> set (lg_Critical meta0) then Inr None
         else if \<not> critical \<and> (lg_Truncated meta \<or> u64_add (lg_Bytes meta) (length (entry_json e)) > u64_sub limit 16384)
         then
           (if lg_Truncated meta then Inr None
            else
              (let e' = e\<lparr>le_Code := ''LOG_TRUNCATED'', le_Level := ''WARN''\<rparr>;
                   meta' = meta\<lparr>lg_Truncated := True\<rparr>
               in if u64_add (lg_Bytes meta') (length (entry_json e')) > limit
                  then Inl (OtherError ''local log limit exceeded'')
                  else Inr (Some (store_entry l meta' e' critical key))))
         else if u64_add (lg_Bytes meta) (length (entry_json e)) > limit
         then Inl (OtherError ''local log limit exceeded'')
         else Inr (Some (store_entry l meta e critical key)))"

definition appendOperationLog :: "uuid \<Rightarrow> log_entry \<Rightarrow> agent \<Rightarrow> agent \<times> (store_error + unit)" where
  "appendOperationLog i entry s = db_update (\<lambda>s.
     if bget (operations s) i = None then Inl (OtherError ''log operation is unavailable'')
     else
       (let l = (case bget (operation_logs s) i of None \<Rightarrow> empty_log | Some l \<Rightarrow> l)
        in case (case ol_meta l of None \<Rightarrow> Inr zero_log | Some Malformed \<Rightarrow> Inl DecodeFailed | Some (Valid m) \<Rightarrow> Inr m) of
          Inl e \<Rightarrow> Inl e
        | Inr meta \<Rightarrow>
            (case append_log (log_limit s meta) l meta entry of
               Inl e \<Rightarrow> Inl e
             | Inr None \<Rightarrow> Inr (s, ())
             | Inr (Some l') \<Rightarrow> Inr (s\<lparr>operation_logs := bput (operation_logs s) i l'\<rparr>, ())))) s"

definition operationLog ::
    "time \<Rightarrow> uuid \<Rightarrow> string \<Rightarrow> string \<Rightarrow> string \<Rightarrow> int \<Rightarrow> int \<Rightarrow> agent \<Rightarrow> agent \<times> (store_error + unit)" where
  "operationLog now i sect level code files bytes s =
     appendOperationLog i \<lparr>le_Sequence = 0, le_ObservedAt = now, le_Section = sect, le_Level = level, le_Code = code,
       le_FilesDone = files, le_BytesDone = bytes\<rparr> s"

subsection \<open>Sending\<close>

record log_chunk =
  ck_OperationID :: uuid
  ck_First :: nat
  ck_Last :: nat
  ck_JSON :: string

fun chunk_loop :: "nat \<Rightarrow> (nat \<times> string) list \<Rightarrow> nat \<Rightarrow> string \<Rightarrow> nat \<times> string" where
  "chunk_loop first [] lst json = (lst, json)"
| "chunk_loop first ((k, v) # rest) lst json =
     (if length json + length v + 2 > MaxBackupLogChunkBytes \<or> lst \<ge> first + 199 then (lst, json)
      else chunk_loop first rest k ((if lst \<noteq> 0 then json @ '','' else json) @ v))"

text \<open>The chunk of one operation, \<open>None\<close> when it has nothing to send.\<close>

definition operation_chunk ::
    "time \<Rightarrow> bool \<Rightarrow> agent \<Rightarrow> uuid \<Rightarrow> operation_log \<Rightarrow> store_error + log_chunk option" where
  "operation_chunk now force s i l =
     (case bget (operations s) i of
        Some (Valid op) \<Rightarrow>
          if Terminal op \<and> \<not> op_Uploaded op then Inr None
          else if \<not> Terminal op \<and> is_zero (op_LastReportedAt op) then Inr None
          else
            (case ol_meta l of
               Some (Valid meta) \<Rightarrow>
                 if lg_Ack meta \<ge> lg_Next meta \<or> \<not> force \<and> time_sub now (lg_LastSentAt meta) < resultRetryInterval
                 then Inr None
                 else
                   (case chunk_loop (lg_Ack meta + 1)
                       (dropWhile (\<lambda>(k, v). k < lg_Ack meta + 1) (bitems (ol_entries l))) 0 ''['' of
                      (lst, json) \<Rightarrow>
                        if lst = 0 then Inr None
                        else Inr (Some \<lparr>ck_OperationID = i, ck_First = lg_Ack meta + 1, ck_Last = lst, ck_JSON = json @ '']''\<rparr>))
             | _ \<Rightarrow> Inl DecodeFailed)
      | _ \<Rightarrow> Inl (OtherError ''log operation missing''))"

fun chunks_from ::
    "time \<Rightarrow> bool \<Rightarrow> agent \<Rightarrow> (uuid \<times> operation_log) list \<Rightarrow> log_chunk list \<Rightarrow> store_error + log_chunk list" where
  "chunks_from now force s [] chunks = Inr chunks"
| "chunks_from now force s ((i, l) # rest) chunks =
     (if length chunks \<ge> 8 then chunks_from now force s rest chunks
      else case operation_chunk now force s i l of
        Inl e \<Rightarrow> Inl e
      | Inr None \<Rightarrow> chunks_from now force s rest chunks
      | Inr (Some c) \<Rightarrow> chunks_from now force s rest (chunks @ [c]))"

definition pendingLogs :: "time \<Rightarrow> bool \<Rightarrow> agent \<Rightarrow> store_error + log_chunk list" where
  "pendingLogs now force s = chunks_from now force s (bitems (operation_logs s)) []"

subsection \<open>Acknowledging\<close>

definition updateLogState ::
    "uuid \<Rightarrow> (operation_log \<Rightarrow> log_state \<Rightarrow> store_error + ((nat \<times> string) list \<times> log_state)) \<Rightarrow> agent
     \<Rightarrow> agent \<times> (store_error + unit)" where
  "updateLogState i update s = db_update (\<lambda>s.
     case bget (operation_logs s) i of
       None \<Rightarrow> Inl (OtherError ''unknown log operation'')
     | Some l \<Rightarrow>
         (case ol_meta l of
            Some (Valid meta) \<Rightarrow>
              (case update l meta of
                 Inl e \<Rightarrow> Inl e
               | Inr (entries, meta') \<Rightarrow>
                   Inr (s\<lparr>operation_logs := bput (operation_logs s) i
                     \<lparr>ol_meta = Some (Valid meta'), ol_entries = entries\<rparr>\<rparr>, ()))
          | _ \<Rightarrow> Inl DecodeFailed)) s"

definition markLogsSent :: "uuid \<Rightarrow> nat \<Rightarrow> time \<Rightarrow> agent \<Rightarrow> agent \<times> (store_error + unit)" where
  "markLogsSent i through now s = updateLogState i (\<lambda>l meta.
     if through > lg_Next meta then Inl (OtherError ''invalid log send'')
     else Inr (ol_entries l, meta\<lparr>lg_SentThrough := through, lg_LastSentAt := now\<rparr>)) s"

text \<open>\<open>sweep through entries k\<close>: whether the loop over \<open>entries\<close> that stops after \<open>through\<close> reaches the key \<open>k\<close>.\<close>

type_synonym sweep = "nat \<Rightarrow> (nat \<times> string) list \<Rightarrow> nat \<Rightarrow> bool"

definition acknowledgeLogs :: "sweep \<Rightarrow> uuid \<Rightarrow> nat \<Rightarrow> agent \<Rightarrow> agent \<times> (store_error + unit)" where
  "acknowledgeLogs sweep i through s = updateLogState i (\<lambda>l meta.
     if through > lg_SentThrough meta \<or> through > lg_Next meta then Inl (OtherError ''invalid log acknowledgement'')
     else if through \<le> lg_Ack meta then Inr (ol_entries l, meta)
     else Inr (filter (\<lambda>(k, v). \<not> (k \<le> through \<and> sweep through (ol_entries l) k)) (ol_entries l),
       meta\<lparr>lg_Ack := through, lg_LastSentAt := 0\<rparr>)) s"

subsection \<open>Histories\<close>

datatype log_op = Append uuid log_entry | Sent uuid nat time | Acked sweep uuid nat

fun log_step :: "agent \<Rightarrow> log_op \<Rightarrow> agent" where
  "log_step s (Append i e) = fst (appendOperationLog i e s)"
| "log_step s (Sent i through now) = fst (markLogsSent i through now s)"
| "log_step s (Acked sweep i through) = fst (acknowledgeLogs sweep i through s)"

section \<open>Invariant\<close>

text \<open>
  The entries stored after the acknowledged sequence are numbered without a gap up to the last one given out (an entry
  at or before it is one the loop of an acknowledgement did not reach), the bytes counted cover all stored payloads and
  stay within the limit.
\<close>

definition log_ok :: "operation_log \<Rightarrow> bool" where
  "log_ok l \<longleftrightarrow> (\<exists>m. ol_meta l = Some (Valid m) \<and> bsorted (ol_entries l) \<and>
     map fst (filter (\<lambda>(k, v). lg_Ack m < k) (ol_entries l)) = [Suc (lg_Ack m)..<Suc (lg_Next m)] \<and>
     lg_Ack m \<le> lg_Next m \<and> lg_SentThrough m \<le> lg_Next m \<and> lg_Next m \<le> 4611686018427387904 \<and>
     sum_list (map (length \<circ> snd) (ol_entries l)) \<le> lg_Bytes m \<and> lg_Bytes m \<le> lg_Limit m \<and>
     65536 \<le> lg_Limit m \<and> lg_Limit m \<le> DefaultLogLimitBytes)"

definition logs_ok :: "agent \<Rightarrow> bool" where
  "logs_ok s \<longleftrightarrow> bsorted (operation_logs s) \<and> (\<forall>i l. bget (operation_logs s) i = Some l \<longrightarrow> log_ok l)"

section \<open>Sizes\<close>

lemma rune_len_le: "rune_len s \<le> length s"
  by (cases s rule: rune_len.cases) (auto split: list.splits)

lemma length_json_byte: "length (json_byte c) \<le> 6"
  by (simp add: json_byte_def)

lemma length_json_rune: "length (json_rune n s) \<le> 6 * max 1 n"
  using length_json_byte[of "hd s"] by (auto simp: json_rune_def)

lemma length_json_chars: "length (json_chars s) \<le> 6 * length s"
proof (induction s rule: json_chars.induct)
  case (2 a s)
  let ?n = "max 1 (rune_len (a # s))"
  have "length (json_chars (a # s)) \<le> 6 * ?n + 6 * (length (a # s) - ?n)"
    using 2 length_json_rune[of "rune_len (a # s)" "a # s"] by (simp del: rune_len.simps)
  also have "\<dots> = 6 * length (a # s)"
    using rune_len_le[of "a # s"] by (simp del: rune_len.simps)
  finally show ?case .
qed simp

lemma length_json_string: "length (json_string s) \<le> 6 * length s + 2"
  using length_json_chars[of s] by (simp add: json_string_def)

lemma length_dec_digits [simp]: "length (dec_digits n v) = n"
  by (induction n arbitrary: v) auto

lemma length_nat_digits: "n < 10 ^ Suc k \<Longrightarrow> length (nat_digits n) \<le> Suc k"
proof (induction k arbitrary: n)
  case (Suc k)
  then have "n div 10 < 10 ^ Suc k"
    by (simp add: less_mult_imp_div_less mult.commute)
  with Suc.IH[of "n div 10"] show ?case
    by (simp add: nat_digits.simps[of n])
qed (simp add: nat_digits.simps)

lemma length_itoa: "min_int64 \<le> v \<Longrightarrow> v \<le> max_int64 \<Longrightarrow> length (itoa v) \<le> 20"
proof -
  assume v: "min_int64 \<le> v" "v \<le> max_int64"
  have "nat v < 10 ^ Suc 18" "nat (- v) < 10 ^ Suc 18"
    using v by (auto simp: nat_less_iff min_int64_def max_int64_def)
  from this[THEN length_nat_digits] show ?thesis
    by (auto simp: itoa_def)
qed

lemma length_rfc3339nano: "length (rfc3339nano t) \<le> 40"
proof -
  have "length (dropWhile (\<lambda>c. c = CHR ''0'') (rev (dec_digits 9 (nat (t mod 1000000000))))) \<le> 9"
    using length_dropWhile_le[of "\<lambda>c. c = CHR ''0''" "rev (dec_digits 9 (nat (t mod 1000000000)))"] by simp
  moreover have "length (rfc3339 t) = 20"
    by (simp add: rfc3339_def Let_def split: prod.splits)
  ultimately show ?thesis
    by (simp add: rfc3339nano_def Let_def)
qed

text \<open>The counters of an entry are \<open>int64\<close>.\<close>

definition entry_int64 :: "log_entry \<Rightarrow> bool" where
  "entry_int64 e \<longleftrightarrow> le_FilesDone e \<le> max_int64 \<and> le_BytesDone e \<le> max_int64"

lemma length_log_code: "code \<in> log_codes \<Longrightarrow> length code \<le> 40"
  by (auto simp: log_codes_def)

lemma length_error_code: "ValidBackupErrorCode code \<Longrightarrow> length code \<le> 40"
  by (auto simp: ValidBackupErrorCode_def)

lemma entry_words:
  assumes "entry_Validate e"
  shows "length (le_Section e) \<le> 9" "length (le_Level e) \<le> 5" "length (le_Code e) \<le> 40"
proof -
  show "length (le_Section e) \<le> 9"
    using assms unfolding entry_Validate_def
    by (cases "le_Section e \<in> {''backup'', ''pre_hook'', ''post_hook'', ''agent''}") (auto split: if_split_asm)
  show "length (le_Level e) \<le> 5"
    using assms unfolding entry_Validate_def
    by (cases "le_Level e \<in> {''INFO'', ''WARN'', ''ERROR''}") (auto split: if_split_asm)
  show "length (le_Code e) \<le> 40"
    using assms length_log_code[of "le_Code e"] length_error_code[of "le_Code e"] unfolding entry_Validate_def
    by (simp split: if_split_asm)
qed

lemma length_entry_json:
  assumes "length (le_Section e) \<le> 9" "length (le_Level e) \<le> 5" "length (le_Code e) \<le> 40"
    and "le_Sequence e \<le> 4611686018427387904" "0 \<le> le_FilesDone e" "0 \<le> le_BytesDone e" "entry_int64 e"
  shows "length (entry_json e) < 2000"
proof -
  have i: "length (itoa (int (le_Sequence e))) \<le> 20" "length (itoa (le_FilesDone e)) \<le> 20"
    "length (itoa (le_BytesDone e)) \<le> 20"
    using assms by (auto intro!: length_itoa simp: min_int64_def max_int64_def entry_int64_def)
  have k: "length (json_string ''sequence'') \<le> 50" "length (json_string ''observed_at'') \<le> 68"
    "length (json_string ''section'') \<le> 44" "length (json_string ''level'') \<le> 32"
    "length (json_string ''code'') \<le> 26" "length (json_string ''files_done'') \<le> 62"
    "length (json_string ''bytes_done'') \<le> 62"
    by (rule order.trans[OF length_json_string], simp)+
  have v: "length (json_string (rfc3339nano (le_ObservedAt e))) \<le> 242"
    "length (json_string (le_Section e)) \<le> 56" "length (json_string (le_Level e)) \<le> 32"
    "length (json_string (le_Code e)) \<le> 242"
    using length_json_string[of "rfc3339nano (le_ObservedAt e)"] length_rfc3339nano[of "le_ObservedAt e"]
      length_json_string[of "le_Section e"] length_json_string[of "le_Level e"] length_json_string[of "le_Code e"] assms(1-3)
    by linarith+
  show ?thesis
    using i k v by (simp add: entry_json_def json_object_def)
qed

section \<open>The invariant is kept\<close>

definition log_base :: "operation_log \<Rightarrow> log_state \<Rightarrow> nat \<Rightarrow> bool" where
  "log_base l m limit \<longleftrightarrow> bsorted (ol_entries l) \<and>
     map fst (filter (\<lambda>(k, v). lg_Ack m < k) (ol_entries l)) = [Suc (lg_Ack m)..<Suc (lg_Next m)] \<and>
     lg_Ack m \<le> lg_Next m \<and> lg_SentThrough m \<le> lg_Next m \<and> lg_Next m \<le> 4611686018427387904 \<and>
     sum_list (map (length \<circ> snd) (ol_entries l)) \<le> lg_Bytes m \<and> lg_Bytes m \<le> limit \<and>
     65536 \<le> limit \<and> limit \<le> DefaultLogLimitBytes"

lemma log_ok_base: "log_ok l \<longleftrightarrow> (\<exists>m. ol_meta l = Some (Valid m) \<and> log_base l m (lg_Limit m))"
  by (simp add: log_ok_def log_base_def)

lemma log_base_keys:
  assumes "log_base l m limit" "k \<in> set (map fst (ol_entries l))"
  shows "k \<le> lg_Next m"
proof (rule ccontr)
  assume k: "\<not> k \<le> lg_Next m"
  have ack: "lg_Ack m \<le> lg_Next m" and keys: "map fst (filter (\<lambda>(k, v). lg_Ack m < k) (ol_entries l)) = [Suc (lg_Ack m)..<Suc (lg_Next m)]"
    using assms(1) by (simp_all only: log_base_def)
  have "k \<in> set (map fst (filter (\<lambda>(k, v). lg_Ack m < k) (ol_entries l)))"
    using assms(2) k ack by (force simp: image_iff)
  then have "k < Suc (lg_Next m)"
    unfolding keys by (simp only: set_upt atLeastLessThan_iff)
  with k show False by simp
qed

lemma bput_above: "\<forall>k' \<in> set (map fst b). k' < k \<Longrightarrow> bput b k v = b @ [(k, v)]"
  by (induction b k v rule: bput.induct) auto

lemma store_entry_ok:
  assumes base: "log_base l m limit" and seq: "le_Sequence e = Suc (lg_Next m)"
    and top: "le_Sequence e \<le> 4611686018427387904"
    and len: "length (entry_json e) < 2000" and lim: "lg_Limit m = limit"
    and fit: "\<not> u64_add (lg_Bytes m) (length (entry_json e)) > limit"
  shows "log_ok (store_entry l m e critical key)"
proof -
  have put: "bput (ol_entries l) (le_Sequence e) (entry_json e) = ol_entries l @ [(le_Sequence e, entry_json e)]"
    using log_base_keys[OF base] seq by (intro bput_above) (simp add: less_Suc_eq_le)
  have add: "u64_add (lg_Bytes m) (length (entry_json e)) = lg_Bytes m + length (entry_json e)"
    using base len by (intro u64_add_small) (auto simp: log_base_def DefaultLogLimitBytes_def)
  have "bsorted (ol_entries l @ [(le_Sequence e, entry_json e)])"
    using base bsorted_bput[of "ol_entries l" "le_Sequence e" "entry_json e"] put by (simp add: log_base_def)
  then show ?thesis
    using base seq top fit lim unfolding log_ok_def store_entry_def put add
    by (auto simp: log_base_def)
qed

lemma append_log_ok:
  assumes base: "log_base l m limit" and app: "append_log limit l m entry = Inr (Some l')" and i64: "entry_int64 entry"
  shows "log_ok l'"
proof -
  define e where "e = entry\<lparr>le_Sequence := u64_add (lg_Next m) 1\<rparr>"
  define e' where "e' = e\<lparr>le_Code := ''LOG_TRUNCATED'', le_Level := ''WARN''\<rparr>"
  have seq: "u64_add (lg_Next m) 1 = Suc (lg_Next m)"
    using base by (simp add: u64_add_small log_base_def)
  have val: "entry_Validate e"
    using app by (auto simp: append_log_def Let_def e_def split: if_splits)
  then have e: "le_Sequence e \<le> 4611686018427387904" "0 \<le> le_FilesDone e" "0 \<le> le_BytesDone e"
    by (auto simp: entry_Validate_def split: if_splits)
  have words: "length (le_Section e) \<le> 9" "length (le_Level e) \<le> 5" "length (le_Code e) \<le> 40"
    using entry_words[OF val] by simp_all
  have s: "le_Sequence e = Suc (lg_Next m)" "le_Sequence e' = Suc (lg_Next m)"
    using seq by (simp_all add: e_def e'_def)
  have len: "length (entry_json e) < 2000" "length (entry_json e') < 2000"
    using words e i64 by (auto intro!: length_entry_json simp: entry_int64_def e'_def e_def)
  have b: "log_base l (m\<lparr>lg_Limit := limit\<rparr>) limit" "log_base l (m\<lparr>lg_Limit := limit, lg_Truncated := True\<rparr>) limit"
    using base by (simp_all add: log_base_def)
  from app consider
      "l' = store_entry l (m\<lparr>lg_Limit := limit\<rparr>) e (le_Code e \<noteq> ''BACKUP_PROGRESS'') (le_Section e @ '':'' @ le_Code e)"
      "\<not> u64_add (lg_Bytes m) (length (entry_json e)) > limit"
    | "l' = store_entry l (m\<lparr>lg_Limit := limit, lg_Truncated := True\<rparr>) e' (le_Code e \<noteq> ''BACKUP_PROGRESS'') (le_Section e @ '':'' @ le_Code e)"
      "\<not> u64_add (lg_Bytes m) (length (entry_json e')) > limit"
    unfolding append_log_def Let_def e_def[symmetric] e'_def[symmetric]
    by (auto split: if_splits)
  then show ?thesis
  proof cases
    case 1
    show ?thesis unfolding 1(1) by (rule store_entry_ok[OF b(1)]) (use s e len 1(2) in auto)
  next
    case 2
    show ?thesis unfolding 2(1) by (rule store_entry_ok[OF b(2)]) (use s e len 2(2) in auto)
  qed
qed

lemma logs_ok_put: "logs_ok s \<Longrightarrow> log_ok l \<Longrightarrow> logs_ok (s\<lparr>operation_logs := bput (operation_logs s) i l\<rparr>)"
  by (auto simp: logs_ok_def bucket_simps split: if_splits)

lemma logs_ok_update:
  assumes "logs_ok s" "\<And>t u x. logs_ok t \<Longrightarrow> body t = Inr (u, x) \<Longrightarrow> logs_ok u"
  shows "logs_ok (fst (db_update body s))"
  by (rule db_update_inv[where P = logs_ok, OF assms(1) _ assms(2)]) (simp_all add: logs_ok_def)

lemma log_limit_range: "65536 \<le> log_limit s zero_log \<and> log_limit s zero_log \<le> DefaultLogLimitBytes"
  by (auto simp: log_limit_def zero_log_def Let_def DefaultLogLimitBytes_def split: option.splits cell.splits)

lemma log_base_zero: "log_base empty_log zero_log (log_limit s zero_log)"
  using log_limit_range[of s] by (simp add: log_base_def empty_log_def zero_log_def)

lemma appendOperationLog_ok:
  assumes "logs_ok s" "entry_int64 entry"
  shows "logs_ok (fst (appendOperationLog i entry s))"
  unfolding appendOperationLog_def
proof (rule logs_ok_update[OF assms(1)], goal_cases)
  case (1 t u x)
  show ?case
  proof (cases "bget (operation_logs t) i")
    case None
    have "log_ok l'" if "append_log (log_limit t zero_log) empty_log zero_log entry = Inr (Some l')" for l'
      using append_log_ok[OF log_base_zero that assms(2)] .
    with 1 None show ?thesis
      by (auto simp: empty_log_def split: if_splits sum.splits option.splits intro: logs_ok_put)
  next
    case (Some l)
    then obtain m where m: "ol_meta l = Some (Valid m)" "log_base l m (lg_Limit m)"
      using 1(1) by (auto simp: logs_ok_def log_ok_base)
    then have lim: "log_limit t m = lg_Limit m"
      by (auto simp: log_limit_def log_base_def)
    have "log_ok l'" if "append_log (lg_Limit m) l m entry = Inr (Some l')" for l'
      using append_log_ok[OF m(2) that assms(2)] .
    with 1 Some m lim show ?thesis
      by (auto split: if_splits sum.splits option.splits intro: logs_ok_put)
  qed
qed

lemma updateLogState_ok:
  assumes "logs_ok s"
    and "\<And>l m es m'. log_ok l \<Longrightarrow> ol_meta l = Some (Valid m) \<Longrightarrow> f l m = Inr (es, m') \<Longrightarrow>
      log_ok \<lparr>ol_meta = Some (Valid m'), ol_entries = es\<rparr>"
  shows "logs_ok (fst (updateLogState i f s))"
  unfolding updateLogState_def
proof (rule logs_ok_update[OF assms(1)], goal_cases)
  case (1 t u x)
  then obtain l m es m' where l: "bget (operation_logs t) i = Some l" "ol_meta l = Some (Valid m)"
    "f l m = Inr (es, m')" and u: "u = t\<lparr>operation_logs := bput (operation_logs t) i \<lparr>ol_meta = Some (Valid m'), ol_entries = es\<rparr>\<rparr>"
    by (auto split: option.splits cell.splits sum.splits)
  with 1(1) assms(2)[of l m es m'] show ?case
    unfolding u by (intro logs_ok_put) (auto simp: logs_ok_def)
qed

lemma markLogsSent_ok: "logs_ok s \<Longrightarrow> logs_ok (fst (markLogsSent i through now s))"
  unfolding markLogsSent_def by (rule updateLogState_ok) (auto simp: log_ok_def split: if_splits)

lemma filter_upt: "a \<le> b \<Longrightarrow> b \<le> c \<Longrightarrow> filter (\<lambda>k. \<not> k \<le> b) [Suc a..<Suc c] = [Suc b..<Suc c]"
proof (induction c)
  case (Suc c)
  show ?case
  proof (cases "b = Suc c")
    case True
    then show ?thesis by (auto simp: filter_empty_conv)
  next
    case False
    with Suc have "filter (\<lambda>k. \<not> k \<le> b) [Suc a..<Suc c] = [Suc b..<Suc c]" by simp
    with Suc.prems False show ?thesis by (simp del: upt_Suc add: upt_Suc_append)
  qed
qed simp

lemma sum_filter_le: "sum_list (map (length \<circ> snd) (filter P es)) \<le> sum_list (map (length \<circ> snd) es)"
  by (induction es) auto

lemma swept_ok:
  assumes "log_ok l" "ol_meta l = Some (Valid m)" "lg_Ack m < through" "through \<le> lg_Next m"
  shows "log_ok \<lparr>ol_meta = Some (Valid (m\<lparr>lg_Ack := through, lg_LastSentAt := 0\<rparr>)),
    ol_entries = filter (\<lambda>(k, v). \<not> (k \<le> through \<and> reached k)) (ol_entries l)\<rparr>"
proof -
  let ?es = "filter (\<lambda>(k, v). \<not> (k \<le> through \<and> reached k)) (ol_entries l)"
  have base: "log_base l m (lg_Limit m)"
    using assms(1,2) by (auto simp: log_ok_base)
  have "filter (\<lambda>(k, v). through < k) ?es = filter (\<lambda>(k, v). \<not> k \<le> through) (filter (\<lambda>(k, v). lg_Ack m < k) (ol_entries l))"
    unfolding filter_filter using assms(3) by (intro filter_cong) auto
  then have "map fst (filter (\<lambda>(k, v). through < k) ?es) =
      filter (\<lambda>k. \<not> k \<le> through) (map fst (filter (\<lambda>(k, v). lg_Ack m < k) (ol_entries l)))"
    by (simp add: filter_map comp_def split_def)
  also have "\<dots> = [Suc through..<Suc (lg_Next m)]"
    using base assms(3,4) filter_upt[of "lg_Ack m" through "lg_Next m"] by (simp only: log_base_def)
  finally have keys: "map fst (filter (\<lambda>(k, v). through < k) ?es) = [Suc through..<Suc (lg_Next m)]" .
  have "bsorted ?es"
    using base by (simp add: log_base_def bsorted_def sorted_wrt_map sorted_wrt_filter)
  with base keys assms(3,4) sum_filter_le[of "\<lambda>(k, v). \<not> (k \<le> through \<and> reached k)" "ol_entries l"] show ?thesis
    by (auto simp del: upt_Suc simp: log_ok_def log_base_def)
qed

lemma acknowledgeLogs_ok:
  assumes "logs_ok s"
  shows "logs_ok (fst (acknowledgeLogs sweep i through s))"
  unfolding acknowledgeLogs_def
proof (rule updateLogState_ok[OF assms(1)])
  fix l m es m'
  assume l: "log_ok l" "ol_meta l = Some (Valid m)"
    and "(if through > lg_SentThrough m \<or> through > lg_Next m then Inl (OtherError ''invalid log acknowledgement'')
      else if through \<le> lg_Ack m then Inr (ol_entries l, m)
      else Inr (filter (\<lambda>(k, v). \<not> (k \<le> through \<and> sweep through (ol_entries l) k)) (ol_entries l),
        m\<lparr>lg_Ack := through, lg_LastSentAt := 0\<rparr>)) = Inr (es, m')"
  then consider "es = ol_entries l" "m' = m"
    | "lg_Ack m < through" "through \<le> lg_Next m"
      "es = filter (\<lambda>(k, v). \<not> (k \<le> through \<and> sweep through (ol_entries l) k)) (ol_entries l)"
      "m' = m\<lparr>lg_Ack := through, lg_LastSentAt := 0\<rparr>"
    by (auto split: if_splits)
  then show "log_ok \<lparr>ol_meta = Some (Valid m'), ol_entries = es\<rparr>"
  proof cases
    case 1
    with l have "l = \<lparr>ol_meta = Some (Valid m'), ol_entries = es\<rparr>" by simp
    with l show ?thesis by simp
  next
    case 2
    show ?thesis unfolding 2(3,4) by (rule swept_ok[OF l 2(1,2)])
  qed
qed

fun op_int64 :: "log_op \<Rightarrow> bool" where
  "op_int64 (Append i e) = entry_int64 e"
| "op_int64 _ = True"

lemma log_step_ok: "logs_ok s \<Longrightarrow> op_int64 a \<Longrightarrow> logs_ok (log_step s a)"
  by (cases a) (auto intro: appendOperationLog_ok markLogsSent_ok acknowledgeLogs_ok)

lemma log_steps_ok:
  "logs_ok s \<Longrightarrow> list_all op_int64 ops \<Longrightarrow> logs_ok (foldl log_step s ops)"
  by (induction ops arbitrary: s) (auto intro: log_step_ok)

section \<open>Chunks\<close>

lemma json_commas_snoc: "json_commas (xs @ [x]) = (if xs = [] then x else json_commas xs @ '','' @ x)"
proof (induction xs rule: json_commas.induct)
  case (3 x y xs)
  then show ?case by simp
qed simp_all

text \<open>What the loop has taken when it stops: a prefix of the entries, as an unclosed JSON array.\<close>

definition taken :: "nat \<Rightarrow> (nat \<times> string) list \<Rightarrow> nat \<times> string \<Rightarrow> bool" where
  "taken first ps r \<longleftrightarrow> r = ((if ps = [] then 0 else fst (last ps)), ''['' @ json_commas (map snd ps)) \<and>
     length (snd r) < MaxBackupLogChunkBytes \<and> (ps \<noteq> [] \<longrightarrow> fst (last ps) \<le> first + 199)"

lemma taken_snoc:
  assumes t: "taken first ps (lst, json)" and pos: "\<forall>k \<in> set (map fst ps). 0 < k"
    and nxt: "k = (if ps = [] then first else Suc (fst (last ps)))"
    and go: "\<not> (length json + length v + 2 > MaxBackupLogChunkBytes \<or> lst \<ge> first + 199)"
  shows "taken first (ps @ [(k, v)]) (k, (if lst \<noteq> 0 then json @ '','' else json) @ v)"
proof (cases "ps = []")
  case True
  with assms show ?thesis by (auto simp: taken_def)
next
  case False
  then have "lst \<noteq> 0"
    using t pos last_in_set[of ps] by (auto simp: taken_def)
  with assms False show ?thesis
    by (auto simp: taken_def json_commas_snoc)
qed

lemma chunk_loop_taken:
  assumes "map fst (ps @ es) = [first..<n]" "0 < first" "taken first ps (lst, json)"
  shows "\<exists>ps'. prefix ps' (ps @ es) \<and> taken first ps' (chunk_loop first es lst json)"
  using assms
proof (induction es arbitrary: ps lst json)
  case (Cons kv es)
  obtain k v where kv: "kv = (k, v)" by (cases kv)
  show ?case
  proof (cases "length json + length v + 2 > MaxBackupLogChunkBytes \<or> lst \<ge> first + 199")
    case True
    with Cons.prems(3) kv show ?thesis by (intro exI[of _ ps]) auto
  next
    case False
    have len: "length ps < n - first"
      using arg_cong[OF Cons.prems(1), of length] by simp
    have nth: "map fst (ps @ kv # es) ! length ps = first + length ps"
      using Cons.prems(1) len by (simp add: nth_upt)
    have k: "k = first + length ps"
      using nth kv by (simp add: nth_append)
    have lst: "fst (last ps) = first + (length ps - 1)" if "ps \<noteq> []"
    proof -
      have "map fst (ps @ kv # es) ! (length ps - 1) = first + (length ps - 1)"
        using Cons.prems(1) len by (simp add: nth_upt)
      with that show ?thesis by (simp add: nth_append last_conv_nth)
    qed
    have pos: "\<forall>k \<in> set (map fst ps). 0 < k"
    proof -
      have "set (map fst ps) \<subseteq> set [first..<n]"
        using Cons.prems(1) by (metis map_append set_append sup_ge1)
      with Cons.prems(2) show ?thesis by auto
    qed
    have "taken first (ps @ [(k, v)]) (k, (if lst \<noteq> 0 then json @ '','' else json) @ v)"
      using Cons.prems(3) pos k lst False by (intro taken_snoc) auto
    from Cons.IH[OF _ Cons.prems(2) this] Cons.prems(1) kv False show ?thesis
      by simp
  qed
qed (auto intro: exI[of _ ps])

text \<open>What the log protocol promises about a chunk.\<close>

definition chunk_ok :: "agent \<Rightarrow> log_chunk \<Rightarrow> bool" where
  "chunk_ok s c \<longleftrightarrow> (\<exists>l m. bget (operation_logs s) (ck_OperationID c) = Some l \<and> ol_meta l = Some (Valid m) \<and>
     ck_First c = Suc (lg_Ack m) \<and> ck_First c \<le> ck_Last c \<and> ck_Last c \<le> lg_Next m \<and> ck_Last c \<le> ck_First c + 199 \<and>
     ck_JSON c = json_array (map snd (filter (\<lambda>(k, v). ck_First c \<le> k \<and> k \<le> ck_Last c) (ol_entries l))) \<and>
     length (ck_JSON c) \<le> MaxBackupLogChunkBytes)"

lemma sorted_prefix_filter:
  assumes "bsorted es" "prefix ps es" "ps \<noteq> []"
  shows "filter (\<lambda>(k, v). k \<le> fst (last ps)) es = (ps :: (nat \<times> string) list)"
proof -
  obtain qs x where ps: "ps = qs @ [x]" using assms(3) by (metis rev_exhaust)
  obtain rest where es: "es = ps @ rest" using assms(2) by (auto simp: prefix_def)
  have less: "\<forall>q \<in> set qs. fst q < fst x" "\<forall>q \<in> set rest. fst x < fst q"
    using assms(1) by (auto simp: bsorted_def sorted_wrt_append es ps)
  have "filter (\<lambda>(k, v). k \<le> fst x) qs = qs"
    using less(1) by (intro filter_True) (auto intro: less_imp_le)
  moreover have "filter (\<lambda>(k, v). k \<le> fst x) rest = []"
    using less(2) by (auto simp: filter_empty_conv not_le)
  moreover have "(case x of (k, v) \<Rightarrow> k \<le> fst x)"
    by (cases x) simp
  ultimately show ?thesis by (simp add: es ps)
qed

lemma dropWhile_filter:
  "bsorted es \<Longrightarrow> dropWhile (\<lambda>(k, v). k < Suc a) es = filter (\<lambda>(k :: nat, v). a < k) es"
proof (induction es)
  case (Cons e es)
  show ?case
  proof (cases "fst e < Suc a")
    case True
    with Cons show ?thesis by (auto simp: bsorted_def split: prod.splits)
  next
    case False
    have "\<forall>x \<in> set es. a < fst x"
      using Cons.prems False by (auto simp: bsorted_def)
    then have "filter (\<lambda>(k, v). a < k) es = es"
      by (intro filter_True) auto
    with False show ?thesis by (cases e) auto
  qed
qed simp

lemma operation_chunk_ok:
  assumes ok: "logs_ok s" and l: "bget (operation_logs s) i = Some l"
    and ch: "operation_chunk now force s i l = Inr (Some c)"
  shows "chunk_ok s c"
proof -
  obtain m where m: "ol_meta l = Some (Valid m)" and base: "log_base l m (lg_Limit m)"
    using ok l by (auto simp: logs_ok_def log_ok_base)
  define es where "es = filter (\<lambda>(k, v). lg_Ack m < k) (ol_entries l)"
  have keys: "map fst es = [Suc (lg_Ack m)..<Suc (lg_Next m)]"
    using base by (simp only: log_base_def es_def)
  have sorted: "bsorted es"
    using keys by (simp only: bsorted_def sorted_wrt_upt)
  have dw: "dropWhile (\<lambda>(k, v). k < lg_Ack m + 1) (bitems (ol_entries l)) = es"
    using dropWhile_filter[of "ol_entries l" "lg_Ack m"] base by (simp add: bitems_def es_def log_base_def)
  have "taken (Suc (lg_Ack m)) [] (0, ''['')"
    by (simp add: taken_def MaxBackupLogChunkBytes_def)
  from chunk_loop_taken[OF _ _ this, of es "Suc (lg_Next m)"] keys obtain ps
    where pre: "prefix ps es" and t: "taken (Suc (lg_Ack m)) ps (chunk_loop (Suc (lg_Ack m)) es 0 ''['')"
    by auto
  from ch m dw t have ps: "ps \<noteq> []" and c: "c = \<lparr>ck_OperationID = i, ck_First = Suc (lg_Ack m),
      ck_Last = fst (last ps), ck_JSON = (''['' @ json_commas (map snd ps)) @ '']''\<rparr>"
    by (auto simp: operation_chunk_def taken_def split: option.splits cell.splits if_splits)
  have "fst (last ps) \<in> set (map fst es)"
    using pre ps by (auto simp: prefix_def)
  then have range: "Suc (lg_Ack m) \<le> fst (last ps)" "fst (last ps) \<le> lg_Next m"
    unfolding keys by auto
  have "filter (\<lambda>(k, v). Suc (lg_Ack m) \<le> k \<and> k \<le> fst (last ps)) (ol_entries l) = filter (\<lambda>(k, v). k \<le> fst (last ps)) es"
    unfolding es_def filter_filter by (intro filter_cong) auto
  then have "filter (\<lambda>(k, v). Suc (lg_Ack m) \<le> k \<and> k \<le> fst (last ps)) (ol_entries l) = ps"
    using sorted_prefix_filter[OF sorted pre ps] by simp
  with l m range t ps show ?thesis
    by (auto simp: chunk_ok_def c taken_def json_array_def)
qed

lemma chunks_from_ok:
  assumes "logs_ok s" "set ls \<subseteq> set (bitems (operation_logs s))" "list_all (chunk_ok s) acc" "length acc \<le> 8"
    and "chunks_from now force s ls acc = Inr chunks"
  shows "list_all (chunk_ok s) chunks \<and> length chunks \<le> 8"
  using assms(2-)
proof (induction ls arbitrary: acc)
  case (Cons il ls)
  obtain i l where il: "il = (i, l)" by (cases il)
  have l: "bget (operation_logs s) i = Some l"
    using Cons.prems(1) il assms(1) by (auto simp: logs_ok_def bkt.in_items[symmetric])
  show ?case
  proof (cases "length acc \<ge> 8 \<or> operation_chunk now force s i l = Inr None")
    case True
    with Cons.prems(4) il have "chunks_from now force s ls acc = Inr chunks"
      by (auto split: if_splits)
    with Cons.IH[of acc] Cons.prems show ?thesis by simp
  next
    case False
    with Cons.prems il obtain c where c: "operation_chunk now force s i l = Inr (Some c)"
      by (auto split: sum.splits option.splits)
    with False Cons.prems il have "chunks_from now force s ls (acc @ [c]) = Inr chunks"
      by simp
    with Cons.IH[of "acc @ [c]"] Cons.prems False operation_chunk_ok[OF assms(1) l c] show ?thesis
      by simp
  qed
qed simp

section \<open>A concrete history, for the witnesses\<close>

definition demo_entry :: "string \<Rightarrow> log_entry" where
  "demo_entry code = \<lparr>le_Sequence = 0, le_ObservedAt = 1, le_Section = ''backup'', le_Level = ''INFO'', le_Code = code,
     le_FilesDone = 0, le_BytesDone = 0\<rparr>"

text \<open>A loop that passes over every other key.\<close>

definition demo_sweep :: sweep where
  "demo_sweep through entries k = even k"

definition demo_log_agent :: agent where
  "demo_log_agent = demo_agent\<lparr>operation_logs := [(1, \<lparr>ol_meta = Some (Valid (zero_log\<lparr>lg_Next := 2, lg_Ack := 1,
     lg_Bytes := 9, lg_Limit := 65536, lg_SentThrough := 1\<rparr>)), ol_entries = [(2, ''{}'')]\<rparr>)],
     operations := [(1, Valid ((demo_record 1 ''SUCCEEDED'')\<lparr>op_Uploaded := True\<rparr>))]\<rparr>"

lemma demo_log_agent_ok: "logs_ok demo_log_agent"
  by (auto simp: logs_ok_def log_ok_def demo_log_agent_def demo_agent_def bsorted_def bget_def zero_log_def
      DefaultLogLimitBytes_def split: if_splits)

section \<open>Properties\<close>

text \<open>C14: Whatever appends, sends and acknowledgements a log sees, in any order, with any write failures and
  whichever of the acknowledged entries the deleting loop reaches: the entries stored after the acknowledged sequence
  are numbered without gaps up to the last one given out, and the bytes accounted for cover all stored entries, those
  a loop left behind included, and never exceed the limit, which lies between 64 KiB and 10 MiB. The file and byte
  counters of the entries appended are int64 values.\<close>

theorem log_history_bounded:
  assumes "operation_logs s = []" and "list_all op_int64 ops"
  shows "logs_ok (foldl log_step s ops)"
  by (rule log_steps_ok[OF _ assms(2)]) (simp add: logs_ok_def assms(1) bget_def)

theorem log_history_bounded_witness:
  "list_all op_int64 [Append 1 (demo_entry ''BACKUP_STARTED''), Sent 1 1 5, Acked demo_sweep 1 1] \<and>
   logs_ok (foldl log_step demo_agent [Append 1 (demo_entry ''BACKUP_STARTED''), Sent 1 1 5, Acked demo_sweep 1 1])"
proof -
  have a: "operation_logs demo_agent = []"
    by (simp add: demo_agent_def)
  have b: "list_all op_int64 [Append 1 (demo_entry ''BACKUP_STARTED''), Sent 1 1 5, Acked demo_sweep 1 1]"
    by (simp add: entry_int64_def demo_entry_def max_int64_def)
  from log_history_bounded[OF a b] b show ?thesis by blast
qed

text \<open>C15: A batch of log chunks holds at most eight, each starting right after the acknowledged sequence of its
  operation and holding exactly the stored entries from there to its last one as a JSON array: at most 200 of them and
  at most 32 KiB.\<close>

theorem chunks_are_next_entries:
  assumes "logs_ok s" and "pendingLogs now force s = Inr chunks"
  shows "length chunks \<le> 8 \<and> list_all (chunk_ok s) chunks"
  using chunks_from_ok[OF assms(1), of "bitems (operation_logs s)" "[]" now force chunks] assms(2)
  by (simp add: pendingLogs_def)

theorem chunks_are_next_entries_witness:
  "\<exists>c. pendingLogs 100 True demo_log_agent = Inr [c] \<and> ck_First c = 2 \<and> ck_Last c = 2 \<and> ck_JSON c = ''[{}]'' \<and>
     chunk_ok demo_log_agent c"
proof -
  let ?c = "\<lparr>ck_OperationID = 1, ck_First = 2, ck_Last = 2, ck_JSON = ''[{}]''\<rparr>"
  have "pendingLogs 100 True demo_log_agent = Inr [?c]"
    by (simp add: pendingLogs_def operation_chunk_def demo_log_agent_def demo_agent_def demo_record_def bitems_def
        bget_def Terminal_def zero_log_def zero_operation_def MaxBackupLogChunkBytes_def)
  with chunks_are_next_entries[OF demo_log_agent_ok this] show ?thesis by auto
qed

end
