(* ===== verification/Agent_Identity.thy ===== *)
theory Agent_Identity
  imports Agent_State
begin

text \<open>
  The files of an Agent: its identity (\<open>internal/agent/identity.go\<close>, \<open>saveRotation\<close> of \<open>internal/agent/client.go\<close>)
  and the repository credential (\<open>internal/agent/repository_credential.go\<close>, \<open>internal/domain/repository_credential.go\<close>).
  A file is a \<open>cell option\<close>: \<open>None\<close> when it does not exist, \<open>Malformed\<close> when it is refused or does not decode. The directory
  check is a flag. An atomic write may fail before the rename (\<open>NotWritten\<close>) or after it (\<open>Unsynced\<close>). URL parsing, PEM
  and X.509 are the parameters of \<open>crypto\<close>.
\<close>

section \<open>Model\<close>

subsection \<open>Parameters\<close>

record url =
  u_Scheme :: string
  u_Host :: string
  u_Hostname :: string
  u_Port :: string
  u_User :: bool
  u_Path :: string
  u_RawPath :: string
  u_RawQuery :: string
  u_ForceQuery :: bool
  u_Fragment :: string
  u_RawFragment :: string
  u_Opaque :: string
  u_String :: string

record pem_block =
  pem_Type :: string
  pem_Headers :: nat
  pem_Bytes :: string

text \<open>
  \<open>ca_certificate\<close> says that the bytes are a CA certificate with valid basic constraints; \<open>key_pair_leaf\<close> gives the Agent
  identifier and the end of validity of the first certificate of a PEM text that matches the Agent's private key; \<open>ca_pool\<close>
  says that a PEM text holds a certificate for the root pool.
\<close>

record crypto =
  url_parse :: "string \<Rightarrow> url option"
  pem_decode :: "string \<Rightarrow> (pem_block \<times> string) option"
  ca_certificate :: "string \<Rightarrow> bool"
  key_pair_leaf :: "string \<Rightarrow> (uuid \<times> time) option"
  ca_pool :: "string \<Rightarrow> bool"
  parse_id :: "string \<Rightarrow> uuid option"

subsection \<open>Repository credentials\<close>

record credential =
  c_DeliveryID :: uuid
  c_AgentID :: uuid
  c_HostID :: uuid
  c_RepositoryID :: uuid
  c_GatewayID :: uuid
  c_Revision :: int
  c_GatewayRevision :: int
  c_ResticRevision :: int
  c_Endpoint :: string
  c_CABundlePEM :: string
  c_GatewayPassword :: string
  c_ResticPassword :: string
  c_ValidFrom :: time

text \<open>\<open>bytes.TrimSpace\<close>.\<close>

function trim_left :: "string \<Rightarrow> string" where
  "trim_left s = (if 0 < space_len s then trim_left (drop (space_len s) s) else s)"
  by auto

termination
proof (relation "measure length")
  fix s
  assume "0 < space_len s"
  then have "s \<noteq> []" by auto
  with \<open>0 < space_len s\<close> show "(drop (space_len s) s, s) \<in> measure length" by simp
qed simp

declare trim_left.simps [simp del]

fun trim_right :: "string \<Rightarrow> string" where
  "trim_right [] = []"
| "trim_right (c # s) = (if blank (c # s) then [] else c # trim_right s)"

definition trim_space :: "string \<Rightarrow> string" where
  "trim_space s = trim_right (trim_left s)"

definition ValidGatewayOrigin :: "crypto \<Rightarrow> string \<Rightarrow> bool" where
  "ValidGatewayOrigin co origin =
     (if length origin > 2048 then False
      else case url_parse co origin of
        None \<Rightarrow> False
      | Some u \<Rightarrow>
          if u_Scheme u \<noteq> ''https'' \<or> u_Host u = [] \<or> u_Hostname u = [] \<or> u_User u \<or> u_Path u \<noteq> [] \<or> u_RawPath u \<noteq> []
             \<or> u_RawQuery u \<noteq> [] \<or> u_ForceQuery u \<or> u_Fragment u \<noteq> [] \<or> u_RawFragment u \<noteq> [] \<or> u_Opaque u \<noteq> []
             \<or> u_String u \<noteq> origin \<or> list_ex (\<lambda>c. byte c \<in> {92, 13, 10, 9, 32}) origin \<or> CHR ''#'' \<in> set origin
             \<or> has_suffix (u_Host u) '':''
          then False
          else if u_Port u \<noteq> [] then (case atoi (u_Port u) of None \<Rightarrow> False | Some n \<Rightarrow> 1 \<le> n \<and> n \<le> 65535 \<and> itoa n = u_Port u)
          else True)"

text \<open>The loop over the certificates of a bundle; \<open>fuel\<close> bounds it, each certificate takes at least one byte.\<close>

fun credential_ca_loop :: "crypto \<Rightarrow> nat \<Rightarrow> nat \<Rightarrow> string \<Rightarrow> bool" where
  "credential_ca_loop co 0 n bundle = False"
| "credential_ca_loop co (Suc fuel) n bundle =
     (let bundle = trim_space bundle
      in if bundle = [] then n > 0
         else if \<not> has_prefix bundle ''-----BEGIN CERTIFICATE-----'' then False
         else case pem_decode co bundle of
           None \<Rightarrow> False
         | Some (block, rest) \<Rightarrow>
             if pem_Type block \<noteq> ''CERTIFICATE'' \<or> pem_Headers block \<noteq> 0 \<or> \<not> ca_certificate co (pem_Bytes block) then False
             else credential_ca_loop co fuel (n + 1) rest)"

definition ValidCredentialCA :: "crypto \<Rightarrow> string \<Rightarrow> bool" where
  "ValidCredentialCA co bundle =
     (if length bundle = 0 \<or> length bundle > 65536 then False else credential_ca_loop co (length bundle + 1) 0 bundle)"

text \<open>\<open>base64.RawURLEncoding.Strict()\<close>: the value of a character, and whether 43 of them encode 32 bytes.\<close>

definition b64_value :: "char \<Rightarrow> nat option" where
  "b64_value c =
     (let n = byte c
      in if 65 \<le> n \<and> n \<le> 90 then Some (n - 65)
         else if 97 \<le> n \<and> n \<le> 122 then Some (n - 71)
         else if 48 \<le> n \<and> n \<le> 57 then Some (n + 4)
         else if n = 45 then Some 62 else if n = 95 then Some 63 else None)"

definition valid_password :: "string \<Rightarrow> bool" where
  "valid_password s \<longleftrightarrow> length s = 43 \<and> list_all (\<lambda>c. b64_value c \<noteq> None) s \<and>
     (case b64_value (last s) of None \<Rightarrow> False | Some v \<Rightarrow> v mod 4 = 0)"

text \<open>\<open>RepositoryCredential.Validate\<close>: true for no error.\<close>

definition credential_Validate :: "crypto \<Rightarrow> credential \<Rightarrow> bool" where
  "credential_Validate co c =
     (if \<not> list_all uuid_v7 [c_DeliveryID c, c_AgentID c, c_HostID c, c_RepositoryID c, c_GatewayID c] then False
      else if c_Revision c < 1 \<or> c_GatewayRevision c < 1 \<or> c_ResticRevision c < 1 \<or> is_zero (c_ValidFrom c)
        \<or> \<not> ValidCredentialCA co (c_CABundlePEM c) then False
      else
        (let path = ''/restic/'' @ uuid_string (c_GatewayID c) @ ''/'' @ uuid_string (c_RepositoryID c) @ ''/''
         in if \<not> has_suffix (c_Endpoint c) path
               \<or> \<not> ValidGatewayOrigin co (take (length (c_Endpoint c) - length path) (c_Endpoint c)) then False
            else if \<not> list_all valid_password (c_ResticPassword c # (if c_GatewayPassword c \<noteq> [] then [c_GatewayPassword c] else []))
            then False
            else c_GatewayPassword c \<noteq> c_ResticPassword c))"

record credential_message =
  cm_DeliveryId :: string
  cm_AgentId :: string
  cm_HostId :: string
  cm_RepositoryId :: string
  cm_GatewayId :: string
  cm_Revision :: int
  cm_GatewayRevision :: int
  cm_ResticRevision :: int
  cm_Endpoint :: string
  cm_CaBundlePem :: string
  cm_GatewayPassword :: string
  cm_ResticPassword :: string
  cm_ValidFrom :: "time cell option"

text \<open>An identifier in its canonical form.\<close>

definition canonical_id :: "crypto \<Rightarrow> string \<Rightarrow> uuid option" where
  "canonical_id co raw = (case parse_id co raw of None \<Rightarrow> None | Some i \<Rightarrow> if uuid_string i \<noteq> raw then None else Some i)"

definition repositoryCredentialFromProto :: "crypto \<Rightarrow> credential_message \<Rightarrow> credential option" where
  "repositoryCredentialFromProto co m =
     (case (canonical_id co (cm_DeliveryId m), canonical_id co (cm_AgentId m), canonical_id co (cm_HostId m),
            canonical_id co (cm_RepositoryId m), canonical_id co (cm_GatewayId m), cm_ValidFrom m) of
        (Some delivery, Some agent, Some host, Some repository, Some gateway, Some (Valid validFrom)) \<Rightarrow>
          (let c = \<lparr>c_DeliveryID = delivery, c_AgentID = agent, c_HostID = host, c_RepositoryID = repository, c_GatewayID = gateway,
                 c_Revision = cm_Revision m, c_GatewayRevision = cm_GatewayRevision m, c_ResticRevision = cm_ResticRevision m,
                 c_Endpoint = cm_Endpoint m, c_CABundlePEM = cm_CaBundlePem m, c_GatewayPassword = cm_GatewayPassword m,
                 c_ResticPassword = cm_ResticPassword m, c_ValidFrom = validFrom\<rparr>
           in if credential_Validate co c then Some c else None)
      | _ \<Rightarrow> None)"

subsection \<open>The files\<close>

record identity =
  id_AgentID :: uuid
  id_HostID :: uuid
  id_CertificatePEM :: string
  id_CABundlePEM :: string
  id_NotAfter :: time
  id_ServerName :: string
  id_GRPCEndpoint :: string

datatype write_outcome = Written | Unsynced | NotWritten

record vault =
  va_directory_ok :: bool
  va_key :: bool
  va_identity :: "identity cell option"
  va_credential :: "credential cell option"
  va_writes :: "write_outcome list"

text \<open>\<open>atomicWrite\<close>: the outcome of the next write and the vault after it; \<open>put\<close> changes the file that is renamed over.\<close>

definition atomicWrite :: "(vault \<Rightarrow> vault) \<Rightarrow> vault \<Rightarrow> vault \<times> bool" where
  "atomicWrite put v =
     (let v' = v\<lparr>va_writes := tl (va_writes v)\<rparr>
      in case (if va_writes v = [] then Written else hd (va_writes v)) of
           Written \<Rightarrow> (put v', True)
         | Unsynced \<Rightarrow> (put v', False)
         | NotWritten \<Rightarrow> (v', False))"

definition SaveIdentity :: "identity \<Rightarrow> vault \<Rightarrow> vault \<times> bool" where
  "SaveIdentity i v =
     (if id_AgentID i = uuid_nil \<or> id_HostID i = uuid_nil \<or> id_CertificatePEM i = [] \<or> id_CABundlePEM i = []
        \<or> id_ServerName i = [] \<or> id_GRPCEndpoint i = [] then (v, False)
      else atomicWrite (\<lambda>v. v\<lparr>va_identity := Some (Valid i)\<rparr>) v)"

definition LoadIdentity :: "vault \<Rightarrow> identity option" where
  "LoadIdentity v =
     (case va_identity v of
        Some (Valid i) \<Rightarrow> if id_AgentID i = uuid_nil \<or> id_HostID i = uuid_nil then None else Some i
      | _ \<Rightarrow> None)"

text \<open>\<open>TLSIdentity\<close>: the leaf of the key pair, when the key is readable, matches and the CA bundle is usable.\<close>

definition TLSIdentity :: "crypto \<Rightarrow> vault \<Rightarrow> identity \<Rightarrow> (uuid \<times> time) option" where
  "TLSIdentity co v i =
     (if \<not> va_key v then None
      else case key_pair_leaf co (id_CertificatePEM i) of
        None \<Rightarrow> None
      | Some leaf \<Rightarrow> if \<not> ca_pool co (id_CABundlePEM i) then None else Some leaf)"

definition validateIdentityMaterial :: "crypto \<Rightarrow> vault \<Rightarrow> identity \<Rightarrow> bool" where
  "validateIdentityMaterial co v i =
     (case TLSIdentity co v i of
        None \<Rightarrow> False
      | Some (agentID, notAfter) \<Rightarrow> agentID = id_AgentID i \<and> notAfter = id_NotAfter i)"

record rotation_response =
  rr_CertificatePem :: string
  rr_CaBundlePem :: string
  rr_NotAfter :: "time cell option"

definition saveRotation :: "crypto \<Rightarrow> identity \<Rightarrow> rotation_response \<Rightarrow> vault \<Rightarrow> vault \<times> bool" where
  "saveRotation co i rotated v =
     (case rr_NotAfter rotated of
        Some (Valid notAfter) \<Rightarrow>
          (let i' = i\<lparr>id_CertificatePEM := rr_CertificatePem rotated, id_CABundlePEM := rr_CaBundlePem rotated, id_NotAfter := notAfter\<rparr>
           in if \<not> validateIdentityMaterial co v i' then (v, False) else SaveIdentity i' v)
      | _ \<Rightarrow> (v, False))"

definition loadRepositoryCredential :: "crypto \<Rightarrow> vault \<Rightarrow> unit + credential option" where
  "loadRepositoryCredential co v =
     (case va_credential v of
        None \<Rightarrow> Inr None
      | Some Malformed \<Rightarrow> Inl ()
      | Some (Valid c) \<Rightarrow> if credential_Validate co c then Inr (Some c) else Inl ())"

definition LoadRepositoryCredential :: "crypto \<Rightarrow> identity \<Rightarrow> vault \<Rightarrow> unit + credential option" where
  "LoadRepositoryCredential co i v =
     (if \<not> va_directory_ok v then Inl ()
      else case loadRepositoryCredential co v of
        Inl e \<Rightarrow> Inl e
      | Inr None \<Rightarrow> Inr None
      | Inr (Some c) \<Rightarrow> if c_AgentID c \<noteq> id_AgentID i \<or> c_HostID c \<noteq> id_HostID i then Inl () else Inr (Some c))"

text \<open>Whether a new credential may replace the stored one.\<close>

definition credential_follows :: "credential \<Rightarrow> credential \<Rightarrow> bool" where
  "credential_follows previous c =
     (if c_AgentID previous \<noteq> c_AgentID c \<or> c_HostID previous \<noteq> c_HostID c \<or> c_RepositoryID previous \<noteq> c_RepositoryID c
         \<or> c_GatewayID previous \<noteq> c_GatewayID c \<or> c_Revision c < c_Revision previous
         \<or> c_GatewayRevision c < c_GatewayRevision previous \<or> c_ResticRevision c < c_ResticRevision previous
      then False
      else if c_Revision c = c_Revision previous
      then c = (if c_GatewayPassword c = [] then previous\<lparr>c_GatewayPassword := []\<rparr> else previous)
      else \<not> (c_DeliveryID c = c_DeliveryID previous
        \<or> c_GatewayRevision c = c_GatewayRevision previous \<and> c_GatewayPassword c \<noteq> [] \<and> c_GatewayPassword c \<noteq> c_GatewayPassword previous
        \<or> c_ResticRevision c = c_ResticRevision previous \<and> c_ResticPassword c \<noteq> c_ResticPassword previous))"

definition ApplyRepositoryCredential ::
    "crypto \<Rightarrow> identity \<Rightarrow> credential_message option \<Rightarrow> vault \<Rightarrow> vault \<times> (uuid \<times> int) option" where
  "ApplyRepositoryCredential co i message v =
     (case message of
        None \<Rightarrow> (v, None)
      | Some m \<Rightarrow>
     (case repositoryCredentialFromProto co m of
        None \<Rightarrow> (v, None)
      | Some c \<Rightarrow>
          if c_AgentID c \<noteq> id_AgentID i \<or> c_HostID c \<noteq> id_HostID i \<or> \<not> va_directory_ok v then (v, None)
          else (case loadRepositoryCredential co v of
             Inl _ \<Rightarrow> (v, None)
           | Inr previous \<Rightarrow>
               if \<not> (case previous of None \<Rightarrow> True | Some p \<Rightarrow> credential_follows p c) then (v, None)
               else (case atomicWrite (\<lambda>v. v\<lparr>va_credential := Some (Valid c)\<rparr>) v of
                   (v', True) \<Rightarrow> (v', Some (c_DeliveryID c, c_Revision c))
                 | (v', False) \<Rightarrow> (v', None)))))"

section \<open>Credentials only move forward\<close>

text \<open>The binding stays, no revision decreases, and the repository password changes only with its revision.\<close>

definition credential_evolves :: "credential \<Rightarrow> credential \<Rightarrow> bool" where
  "credential_evolves p q \<longleftrightarrow>
     c_AgentID q = c_AgentID p \<and> c_HostID q = c_HostID p \<and> c_RepositoryID q = c_RepositoryID p \<and> c_GatewayID q = c_GatewayID p \<and>
     c_Revision p \<le> c_Revision q \<and> c_GatewayRevision p \<le> c_GatewayRevision q \<and> c_ResticRevision p \<le> c_ResticRevision q \<and>
     (c_ResticRevision q = c_ResticRevision p \<longrightarrow> c_ResticPassword q = c_ResticPassword p)"

lemma credential_evolves_refl [simp]: "credential_evolves p p"
  by (simp add: credential_evolves_def)

lemma credential_evolves_trans: "credential_evolves p q \<Longrightarrow> credential_evolves q r \<Longrightarrow> credential_evolves p r"
  by (auto simp: credential_evolves_def)

lemma credential_follows_evolves: "credential_follows p c \<Longrightarrow> credential_evolves p c"
  by (auto simp: credential_follows_def credential_evolves_def split: if_splits)

lemma fromProto_valid: "repositoryCredentialFromProto co m = Some c \<Longrightarrow> credential_Validate co c"
  by (auto simp: repositoryCredentialFromProto_def Let_def split: option.splits cell.splits if_splits)

lemma atomicWrite_cases:
  assumes "atomicWrite put v = (v', ok)"
  shows "v' = put (v\<lparr>va_writes := tl (va_writes v)\<rparr>) \<or> v' = v\<lparr>va_writes := tl (va_writes v)\<rparr> \<and> \<not> ok"
  using assms by (auto simp: atomicWrite_def Let_def split: write_outcome.splits)

text \<open>A delivery leaves the stored credential, or replaces it by a valid one that may follow it; only then is it acknowledged.\<close>

lemma Apply_credential_cases:
  assumes "ApplyRepositoryCredential co i message v = (v', ack)"
  shows "(va_credential v' = va_credential v \<and> ack = None) \<or>
    (\<exists>c. va_credential v' = Some (Valid c) \<and> credential_Validate co c \<and> c_AgentID c = id_AgentID i \<and> c_HostID c = id_HostID i \<and>
       (\<forall>p. va_credential v = Some (Valid p) \<longrightarrow> credential_Validate co p \<longrightarrow> credential_follows p c) \<and>
       (ack = None \<or> ack = Some (c_DeliveryID c, c_Revision c)))"
proof (cases "(v', ack) = (v, None)")
  case False
  with assms obtain m c previous where m: "message = Some m" "repositoryCredentialFromProto co m = Some c"
    "c_AgentID c = id_AgentID i" "c_HostID c = id_HostID i" "loadRepositoryCredential co v = Inr previous"
    "case previous of None \<Rightarrow> True | Some p \<Rightarrow> credential_follows p c"
    and w: "(case atomicWrite (\<lambda>v. v\<lparr>va_credential := Some (Valid c)\<rparr>) v of
                   (v', True) \<Rightarrow> (v', Some (c_DeliveryID c, c_Revision c)) | (v', False) \<Rightarrow> (v', None)) = (v', ack)"
    by (auto simp: ApplyRepositoryCredential_def split: option.splits sum.splits if_splits)
  have follows: "\<forall>p. va_credential v = Some (Valid p) \<longrightarrow> credential_Validate co p \<longrightarrow> credential_follows p c"
    using m(5,6) by (auto simp: loadRepositoryCredential_def)
  obtain u ok where "atomicWrite (\<lambda>v. v\<lparr>va_credential := Some (Valid c)\<rparr>) v = (u, ok)" by fastforce
  from atomicWrite_cases[OF this] this w fromProto_valid[OF m(2)] m(3,4) follows show ?thesis
    by (cases ok) auto
qed auto

text \<open>A sequence of deliveries, with the acknowledgements sent.\<close>

fun deliver_all :: "crypto \<Rightarrow> identity \<Rightarrow> credential_message option list \<Rightarrow> vault \<Rightarrow> vault \<times> (uuid \<times> int) list" where
  "deliver_all co i [] v = (v, [])"
| "deliver_all co i (m # ms) v =
     (case ApplyRepositoryCredential co i m v of (v1, ack) \<Rightarrow>
      case deliver_all co i ms v1 of (v2, acks) \<Rightarrow> (v2, (case ack of None \<Rightarrow> [] | Some a \<Rightarrow> [a]) @ acks))"

lemma deliver_all_evolves:
  "va_credential v = Some (Valid p) \<Longrightarrow> credential_Validate co p \<Longrightarrow> deliver_all co i ms v = (v', acks) \<Longrightarrow>
     \<exists>q. va_credential v' = Some (Valid q) \<and> credential_Validate co q \<and> credential_evolves p q \<and> list_all (\<lambda>(d, r). r \<le> c_Revision q) acks"
proof (induction ms arbitrary: v p acks)
  case (Cons m ms)
  obtain v1 ack where a: "ApplyRepositoryCredential co i m v = (v1, ack)" by fastforce
  obtain acks1 where d: "deliver_all co i ms v1 = (v', acks1)" and acks: "acks = (case ack of None \<Rightarrow> [] | Some a \<Rightarrow> [a]) @ acks1"
    using Cons.prems(3) a by (auto split: prod.splits)
  obtain c where c: "va_credential v1 = Some (Valid c)" "credential_Validate co c" "credential_evolves p c"
    "ack = None \<or> ack = Some (c_DeliveryID c, c_Revision c)"
    using Apply_credential_cases[OF a] Cons.prems(1,2) credential_follows_evolves by auto
  from Cons.IH[OF c(1,2) d] obtain q where q: "va_credential v' = Some (Valid q)" "credential_Validate co q"
    "credential_evolves c q" "list_all (\<lambda>(d, r). r \<le> c_Revision q) acks1"
    by blast
  from q(3) have "c_Revision c \<le> c_Revision q" by (simp add: credential_evolves_def)
  with q credential_evolves_trans[OF c(3) q(3)] c(4) acks show ?case by auto
qed simp

section \<open>Rotation keeps the identity\<close>

lemma SaveIdentity_cases:
  assumes "SaveIdentity i v = (v', ok)"
  shows "va_identity v' = va_identity v \<and> \<not> ok \<or> va_identity v' = Some (Valid i)"
  using assms atomicWrite_cases[of "\<lambda>v. v\<lparr>va_identity := Some (Valid i)\<rparr>" v v' ok]
  by (auto simp: SaveIdentity_def split: if_splits)

section \<open>Concrete files, for the witnesses\<close>

definition demo_crypto :: crypto where
  "demo_crypto = \<lparr>url_parse = (\<lambda>s. Some \<lparr>u_Scheme = ''https'', u_Host = ''g'', u_Hostname = ''g'', u_Port = [], u_User = False,
       u_Path = [], u_RawPath = [], u_RawQuery = [], u_ForceQuery = False, u_Fragment = [], u_RawFragment = [], u_Opaque = [], u_String = s\<rparr>),
     pem_decode = (\<lambda>s. Some (\<lparr>pem_Type = ''CERTIFICATE'', pem_Headers = 0, pem_Bytes = s\<rparr>, [])), ca_certificate = (\<lambda>_. True),
     key_pair_leaf = (\<lambda>_. Some (528914269453437118709769, 1000)), ca_pool = (\<lambda>_. True), parse_id = (\<lambda>_. None)\<rparr>"

definition demo_identity :: identity where
  "demo_identity = \<lparr>id_AgentID = 528914269453437118709769, id_HostID = 528914269453437118709762, id_CertificatePEM = ''cert'',
     id_CABundlePEM = ''ca'', id_NotAfter = 500, id_ServerName = ''server'', id_GRPCEndpoint = ''server:1''\<rparr>"

definition demo_credential :: credential where
  "demo_credential = \<lparr>c_DeliveryID = 528914269453437118709764, c_AgentID = 528914269453437118709769, c_HostID = 528914269453437118709762,
     c_RepositoryID = 528914269453437118709763, c_GatewayID = 528914269453437118709765, c_Revision = 1, c_GatewayRevision = 1,
     c_ResticRevision = 1, c_Endpoint = ''https://g/restic/'' @ uuid_string 528914269453437118709765 @ ''/'' @ uuid_string 528914269453437118709763 @ ''/'',
     c_CABundlePEM = ''-----BEGIN CERTIFICATE-----'', c_GatewayPassword = [], c_ResticPassword = replicate 43 (CHR ''A''), c_ValidFrom = 1\<rparr>"

definition demo_vault :: vault where
  "demo_vault = \<lparr>va_directory_ok = True, va_key = True, va_identity = Some (Valid demo_identity),
     va_credential = Some (Valid demo_credential), va_writes = [Unsynced]\<rparr>"

lemma has_suffix_append: "has_suffix (a @ b) b"
  by (simp add: has_suffix_def)

lemma demo_trim: "trim_space ''-----BEGIN CERTIFICATE-----'' = ''-----BEGIN CERTIFICATE-----''"
proof -
  have "trim_left ''-----BEGIN CERTIFICATE-----'' = ''-----BEGIN CERTIFICATE-----''"
    by (subst trim_left.simps) (simp add: byte_def)
  moreover have "trim_right ''-----BEGIN CERTIFICATE-----'' = ''-----BEGIN CERTIFICATE-----''"
    by code_simp
  ultimately show ?thesis by (simp add: trim_space_def)
qed

lemma trim_space_Nil: "trim_space [] = []"
  by (simp add: trim_space_def trim_left.simps)

lemma demo_ca: "ValidCredentialCA demo_crypto ''-----BEGIN CERTIFICATE-----''"
proof -
  have l: "length ''-----BEGIN CERTIFICATE-----'' + 1 = Suc (Suc 26)" by simp
  show ?thesis
    unfolding ValidCredentialCA_def l credential_ca_loop.simps demo_trim
    by (simp add: demo_crypto_def has_prefix_def trim_space_Nil)
qed

lemma demo_credential_valid: "credential_Validate demo_crypto demo_credential"
proof -
  let ?path = "''/restic/'' @ uuid_string (c_GatewayID demo_credential) @ ''/'' @ uuid_string (c_RepositoryID demo_credential) @ ''/''"
  have e: "c_Endpoint demo_credential = ''https://g'' @ ?path"
    by (simp add: demo_credential_def)
  have suffix: "has_suffix (c_Endpoint demo_credential) ?path"
    unfolding e by (rule has_suffix_append)
  have origin: "take (length (c_Endpoint demo_credential) - length ?path) (c_Endpoint demo_credential) = ''https://g''"
    unfolding e by simp
  have o: "ValidGatewayOrigin demo_crypto ''https://g''"
    by (simp add: ValidGatewayOrigin_def demo_crypto_def byte_def has_suffix_def)
  have u: "list_all uuid_v7 [c_DeliveryID demo_credential, c_AgentID demo_credential, c_HostID demo_credential, c_RepositoryID demo_credential, c_GatewayID demo_credential]"
    by (simp add: demo_credential_def uuid_v7_def uuid_version_def uuid_rfc4122_def)
  have p: "valid_password (replicate 43 (CHR ''A''))"
    by code_simp
  have f: "c_CABundlePEM demo_credential = ''-----BEGIN CERTIFICATE-----''" "c_GatewayPassword demo_credential = []"
    "c_ResticPassword demo_credential = replicate 43 (CHR ''A'')" "c_ValidFrom demo_credential = 1" "c_Revision demo_credential = 1"
    "c_GatewayRevision demo_credential = 1" "c_ResticRevision demo_credential = 1"
    by (simp_all only: demo_credential_def credential.simps)
  show ?thesis
    unfolding credential_Validate_def Let_def origin f using o u p suffix demo_ca by (simp add: is_zero_def)
qed

section \<open>Properties\<close>

text \<open>C29: Over any sequence of credential deliveries, with any failures of the writes, the stored credential stays valid and
  bound to the same Agent, host, repository and gateway, no revision goes back, the repository password changes only together with its
  revision, and no revision is acknowledged beyond the stored one.\<close>

theorem credential_history:
  assumes "va_credential v = Some (Valid p)" and "credential_Validate co p" and "deliver_all co i ms v = (v', acks)"
  shows "\<exists>q. va_credential v' = Some (Valid q) \<and> credential_Validate co q \<and> credential_evolves p q \<and>
    list_all (\<lambda>(d, r). r \<le> c_Revision q) acks"
  using deliver_all_evolves[OF assms] .

theorem credential_history_witness:
  "\<exists>v' acks q. deliver_all demo_crypto demo_identity [None, None] demo_vault = (v', acks) \<and>
     va_credential v' = Some (Valid q) \<and> credential_evolves demo_credential q"
proof -
  obtain v' acks where d: "deliver_all demo_crypto demo_identity [None, None] demo_vault = (v', acks)" by fastforce
  have v: "va_credential demo_vault = Some (Valid demo_credential)" by (simp add: demo_vault_def)
  from credential_history[OF v demo_credential_valid d] d show ?thesis by blast
qed

text \<open>C30: A certificate rotation never changes who the Agent is: the identity file afterwards is the one before, or it
  has the same Agent, host, server name and endpoint and a certificate of that Agent whose validity ends when the file says. A rotation that
  reports success has replaced the file.\<close>

theorem rotation_keeps_identity:
  assumes "saveRotation co i rotated v = (v', ok)"
  shows "(va_identity v' = va_identity v \<and> \<not> ok) \<or>
    (\<exists>j. va_identity v' = Some (Valid j) \<and> validateIdentityMaterial co v j \<and> id_AgentID j = id_AgentID i \<and>
       id_HostID j = id_HostID i \<and> id_ServerName j = id_ServerName i \<and> id_GRPCEndpoint j = id_GRPCEndpoint i)"
proof (cases "rr_NotAfter rotated")
  case (Some c)
  show ?thesis
  proof (cases c)
    case (Valid notAfter)
    let ?j = "i\<lparr>id_CertificatePEM := rr_CertificatePem rotated, id_CABundlePEM := rr_CaBundlePem rotated, id_NotAfter := notAfter\<rparr>"
    from assms Some Valid SaveIdentity_cases[of ?j v v' ok] show ?thesis
      by (auto simp: saveRotation_def Let_def split: if_splits)
  next
    case Malformed
    with assms Some show ?thesis by (simp add: saveRotation_def)
  qed
qed (use assms in \<open>simp add: saveRotation_def\<close>)

theorem rotation_keeps_identity_witness:
  "\<exists>v' j. saveRotation demo_crypto demo_identity \<lparr>rr_CertificatePem = ''new'', rr_CaBundlePem = ''ca'', rr_NotAfter = Some (Valid 1000)\<rparr>
       (demo_vault\<lparr>va_writes := []\<rparr>) = (v', True) \<and>
     va_identity v' = Some (Valid j) \<and> id_CertificatePEM j = ''new'' \<and> id_AgentID j = id_AgentID demo_identity"
proof -
  let ?r = "\<lparr>rr_CertificatePem = ''new'', rr_CaBundlePem = ''ca'', rr_NotAfter = Some (Valid (1000::int))\<rparr>"
  obtain v' where v': "saveRotation demo_crypto demo_identity ?r (demo_vault\<lparr>va_writes := []\<rparr>) = (v', True)"
    and j: "va_identity v' = Some (Valid (demo_identity\<lparr>id_CertificatePEM := ''new'', id_CABundlePEM := ''ca'', id_NotAfter := 1000\<rparr>))"
    by (simp add: saveRotation_def validateIdentityMaterial_def TLSIdentity_def demo_crypto_def demo_identity_def demo_vault_def
        SaveIdentity_def atomicWrite_def uuid_nil_def Let_def)
  from rotation_keeps_identity[OF v'] v' j show ?thesis by auto
qed

end
