(* ===== verification/Agent_Session.thy ===== *)
theory Agent_Session
  imports Agent_Identity "HOL-Library.Sublist"
begin

text \<open>
  The Agent's side of a Gateway backup session (\<open>internal/agent/gateway.go\<close>): opening a session, waiting until it is
  active, lending its endpoint to the caller and deleting it afterwards. What the network and the clock do in one round of the loop is
  a \<open>round\<close>; the loop consumes one per request and has no result (\<open>None\<close>) as long as the rounds given do not end it.
  The answer to the final DELETE and the outcome of the caller's \<open>run\<close> are inputs too.
\<close>

section \<open>Model\<close>

datatype session_error = ErrGatewaySession | ErrGatewayCleanup | ErrGatewayBusy | ErrGatewayUnavailable | ErrGatewayRateLimited
  | ContextCanceled | ContextDeadlineExceeded

datatype http_method = POST | GET

datatype errno = ECONNREFUSED | ECONNRESET | ENETUNREACH | EHOSTUNREACH | ETIMEDOUT | EPIPE | OtherErrno

text \<open>What \<open>errors.Is\<close> and \<open>errors.As\<close> find in a network error.\<close>

record network_error =
  ne_codes :: "errno list"
  ne_timeout :: bool
  ne_dns_temporary :: bool
  ne_dial :: bool

record session_response =
  sr_SessionID :: uuid
  sr_State :: string
  sr_EndpointPath :: string
  sr_ExpiresAt :: time

record http_response =
  hr_status :: int
  hr_retry_after :: string
  hr_hints :: "string list"
  hr_read_ok :: bool
  hr_length :: nat
  hr_body :: "session_response cell"

datatype reply = Response http_response | NetworkError network_error

text \<open>
  One round: the reply, the state of the context when the request failed, the clock after the reply, whether the context
  ended during the pause and whether the next request could be built.
\<close>

record round =
  rd_reply :: reply
  rd_context :: "session_error option"
  rd_now :: time
  rd_pause_canceled :: bool
  rd_request_ok :: bool

record session_config =
  sc_origin :: string
  sc_basePath :: string
  sc_deadline :: time
  sc_retryUntil :: time

text \<open>How the loop ended: the result, whether a session may have been opened, and the endpoint lent to \<open>run\<close>.\<close>

record loop_result =
  lr_result :: "session_error option"
  lr_cleanup :: bool
  lr_endpoint :: "string option"

definition gatewayStatusFailure :: "int \<Rightarrow> session_error option" where
  "gatewayStatusFailure status =
     (if status = 429 then Some ErrGatewayRateLimited
      else if status = 500 \<or> status = 502 \<or> status = 503 \<or> status = 504 then Some ErrGatewayUnavailable
      else None)"

definition gatewayRetryHint :: "string list \<Rightarrow> session_error option" where
  "gatewayRetryHint values =
     (if length values = 1 then
        if values ! 0 = ''GATEWAY_UNAVAILABLE'' then Some ErrGatewayUnavailable
        else if values ! 0 = ''GATEWAY_RATE_LIMITED'' then Some ErrGatewayRateLimited
        else None
      else None)"

definition transientGatewayNetwork :: "network_error \<Rightarrow> bool" where
  "transientGatewayNetwork e \<longleftrightarrow>
     list_ex (\<lambda>code. code \<in> set (ne_codes e)) [ECONNREFUSED, ECONNRESET, ENETUNREACH, EHOSTUNREACH, ETIMEDOUT, EPIPE]
     \<or> ne_timeout e \<or> ne_dns_temporary e"

definition gatewayFailureCode :: "session_error option \<Rightarrow> string" where
  "gatewayFailureCode e =
     (if e = Some ErrGatewayUnavailable then ''GATEWAY_UNAVAILABLE''
      else if e = Some ErrGatewayRateLimited then ''GATEWAY_RATE_LIMITED'' else [])"

definition stop :: "session_error \<Rightarrow> bool \<Rightarrow> loop_result" where
  "stop e cleanup = \<lparr>lr_result = Some e, lr_cleanup = cleanup, lr_endpoint = None\<rparr>"

definition readable :: "http_response \<Rightarrow> bool" where
  "readable resp \<longleftrightarrow> hr_read_ok resp \<and> hr_length resp \<le> 4096"

text \<open>The session of a reply, when the reply is one the loop goes on with.\<close>

definition valid_session :: "session_config \<Rightarrow> time \<Rightarrow> http_response \<Rightarrow> session_response option" where
  "valid_session cfg now resp =
     (if \<not> readable resp \<or> hr_status resp \<noteq> 200 \<and> hr_status resp \<noteq> 202 then None
      else case hr_body resp of
        Malformed \<Rightarrow> None
      | Valid s \<Rightarrow>
          if \<not> uuid_v7 (sr_SessionID s) \<or> \<not> sr_ExpiresAt s > now \<or> sr_ExpiresAt s > sc_deadline cfg
             \<or> time_sub (sr_ExpiresAt s) now > 86400000000000
          then None else Some s)"

text \<open>\<open>run\<close> says of an endpoint whether the caller returned without an error and its context was still alive.\<close>

fun session_loop :: "session_config \<Rightarrow> (string \<Rightarrow> bool) \<Rightarrow> round list \<Rightarrow> http_method \<Rightarrow> loop_result option" where
  "session_loop cfg run [] m = None"
| "session_loop cfg run (r # rs) m =
     (case rd_reply r of
        NetworkError e \<Rightarrow>
          Some (case rd_context r of
             Some c \<Rightarrow> stop c True
           | None \<Rightarrow>
               if transientGatewayNetwork e then stop ErrGatewayUnavailable (\<not> (m = POST \<and> ne_dial e))
               else stop ErrGatewaySession True)
      | Response resp \<Rightarrow>
          (case (if readable resp then gatewayStatusFailure (hr_status resp) else None) of
             Some failure \<Rightarrow>
               Some (stop failure (\<not> (m = POST \<and> (hr_status resp = 503 \<or> hr_status resp = 429) \<and> gatewayRetryHint (hr_hints resp) = Some failure)))
           | None \<Rightarrow>
               if m = POST \<and> hr_status resp = 409 \<and> hr_retry_after resp = ''1'' then
                 if \<not> readable resp \<or> time_sub (sc_retryUntil cfg) (rd_now r) \<le> second then Some (stop ErrGatewayBusy False)
                 else if rd_pause_canceled r \<or> \<not> rd_request_ok r then Some (stop ErrGatewaySession False)
                 else session_loop cfg run rs POST
               else
                 (case valid_session cfg (rd_now r) resp of
                    None \<Rightarrow> Some (stop ErrGatewaySession True)
                  | Some s \<Rightarrow>
                      if sr_State s = ''ACTIVE'' then
                        if sr_EndpointPath s \<noteq> sc_basePath cfg @ uuid_string (sr_SessionID s) @ ''/'' then Some (stop ErrGatewaySession True)
                        else Some \<lparr>lr_result = (if run (sc_origin cfg @ sr_EndpointPath s) then None else Some ErrGatewaySession),
                               lr_cleanup = True, lr_endpoint = Some (sc_origin cfg @ sr_EndpointPath s)\<rparr>
                      else if sr_State s = ''STARTING'' then
                        if sr_EndpointPath s \<noteq> [] then Some (stop ErrGatewaySession True)
                        else if rd_pause_canceled r \<or> \<not> rd_request_ok r then Some (stop ErrGatewaySession True)
                        else session_loop cfg run rs GET
                      else Some (stop ErrGatewaySession True))))"

text \<open>The answer to the DELETE: the status and the retry hints, or \<open>None\<close> when there was none.\<close>

definition session_cleanup :: "(int \<times> string list) option \<Rightarrow> loop_result \<Rightarrow> session_error option" where
  "session_cleanup deletion lr =
     (if \<not> lr_cleanup lr then lr_result lr
      else case deletion of
        None \<Rightarrow> Some ErrGatewayCleanup
      | Some (status, hints) \<Rightarrow>
          if status \<noteq> 204 then Some ErrGatewayCleanup
          else if lr_endpoint lr \<noteq> None \<and> lr_result lr = Some ErrGatewaySession then
            (case gatewayRetryHint hints of Some hint \<Rightarrow> Some hint | None \<Rightarrow> lr_result lr)
          else lr_result lr)"

definition withGatewayClientSession ::
    "session_config \<Rightarrow> (string \<Rightarrow> bool) \<Rightarrow> round list \<Rightarrow> (int \<times> string list) option \<Rightarrow> (session_error option \<times> string option) option" where
  "withGatewayClientSession cfg run rounds deletion =
     (case session_loop cfg run rounds POST of
        None \<Rightarrow> None
      | Some lr \<Rightarrow> Some (session_cleanup deletion lr, lr_endpoint lr))"

definition credential_path :: "credential \<Rightarrow> string" where
  "credential_path c = ''/restic/'' @ uuid_string (c_GatewayID c) @ ''/'' @ uuid_string (c_RepositoryID c) @ ''/''"

definition client_config :: "credential \<Rightarrow> time \<Rightarrow> time \<Rightarrow> session_config" where
  "client_config c now deadline =
     \<lparr>sc_origin = (if has_suffix (c_Endpoint c) (credential_path c)
        then take (length (c_Endpoint c) - length (credential_path c)) (c_Endpoint c) else c_Endpoint c),
      sc_basePath = credential_path c, sc_deadline = deadline, sc_retryUntil = now + seconds 30\<rparr>"

text \<open>\<open>ctx_ok\<close> says that the context is alive at the start; \<open>pool_ok\<close> that the CA bundle of the credential is usable.\<close>

definition WithGatewaySession ::
    "crypto \<Rightarrow> vault \<Rightarrow> uuid \<Rightarrow> time \<Rightarrow> time \<Rightarrow> bool \<Rightarrow> (string \<Rightarrow> bool) \<Rightarrow> round list \<Rightarrow> (int \<times> string list) option
     \<Rightarrow> (session_error option \<times> string option) option" where
  "WithGatewaySession co v operation now deadline ctx_ok run rounds deletion =
     (if \<not> ValidOperationID operation \<or> \<not> deadline > now \<or> \<not> ctx_ok then Some (Some ErrGatewaySession, None)
      else case LoadIdentity v of
        None \<Rightarrow> Some (Some ErrGatewaySession, None)
      | Some i \<Rightarrow>
          (case LoadRepositoryCredential co i v of
             Inl _ \<Rightarrow> Some (Some ErrGatewaySession, None)
           | Inr None \<Rightarrow> Some (Some ErrGatewaySession, None)
           | Inr (Some c) \<Rightarrow>
               if TLSIdentity co v i = None \<or> \<not> ca_pool co (c_CABundlePEM c) then Some (Some ErrGatewaySession, None)
               else withGatewayClientSession (client_config c now deadline) run rounds deletion))"

section \<open>Where the endpoint comes from\<close>

text \<open>The endpoint below a repository path that an active session in the replies stands for.\<close>

definition lent_endpoint :: "session_config \<Rightarrow> round list \<Rightarrow> string \<Rightarrow> bool" where
  "lent_endpoint cfg rounds e \<longleftrightarrow>
     (\<exists>r resp s. r \<in> set rounds \<and> rd_reply r = Response resp \<and> valid_session cfg (rd_now r) resp = Some s \<and> sr_State s = ''ACTIVE'' \<and>
        sr_EndpointPath s = sc_basePath cfg @ uuid_string (sr_SessionID s) @ ''/'' \<and> e = sc_origin cfg @ sr_EndpointPath s)"

lemma lent_endpoint_Cons: "lent_endpoint cfg rs e \<Longrightarrow> lent_endpoint cfg (r # rs) e"
  by (auto simp: lent_endpoint_def)

lemma session_loop_endpoint:
  "session_loop cfg run rounds m = Some lr \<Longrightarrow> lr_endpoint lr = Some e \<Longrightarrow>
     lent_endpoint cfg rounds e \<and> lr_cleanup lr \<and> (lr_result lr = None \<longrightarrow> run e)"
proof (induction cfg run rounds m rule: session_loop.induct)
  case (2 cfg run r rs m)
  show ?case
  proof (cases "rd_reply r")
    case (NetworkError x)
    with 2 show ?thesis by (auto simp: stop_def split: option.splits if_splits)
  next
    case (Response resp)
    note ih = 2(1)[OF Response] 2(2)[OF Response]
    show ?thesis
    proof (cases "(if readable resp then gatewayStatusFailure (hr_status resp) else None)")
      case (Some f)
      with 2 Response show ?thesis by (auto simp: stop_def)
    next
      case None
      show ?thesis
      proof (cases "m = POST \<and> hr_status resp = 409 \<and> hr_retry_after resp = ''1''")
        case True
        with 2(3,4) ih(1)[OF None] Response None show ?thesis
          by (auto simp: stop_def split: if_splits intro: lent_endpoint_Cons)
      next
        case conflict: False
        show ?thesis
        proof (cases "valid_session cfg (rd_now r) resp")
          case None
          with 2(3,4) Response \<open>(if readable resp then gatewayStatusFailure (hr_status resp) else None) = None\<close> conflict
          show ?thesis by (auto simp: stop_def)
        next
          case (Some s)
          have active: "sr_State s = ''ACTIVE'' \<Longrightarrow> sr_EndpointPath s = sc_basePath cfg @ uuid_string (sr_SessionID s) @ ''/'' \<Longrightarrow>
              lent_endpoint cfg (r # rs) (sc_origin cfg @ sc_basePath cfg @ uuid_string (sr_SessionID s) @ ''/'')"
            unfolding lent_endpoint_def
            by (intro exI[of _ r] exI[of _ resp] exI[of _ s]) (simp add: Response Some)
          show ?thesis
            using 2(3,4) Response None conflict Some active ih(2)[OF None conflict Some]
            by (auto simp: stop_def split: if_splits intro: lent_endpoint_Cons)
        qed
      qed
    qed
  qed
qed simp

section \<open>When no session has to be deleted\<close>

text \<open>A reply to a POST that proves that no session was opened.\<close>

definition refused :: "round \<Rightarrow> bool" where
  "refused r \<longleftrightarrow>
     (case rd_reply r of
        NetworkError e \<Rightarrow> ne_dial e \<and> transientGatewayNetwork e
      | Response resp \<Rightarrow> hr_status resp = 409 \<and> hr_retry_after resp = ''1'' \<or>
          readable resp \<and> (hr_status resp = 503 \<or> hr_status resp = 429) \<and> gatewayRetryHint (hr_hints resp) = gatewayStatusFailure (hr_status resp))"

lemma session_loop_GET: "session_loop cfg run rounds m = Some lr \<Longrightarrow> m = GET \<Longrightarrow> lr_cleanup lr"
proof (induction cfg run rounds m rule: session_loop.induct)
  case (2 cfg run r rs m)
  then show ?case
    by (auto simp: stop_def split: reply.splits option.splits if_splits)
qed simp

text \<open>A round after which another POST is sent.\<close>

definition retried :: "session_config \<Rightarrow> round \<Rightarrow> bool" where
  "retried cfg r \<longleftrightarrow>
     (case rd_reply r of
        NetworkError _ \<Rightarrow> False
      | Response resp \<Rightarrow> hr_status resp = 409 \<and> hr_retry_after resp = ''1'' \<and> readable resp \<and>
          \<not> time_sub (sc_retryUntil cfg) (rd_now r) \<le> second \<and> \<not> rd_pause_canceled r \<and> rd_request_ok r)"

lemma session_loop_retried: "retried cfg r \<Longrightarrow> session_loop cfg run (r # rs) POST = session_loop cfg run rs POST"
  by (auto simp: retried_def gatewayStatusFailure_def split: reply.splits)

lemma session_loop_last:
  assumes "session_loop cfg run (r # rs) POST = Some lr" "\<not> lr_cleanup lr" "\<not> retried cfg r"
  shows "refused r \<and> session_loop cfg run [r] POST = Some lr"
proof (cases "rd_reply r")
  case (NetworkError e)
  with assms(1,2) show ?thesis by (auto simp: stop_def refused_def split: option.splits if_splits)
next
  case (Response resp)
  let ?failure = "if readable resp then gatewayStatusFailure (hr_status resp) else None"
  have get: "session_loop cfg run rs GET \<noteq> Some lr"
    using session_loop_GET assms(2) by blast
  show ?thesis
  proof (cases ?failure)
    case (Some f)
    with assms(1,2) Response show ?thesis by (auto simp: stop_def refused_def split: if_splits)
  next
    case None
    show ?thesis
    proof (cases "hr_status resp = 409 \<and> hr_retry_after resp = ''1''")
      case True
      have "\<not> readable resp \<or> time_sub (sc_retryUntil cfg) (rd_now r) \<le> second \<or> rd_pause_canceled r \<or> \<not> rd_request_ok r"
        using assms(3) Response True by (simp add: retried_def)
      with assms(1) Response None True show ?thesis by (auto simp: refused_def)
    next
      case False
      have "lr_cleanup lr"
      proof (cases "valid_session cfg (rd_now r) resp")
        case None
        with assms(1) Response \<open>?failure = None\<close> False show ?thesis by (auto simp: stop_def)
      next
        case (Some s)
        with assms(1) Response \<open>?failure = None\<close> False get show ?thesis by (auto simp: stop_def split: if_splits)
      qed
      with assms(2) show ?thesis by simp
    qed
  qed
qed

text \<open>The replies the loop consumed, down to the one that ended it.\<close>

definition consumed :: "session_config \<Rightarrow> (string \<Rightarrow> bool) \<Rightarrow> round list \<Rightarrow> round list \<Rightarrow> bool" where
  "consumed cfg run rounds used \<longleftrightarrow> prefix used rounds \<and> used \<noteq> [] \<and>
     session_loop cfg run used POST \<noteq> None \<and> session_loop cfg run (butlast used) POST = None"

lemma session_loop_refused:
  "session_loop cfg run rounds POST = Some lr \<Longrightarrow> \<not> lr_cleanup lr \<Longrightarrow> \<exists>used. consumed cfg run rounds used \<and> list_all refused used"
proof (induction rounds)
  case (Cons r rs)
  show ?case
  proof (cases "retried cfg r")
    case True
    with Cons obtain used where used: "consumed cfg run rs used" "list_all refused used"
      using session_loop_retried[OF True, of run rs] by auto
    moreover have "refused r"
      using True by (auto simp: retried_def refused_def split: reply.splits)
    ultimately show ?thesis
      by (intro exI[of _ "r # used"]) (simp add: consumed_def session_loop_retried[OF True] del: session_loop.simps)
  next
    case False
    with session_loop_last[OF Cons.prems] show ?thesis
      by (intro exI[of _ "[r]"]) (simp add: consumed_def del: session_loop.simps(2))
  qed
qed simp

lemma session_loop_stop: "session_loop cfg run rounds m = Some lr \<Longrightarrow> lr_endpoint lr \<noteq> None \<Longrightarrow> lr_cleanup lr"
  using session_loop_endpoint by blast

section \<open>A concrete session, for the witnesses\<close>

definition demo_starting :: session_response where
  "demo_starting = \<lparr>sr_SessionID = 528914269453437118709766, sr_State = ''STARTING'', sr_EndpointPath = [], sr_ExpiresAt = 900\<rparr>"

definition demo_reply :: "session_response \<Rightarrow> round" where
  "demo_reply s = \<lparr>rd_reply = Response \<lparr>hr_status = 200, hr_retry_after = [], hr_hints = [], hr_read_ok = True, hr_length = 200, hr_body = Valid s\<rparr>,
     rd_context = None, rd_now = 100, rd_pause_canceled = False, rd_request_ok = True\<rparr>"

definition demo_endpoint :: string where
  "demo_endpoint = c_Endpoint demo_credential @ uuid_string 528914269453437118709766 @ ''/''"

definition demo_rounds :: "round list" where
  "demo_rounds = [demo_reply demo_starting,
     demo_reply (demo_starting\<lparr>sr_State := ''ACTIVE'', sr_EndpointPath := credential_path demo_credential @ uuid_string 528914269453437118709766 @ ''/''\<rparr>)]"

definition demo_busy :: round where
  "demo_busy = (demo_reply demo_starting)\<lparr>rd_reply := Response \<lparr>hr_status = 409, hr_retry_after = ''1'', hr_hints = [], hr_read_ok = True,
     hr_length = 0, hr_body = Malformed\<rparr>\<rparr>"

definition demo_unreachable :: round where
  "demo_unreachable = (demo_reply demo_starting)\<lparr>rd_reply := NetworkError \<lparr>ne_codes = [ECONNREFUSED], ne_timeout = False,
     ne_dns_temporary = False, ne_dial = True\<rparr>\<rparr>"

section \<open>Properties\<close>

lemma valid_session_facts:
  assumes "valid_session cfg now resp = Some s"
  shows "hr_status resp = 200 \<or> hr_status resp = 202" "hr_body resp = Valid s" "uuid_v7 (sr_SessionID s)"
    "now < sr_ExpiresAt s" "sr_ExpiresAt s \<le> sc_deadline cfg"
  using assms by (auto simp: valid_session_def split: if_splits cell.splits)

lemma credential_endpoint:
  assumes "credential_Validate co c"
  shows "has_suffix (c_Endpoint c) (credential_path c)"
    and "take (length (c_Endpoint c) - length (credential_path c)) (c_Endpoint c) @ credential_path c = c_Endpoint c"
proof -
  show s: "has_suffix (c_Endpoint c) (credential_path c)"
    using assms by (auto simp: credential_Validate_def credential_path_def Let_def split: if_splits)
  then have "drop (length (c_Endpoint c) - length (credential_path c)) (c_Endpoint c) = credential_path c"
    by (simp add: has_suffix_def)
  then show "take (length (c_Endpoint c) - length (credential_path c)) (c_Endpoint c) @ credential_path c = c_Endpoint c"
    by (metis append_take_drop_id)
qed

lemma session_path:
  assumes "credential_Validate co c"
  shows "take (length (c_Endpoint c) - length (credential_path c)) (c_Endpoint c) @ credential_path c @ x = c_Endpoint c @ x"
proof -
  have "(take (length (c_Endpoint c) - length (credential_path c)) (c_Endpoint c) @ credential_path c) @ x = c_Endpoint c @ x"
    unfolding credential_endpoint(2)[OF assms] ..
  then show ?thesis by simp
qed

lemma lent_below_credential:
  assumes "WithGatewaySession co v operation now deadline ctx_ok run rounds deletion = Some (result, Some e)"
  shows "\<exists>i c r resp s. LoadIdentity v = Some i \<and> va_credential v = Some (Valid c) \<and> c_AgentID c = id_AgentID i \<and> c_HostID c = id_HostID i \<and>
    credential_Validate co c \<and> r \<in> set rounds \<and> rd_reply r = Response resp \<and> (hr_status resp = 200 \<or> hr_status resp = 202) \<and> hr_body resp = Valid s \<and>
    sr_State s = ''ACTIVE'' \<and> uuid_v7 (sr_SessionID s) \<and> rd_now r < sr_ExpiresAt s \<and> sr_ExpiresAt s \<le> deadline \<and>
    sr_EndpointPath s = credential_path c @ uuid_string (sr_SessionID s) @ ''/'' \<and> e = c_Endpoint c @ uuid_string (sr_SessionID s) @ ''/'' \<and>
    (result = None \<longrightarrow> run e) \<and> (result \<noteq> Some ErrGatewayCleanup \<longrightarrow> (\<exists>hints. deletion = Some (204, hints)))"
proof -
  let ?cfg = "\<lambda>c. client_config c now deadline"
  from assms obtain i c where i: "LoadIdentity v = Some i" and lc: "LoadRepositoryCredential co i v = Inr (Some c)"
    and w: "withGatewayClientSession (?cfg c) run rounds deletion = Some (result, Some e)"
    by (auto simp: WithGatewaySession_def split: if_splits option.splits sum.splits)
  have c: "va_credential v = Some (Valid c)" "credential_Validate co c" "c_AgentID c = id_AgentID i" "c_HostID c = id_HostID i"
    using lc by (auto simp: LoadRepositoryCredential_def loadRepositoryCredential_def split: if_splits option.splits cell.splits)
  from w obtain lr where lr: "session_loop (?cfg c) run rounds POST = Some lr" "lr_endpoint lr = Some e" "result = session_cleanup deletion lr"
    by (auto simp: withGatewayClientSession_def split: option.splits)
  from session_loop_endpoint[OF lr(1,2)] have le: "lent_endpoint (?cfg c) rounds e"
    and cl: "lr_cleanup lr" and rn: "lr_result lr = None \<longrightarrow> run e" by simp_all
  from le obtain r :: round and resp s where s: "valid_session (?cfg c) (rd_now r) resp = Some s"
    "e = sc_origin (?cfg c) @ sr_EndpointPath s" and act: "r \<in> set rounds" "rd_reply r = Response resp" "sr_State s = ''ACTIVE''"
    and path: "sr_EndpointPath s = credential_path c @ uuid_string (sr_SessionID s) @ ''/''"
    unfolding lent_endpoint_def by (auto simp: client_config_def)
  note vs = valid_session_facts[OF s(1)]
  have "e = c_Endpoint c @ uuid_string (sr_SessionID s) @ ''/''"
    using s(2)[unfolded path] session_path[OF c(2)] credential_endpoint(1)[OF c(2)] by (simp add: client_config_def)
  moreover have "result = None \<longrightarrow> run e" "result \<noteq> Some ErrGatewayCleanup \<longrightarrow> (\<exists>hints. deletion = Some (204, hints))"
    using lr(2,3) cl rn by (auto simp: session_cleanup_def split: option.splits if_splits prod.splits)
  ultimately show ?thesis
    using i c act path vs by (intro exI[of _ i] exI[of _ c] exI[of _ r] exI[of _ resp] exI[of _ s] conjI) (simp_all add: client_config_def)
qed

text \<open>C31: The endpoint lent to Restic is that of an active session: one of the gateway's replies, a 200 or 202, carries a session in the
  state \<open>ACTIVE\<close> that has not expired and expires no later than the deadline, whose path is its identifier below the repository path
  of the stored, valid credential of this Agent, and the endpoint is the credential's endpoint followed by that identifier. A session is
  successful only when the run was, and its deletion is confirmed unless the result says otherwise.\<close>

theorem session_endpoint_below_credential:
  assumes "WithGatewaySession co v operation now deadline ctx_ok run rounds deletion = Some (result, Some e)"
  shows "\<exists>i c r resp s. LoadIdentity v = Some i \<and> va_credential v = Some (Valid c) \<and> c_AgentID c = id_AgentID i \<and> c_HostID c = id_HostID i \<and>
    credential_Validate co c \<and> r \<in> set rounds \<and> rd_reply r = Response resp \<and> (hr_status resp = 200 \<or> hr_status resp = 202) \<and> hr_body resp = Valid s \<and>
    sr_State s = ''ACTIVE'' \<and> uuid_v7 (sr_SessionID s) \<and> rd_now r < sr_ExpiresAt s \<and> sr_ExpiresAt s \<le> deadline \<and>
    sr_EndpointPath s = credential_path c @ uuid_string (sr_SessionID s) @ ''/'' \<and> e = c_Endpoint c @ uuid_string (sr_SessionID s) @ ''/'' \<and>
    (result = None \<longrightarrow> run e) \<and> (result \<noteq> Some ErrGatewayCleanup \<longrightarrow> (\<exists>hints. deletion = Some (204, hints)))"
  using lent_below_credential[OF assms] .

lemma demo_loop:
  assumes "sc_deadline cfg = 1000" "sc_basePath cfg = credential_path demo_credential"
  shows "session_loop cfg run demo_rounds POST = Some \<lparr>lr_result = (if run (sc_origin cfg @ credential_path demo_credential @ uuid_string 528914269453437118709766 @ ''/'') then None else Some ErrGatewaySession),
    lr_cleanup = True, lr_endpoint = Some (sc_origin cfg @ credential_path demo_credential @ uuid_string 528914269453437118709766 @ ''/'')\<rparr>"
proof -
  have v: "uuid_v7 528914269453437118709766"
    by (simp add: uuid_v7_def uuid_version_def uuid_rfc4122_def)
  show ?thesis
    using assms v by (simp add: demo_rounds_def demo_reply_def demo_starting_def readable_def gatewayStatusFailure_def valid_session_def time_sub_def
        max_int64_def min_int64_def)
qed

lemma demo_session:
  assumes "ValidOperationID operation" "run demo_endpoint"
  shows "WithGatewaySession demo_crypto demo_vault operation 10 1000 True run demo_rounds (Some (204, [])) = Some (None, Some demo_endpoint)"
proof -
  have l: "LoadIdentity demo_vault = Some demo_identity"
    by (simp add: LoadIdentity_def demo_vault_def demo_identity_def uuid_nil_def)
  have c: "LoadRepositoryCredential demo_crypto demo_identity demo_vault = Inr (Some demo_credential)"
    using demo_credential_valid
    by (simp add: LoadRepositoryCredential_def loadRepositoryCredential_def demo_vault_def) (simp add: demo_credential_def demo_identity_def)
  have t: "TLSIdentity demo_crypto demo_vault demo_identity \<noteq> None" "ca_pool demo_crypto (c_CABundlePEM demo_credential)"
    by (simp_all add: TLSIdentity_def demo_crypto_def demo_vault_def)
  note ends = credential_endpoint(1)[OF demo_credential_valid] session_path[OF demo_credential_valid]
  show ?thesis
    using t assms by (simp add: WithGatewaySession_def withGatewayClientSession_def session_cleanup_def demo_endpoint_def client_config_def l c ends demo_loop)
qed

theorem session_endpoint_below_credential_witness:
  "WithGatewaySession demo_crypto demo_vault 528914269453437118709761 10 1000 True (\<lambda>_. True) demo_rounds (Some (204, [])) =
     Some (None, Some demo_endpoint) \<and>
   (\<exists>r resp s. r \<in> set demo_rounds \<and> rd_reply r = Response resp \<and> hr_body resp = Valid s \<and> sr_State s = ''ACTIVE'' \<and>
      demo_endpoint = c_Endpoint demo_credential @ uuid_string (sr_SessionID s) @ ''/'')"
proof -
  have o: "ValidOperationID 528914269453437118709761"
    by (simp add: ValidOperationID_def uuid_version_def uuid_rfc4122_def)
  have w: "WithGatewaySession demo_crypto demo_vault 528914269453437118709761 10 1000 True (\<lambda>_. True) demo_rounds (Some (204, [])) =
     Some (None, Some demo_endpoint)"
    by (rule demo_session[OF o]) simp
  have c: "va_credential demo_vault = Some (Valid demo_credential)"
    by (simp add: demo_vault_def)
  from session_endpoint_below_credential[OF w] obtain r resp s where "r \<in> set demo_rounds" "rd_reply r = Response resp"
    "hr_body resp = Valid s" "sr_State s = ''ACTIVE''" "demo_endpoint = c_Endpoint demo_credential @ uuid_string (sr_SessionID s) @ ''/''"
    unfolding c by auto
  with w show ?thesis by blast
qed

text \<open>C32: A session that may have been opened is never left behind unnoticed: when the caller returns, the deletion was confirmed, or
  the result says that the cleanup is unconfirmed, or nothing was run and every single reply the loop received, from the first to the
  one that ended it, proves that its request opened no session.\<close>

theorem no_session_left_behind:
  assumes "withGatewayClientSession cfg run rounds deletion = Some (result, e)"
  shows "(\<exists>hints. deletion = Some (204, hints)) \<or> result = Some ErrGatewayCleanup \<or>
    (e = None \<and> (\<exists>used. prefix used rounds \<and> used \<noteq> [] \<and> session_loop cfg run used POST \<noteq> None \<and>
       session_loop cfg run (butlast used) POST = None \<and> list_all refused used))"
proof -
  from assms obtain lr where lr: "session_loop cfg run rounds POST = Some lr" "result = session_cleanup deletion lr" "e = lr_endpoint lr"
    by (auto simp: withGatewayClientSession_def split: option.splits)
  show ?thesis
  proof (cases "lr_cleanup lr")
    case True
    with lr(2) show ?thesis
      by (auto simp: session_cleanup_def split: option.splits prod.splits if_splits)
  next
    case False
    with session_loop_refused[OF lr(1)] session_loop_stop[OF lr(1)] lr(3) show ?thesis
      unfolding consumed_def by blast
  qed
qed

theorem no_session_left_behind_witness:
  "withGatewayClientSession (client_config demo_credential 10 1000) (\<lambda>_. True) [demo_busy, demo_unreachable, demo_busy] None =
     Some (Some ErrGatewayUnavailable, None) \<and> refused demo_busy \<and> refused demo_unreachable"
proof -
  let ?cfg = "client_config demo_credential 10 1000"
  have loop: "session_loop ?cfg (\<lambda>_. True) (demo_busy # rs) POST = session_loop ?cfg (\<lambda>_. True) rs POST"
    "session_loop ?cfg (\<lambda>_. True) (demo_unreachable # rs) POST = Some (stop ErrGatewayUnavailable False)" for rs
    by (simp_all add: demo_busy_def demo_unreachable_def demo_reply_def readable_def gatewayStatusFailure_def transientGatewayNetwork_def
        client_config_def time_sub_def seconds_def wrap64_def second_def max_int64_def min_int64_def)
  have w: "withGatewayClientSession ?cfg (\<lambda>_. True) [demo_busy, demo_unreachable, demo_busy] None = Some (Some ErrGatewayUnavailable, None)"
    by (simp only: withGatewayClientSession_def loop) (simp add: session_cleanup_def stop_def)
  from no_session_left_behind[OF w] obtain used where "prefix used [demo_busy, demo_unreachable, demo_busy]"
    "session_loop ?cfg (\<lambda>_. True) used POST \<noteq> None" "used \<noteq> []" "list_all refused used"
    by auto
  then have "refused demo_busy \<and> refused demo_unreachable"
    by (auto simp: prefix_Cons loop simp del: session_loop.simps(2))
  with w show ?thesis by blast
qed

end
