(* ===== verification/Restic_Output.thy ===== *)
theory Restic_Output
  imports Agent_Logs Agent_Session
begin

text \<open>
  Reading what Restic prints (\<open>internal/agent/restic/restic_linux.go\<close>, the sinks of \<open>internal/agent/backup.go\<close>):
  the JSON events, the progress sink on standard output, the warning sink on standard error and the bounded copy of the error text.
  \<open>decode\<close> gives what \<open>json.Unmarshal\<close> reads from a line into the structures the code uses. A \<open>float64\<close> \<open>Finite m e\<close> is
  \<open>m * 2 ^ e\<close>. The clock of a sink is read once more for each \<open>time.Now()\<close>.
\<close>

section \<open>Model\<close>

subsection \<open>Floating point\<close>

fun bit_len :: "nat \<Rightarrow> nat" where
  "bit_len n = (if n = 0 then 0 else Suc (bit_len (n div 2)))"

declare bit_len.simps [simp del]

text \<open>\<open>m * 2 ^ e\<close> rounded to 53 bits, ties to even.\<close>

definition round53 :: "int \<Rightarrow> int \<Rightarrow> float64" where
  "round53 m e =
     (let k = bit_len (nat \<bar>m\<bar>) - 53
      in if k = 0 then Finite m e
         else
           (let q = \<bar>m\<bar> div 2 ^ k; r = \<bar>m\<bar> mod 2 ^ k
            in Finite (sgn m * (if r > 2 ^ (k - 1) \<or> r = 2 ^ (k - 1) \<and> odd q then q + 1 else q)) (e + int k)))"

definition scaled :: "int \<Rightarrow> int \<Rightarrow> int \<Rightarrow> int" where
  "scaled m e low = m * 2 ^ nat (e - low)"

fun float_less :: "float64 \<Rightarrow> float64 \<Rightarrow> bool" where
  "float_less (Finite m e) (Finite n f) = (scaled m e (min e f) < scaled n f (min e f))"
| "float_less NegInf (Finite n f) = True"
| "float_less NegInf PosInf = True"
| "float_less (Finite m e) PosInf = True"
| "float_less _ _ = False"

text \<open>The difference of two finite numbers; that is all the code subtracts.\<close>

fun float_sub :: "float64 \<Rightarrow> float64 \<Rightarrow> float64" where
  "float_sub (Finite m e) (Finite n f) = round53 (scaled m e (min e f) - scaled n f (min e f)) (min e f)"
| "float_sub _ _ = NaN"

definition float_ge :: "float64 \<Rightarrow> float64 \<Rightarrow> bool" where
  "float_ge x y \<longleftrightarrow> x \<noteq> NaN \<and> y \<noteq> NaN \<and> \<not> float_less x y"

definition float_zero :: float64 where
  "float_zero = Finite 0 0"

text \<open>The constant 0.05.\<close>

definition percent_step :: float64 where
  "percent_step = Finite 3602879701896397 (- 56)"

subsection \<open>Events\<close>

text \<open>\<open>BackupSummary.Validate\<close>: true for no error.\<close>

definition summary_Validate :: "backup_summary \<Rightarrow> bool" where
  "summary_Validate s =
     (if list_ex (\<lambda>n. n < 0) [FilesNew s, FilesChanged s, FilesUnmodified s, DirsNew s, DirsChanged s, DirsUnmodified s,
           DataAdded s, DataAddedPacked s, TotalFilesProcessed s, TotalBytesProcessed s, WarningCount s] then False
      else if float_less (TotalDuration s) float_zero \<or> TotalDuration s = NaN \<or> TotalDuration s = PosInf \<or> TotalDuration s = NegInf
      then False
      else case (BackupStart s, BackupEnd s) of (Some a, Some b) \<Rightarrow> \<not> b < a | _ \<Rightarrow> True)"

record wire_event =
  we_MessageType :: string
  we_PercentDone :: "float64 option"
  we_FilesDone :: "int option"
  we_FilesProcessed :: "int option"
  we_BytesProcessed :: "int option"
  we_TotalFiles :: "int option"
  we_BytesDone :: "int option"
  we_TotalBytes :: "int option"
  we_SnapshotID :: string
  we_FilesNew :: "int option"
  we_DataAdded :: "int option"
  we_Message :: string

text \<open>A line as the three structures it is decoded into: the message type alone, the event and the summary.\<close>

record line_json =
  lj_header :: "string cell"
  lj_wire :: "wire_event cell"
  lj_summary :: "backup_summary cell"

record event =
  ev_Type :: string
  ev_PercentDone :: float64
  ev_FilesDone :: int
  ev_TotalFiles :: int
  ev_BytesDone :: int
  ev_TotalBytes :: int
  ev_SnapshotID :: string
  ev_FilesNew :: int
  ev_DataAdded :: int
  ev_Message :: string
  ev_Summary :: "backup_summary option"

definition no_event :: event where
  "no_event = \<lparr>ev_Type = [], ev_PercentDone = float_zero, ev_FilesDone = 0, ev_TotalFiles = 0, ev_BytesDone = 0, ev_TotalBytes = 0,
     ev_SnapshotID = [], ev_FilesNew = 0, ev_DataAdded = 0, ev_Message = [], ev_Summary = None\<rparr>"

definition or_zero :: "int option \<Rightarrow> int" where
  "or_zero x = (case x of None \<Rightarrow> 0 | Some n \<Rightarrow> n)"

definition negative :: "int option \<Rightarrow> bool" where
  "negative x = (case x of None \<Rightarrow> False | Some n \<Rightarrow> n < 0)"

text \<open>Sixty-four lower-case hexadecimal digits.\<close>

definition valid_snapshot_id :: "string \<Rightarrow> bool" where
  "valid_snapshot_id s \<longleftrightarrow> length s = 64 \<and> list_all (\<lambda>c. 48 \<le> byte c \<and> byte c \<le> 57 \<or> 97 \<le> byte c \<and> byte c \<le> 102) s"

definition status_event :: "wire_event \<Rightarrow> event" where
  "status_event w = no_event\<lparr>ev_Type := ''status'', ev_PercentDone := (case we_PercentDone w of None \<Rightarrow> float_zero | Some p \<Rightarrow> p),
     ev_FilesDone := or_zero (we_FilesDone w), ev_TotalFiles := or_zero (we_TotalFiles w), ev_BytesDone := or_zero (we_BytesDone w),
     ev_TotalBytes := or_zero (we_TotalBytes w)\<rparr>"

text \<open>The event of a summary line; \<open>Inl\<close> is an error.\<close>

definition summary_event :: "wire_event \<Rightarrow> backup_summary cell \<Rightarrow> unit + event" where
  "summary_event w decoded =
     (case (we_FilesNew w, we_DataAdded w, we_FilesProcessed w, we_BytesProcessed w) of
        (Some filesNew, Some dataAdded, Some filesProcessed, Some bytesProcessed) \<Rightarrow>
          if we_SnapshotID w \<noteq> [] \<and> \<not> valid_snapshot_id (we_SnapshotID w) then Inl ()
          else (case decoded of
             Malformed \<Rightarrow> Inl ()
           | Valid summary \<Rightarrow>
               if \<not> summary_Validate summary then Inl ()
               else Inr (no_event\<lparr>ev_Type := ''summary'', ev_SnapshotID := we_SnapshotID w, ev_Summary := Some summary,
                 ev_FilesNew := filesNew, ev_DataAdded := dataAdded, ev_FilesDone := filesProcessed, ev_BytesDone := bytesProcessed\<rparr>))
      | _ \<Rightarrow> Inl ())"

text \<open>\<open>ParseEvent\<close>: an error, no usable event, or the event.\<close>

definition ParseEvent :: "(string \<Rightarrow> line_json) \<Rightarrow> string \<Rightarrow> unit + event option" where
  "ParseEvent decode raw =
     (let line = trim_space raw
      in if line = [] then Inr None
         else case lj_header (decode line) of
           Malformed \<Rightarrow> Inl ()
         | Valid typ \<Rightarrow>
             if typ = [] then Inl ()
             else if typ \<noteq> ''status'' \<and> typ \<noteq> ''summary'' \<and> typ \<noteq> ''error'' then Inr None
             else (case lj_wire (decode line) of
                Malformed \<Rightarrow> Inl ()
              | Valid w \<Rightarrow>
                  if list_ex negative [we_FilesDone w, we_TotalFiles w, we_BytesDone w, we_TotalBytes w, we_FilesNew w, we_DataAdded w,
                        we_FilesProcessed w, we_BytesProcessed w] then Inl ()
                  else if (case we_PercentDone w of None \<Rightarrow> False | Some p \<Rightarrow> float_less p float_zero \<or> float_less (Finite 1 0) p) then Inl ()
                  else if we_MessageType w = ''status'' then Inr (Some (status_event w))
                  else if we_MessageType w = ''summary'' then
                    (case summary_event w (lj_summary (decode line)) of Inl e \<Rightarrow> Inl e | Inr ev \<Rightarrow> Inr (Some ev))
                  else if we_MessageType w = ''error'' then Inr (Some (no_event\<lparr>ev_Type := ''error'', ev_Message := we_Message w\<rparr>))
                  else Inr None))"

subsection \<open>The progress sink\<close>

record progress =
  pg_sawSummary :: bool
  pg_snapshotID :: string
  pg_files :: int
  pg_totalFiles :: int
  pg_bytes :: int
  pg_totalBytes :: int
  pg_filesNew :: int
  pg_dataAdded :: int
  pg_lastWrite :: time
  pg_lastPercent :: float64
  pg_pendingLine :: string
  pg_summary :: "backup_summary option"
  pg_warnings :: int
  pg_errorCode :: string
  pg_canceled :: bool
  pg_clock :: "nat \<Rightarrow> time"
  pg_reads :: nat

definition line_limit :: nat where
  "line_limit = 1048576"

definition progress_fail :: "string \<Rightarrow> progress \<Rightarrow> progress" where
  "progress_fail code p =
     (if pg_errorCode p = [] then p\<lparr>pg_errorCode := code, pg_pendingLine := [], pg_canceled := True\<rparr> else p)"

definition read_clock :: "progress \<Rightarrow> time \<times> progress" where
  "read_clock p = (pg_clock p (pg_reads p), p\<lparr>pg_reads := Suc (pg_reads p)\<rparr>)"

text \<open>A log entry of the operation; a failure ends the run.\<close>

definition progress_log :: "uuid \<Rightarrow> string \<Rightarrow> string \<Rightarrow> progress \<times> agent \<Rightarrow> progress \<times> agent" where
  "progress_log operation level code ps =
     (case read_clock (fst ps) of (now, p) \<Rightarrow>
      case operationLog now operation ''backup'' level code (pg_files p) (pg_bytes p) (snd ps) of
        (t, Inr _) \<Rightarrow> (p, t)
      | (t, Inl _) \<Rightarrow> (progress_fail ''STATE_STORAGE_UNAVAILABLE'' p, t))"

definition persisted_record :: "progress \<Rightarrow> operation_record \<Rightarrow> operation_record" where
  "persisted_record p r =
     (if Terminal r then r
      else
        (let r' = r\<lparr>op_FilesDone := pg_files p, op_TotalFiles := pg_totalFiles p, op_BytesDone := pg_bytes p, op_TotalBytes := pg_totalBytes p,
           op_FilesNew := pg_filesNew p, op_DataAdded := pg_dataAdded p, op_Summary := pg_summary p\<rparr>
         in if pg_snapshotID p \<noteq> [] then r'\<lparr>op_SnapshotID := pg_snapshotID p\<rparr> else r'))"

definition progress_persist :: "uuid \<Rightarrow> progress \<times> agent \<Rightarrow> progress \<times> agent" where
  "progress_persist operation ps =
     (case updateOperation operation (persisted_record (fst ps)) (snd ps) of
        (t, Inl _) \<Rightarrow> (progress_fail ''STATE_STORAGE_UNAVAILABLE'' (fst ps), t)
      | (t, Inr _) \<Rightarrow> progress_log operation ''INFO'' ''BACKUP_PROGRESS'' (fst ps, t))"

definition consume_status :: "uuid \<Rightarrow> event \<Rightarrow> progress \<times> agent \<Rightarrow> progress \<times> agent" where
  "consume_status operation ev ps =
     (case read_clock ((fst ps)\<lparr>pg_files := ev_FilesDone ev, pg_totalFiles := ev_TotalFiles ev, pg_bytes := ev_BytesDone ev,
        pg_totalBytes := ev_TotalBytes ev\<rparr>) of (now, p) \<Rightarrow>
      if time_sub now (pg_lastWrite p) \<ge> 2 * second \<or> float_ge (float_sub (ev_PercentDone ev) (pg_lastPercent p)) percent_step
      then progress_persist operation (p\<lparr>pg_lastWrite := now, pg_lastPercent := ev_PercentDone ev\<rparr>, snd ps)
      else (p, snd ps))"

definition consume_summary :: "uuid \<Rightarrow> event \<Rightarrow> progress \<times> agent \<Rightarrow> progress \<times> agent" where
  "consume_summary operation ev ps =
     (let p = fst ps
      in if pg_sawSummary p then (progress_fail ''INVALID_ENGINE_OUTPUT'' p, snd ps)
         else progress_log operation ''INFO'' ''BACKUP_SUMMARY'' (progress_persist operation
           (p\<lparr>pg_sawSummary := True, pg_snapshotID := ev_SnapshotID ev,
              pg_summary := map_option (\<lambda>s. s\<lparr>WarningCount := pg_warnings p\<rparr>) (ev_Summary ev),
              pg_filesNew := ev_FilesNew ev, pg_dataAdded := ev_DataAdded ev,
              pg_files := (if ev_FilesDone ev > 0 then ev_FilesDone ev else pg_files p), pg_bytes := ev_BytesDone ev\<rparr>, snd ps)))"

definition progress_consume :: "(string \<Rightarrow> line_json) \<Rightarrow> uuid \<Rightarrow> string \<Rightarrow> progress \<times> agent \<Rightarrow> progress \<times> agent" where
  "progress_consume decode operation line ps =
     (case ParseEvent decode line of
        Inl _ \<Rightarrow> (progress_fail ''INVALID_ENGINE_OUTPUT'' (fst ps), snd ps)
      | Inr None \<Rightarrow> ps
      | Inr (Some ev) \<Rightarrow>
          if ev_Type ev = ''status'' then consume_status operation ev ps
          else if ev_Type ev = ''summary'' then consume_summary operation ev ps
          else if ev_Type ev = ''error'' then
            progress_log operation ''WARN'' ''ENGINE_READ_ERROR'' ((fst ps)\<lparr>pg_warnings := pg_warnings (fst ps) + 1\<rparr>, snd ps)
          else ps)"

text \<open>\<open>Write\<close>: the loop over the lines of a chunk.\<close>

definition newline :: char where
  "newline = CHR 0x0A"

lemma go_cut_shorter: "go_cut c s = Some (a, b) \<Longrightarrow> length b < length s"
  by (induction c s arbitrary: a b rule: go_cut.induct) (auto split: if_splits option.splits)

function progress_write :: "(string \<Rightarrow> line_json) \<Rightarrow> uuid \<Rightarrow> string \<Rightarrow> progress \<times> agent \<Rightarrow> progress \<times> agent" where
  "progress_write decode operation chunk ps =
     (if chunk = [] \<or> pg_errorCode (fst ps) \<noteq> [] then ps
      else case go_cut newline chunk of
        None \<Rightarrow>
          if length (pg_pendingLine (fst ps)) + length chunk > line_limit
          then (progress_fail ''INVALID_ENGINE_OUTPUT'' (fst ps), snd ps)
          else ((fst ps)\<lparr>pg_pendingLine := pg_pendingLine (fst ps) @ chunk\<rparr>, snd ps)
      | Some (part, rest) \<Rightarrow>
          if length (pg_pendingLine (fst ps)) + length part > line_limit
          then (progress_fail ''INVALID_ENGINE_OUTPUT'' (fst ps), snd ps)
          else
            (let line = pg_pendingLine (fst ps) @ part;
                 qs = progress_consume decode operation line ((fst ps)\<lparr>pg_pendingLine := line\<rparr>, snd ps)
             in progress_write decode operation rest ((fst qs)\<lparr>pg_pendingLine := []\<rparr>, snd qs)))"
  by pat_completeness auto

termination by (relation "measure (\<lambda>(_, _, chunk, _). length chunk)") (auto dest: go_cut_shorter)

declare progress_write.simps [simp del]

definition progress_finish :: "(string \<Rightarrow> line_json) \<Rightarrow> uuid \<Rightarrow> progress \<times> agent \<Rightarrow> progress \<times> agent" where
  "progress_finish decode operation ps =
     (let qs = (if pg_errorCode (fst ps) = [] \<and> pg_pendingLine (fst ps) \<noteq> []
                then progress_consume decode operation (pg_pendingLine (fst ps)) ps else ps)
      in ((fst qs)\<lparr>pg_pendingLine := []\<rparr>, snd qs))"

subsection \<open>The warning sink\<close>

record warning_sink =
  ws_pending :: string
  ws_count :: int
  ws_discarding :: bool

definition warning_finish :: "(string \<Rightarrow> line_json) \<Rightarrow> warning_sink \<Rightarrow> warning_sink" where
  "warning_finish decode w =
     \<lparr>ws_pending = [],
      ws_count = (if \<not> ws_discarding w \<and> lj_header (decode (ws_pending w)) = Valid ''error'' then ws_count w + 1 else ws_count w),
      ws_discarding = False\<rparr>"

text \<open>The part of a chunk up to the end of a line.\<close>

definition warning_part :: "string \<Rightarrow> warning_sink \<Rightarrow> warning_sink" where
  "warning_part part w =
     (let w' = (if length (ws_pending w) + length part > line_limit then w\<lparr>ws_pending := [], ws_discarding := True\<rparr> else w)
      in if \<not> ws_discarding w' then w'\<lparr>ws_pending := ws_pending w' @ part\<rparr> else w')"

function warning_write :: "(string \<Rightarrow> line_json) \<Rightarrow> string \<Rightarrow> warning_sink \<Rightarrow> warning_sink" where
  "warning_write decode chunk w =
     (if chunk = [] then w
      else case go_cut newline chunk of
        None \<Rightarrow> warning_part chunk w
      | Some (part, rest) \<Rightarrow> warning_write decode rest (warning_finish decode (warning_part part w)))"
  by pat_completeness auto

termination by (relation "measure (\<lambda>(_, chunk, _). length chunk)") (auto dest: go_cut_shorter)

declare warning_write.simps [simp del]

subsection \<open>The error text\<close>

record limited_buffer =
  lb_buffer :: string
  lb_limit :: int
  lb_truncated :: bool

definition limited_write :: "string \<Rightarrow> limited_buffer \<Rightarrow> limited_buffer" where
  "limited_write p b =
     (let remaining = lb_limit b - int (length (lb_buffer b))
      in if remaining \<le> 0 then b\<lparr>lb_truncated := True\<rparr>
         else if int (length p) > remaining then b\<lparr>lb_truncated := True, lb_buffer := lb_buffer b @ take (nat remaining) p\<rparr>
         else b\<lparr>lb_buffer := lb_buffer b @ p\<rparr>)"

text \<open>The text with an ellipsis (U+2026) when something was cut off.\<close>

definition limited_string :: "limited_buffer \<Rightarrow> string" where
  "limited_string b = (if lb_truncated b then lb_buffer b @ map char_of [226 :: nat, 128, 166] else lb_buffer b)"

section \<open>The sinks do not depend on how the output is cut into chunks\<close>

lemma go_cut_prefix: "c \<notin> set a \<Longrightarrow> go_cut c (a @ b) = map_option (\<lambda>(x, y). (a @ x, y)) (go_cut c b)"
  by (induction a) (auto simp: option.map_comp comp_def case_prod_unfold option.map_ident)

text \<open>The progress sink, one byte at a time.\<close>

definition progress_byte :: "(string \<Rightarrow> line_json) \<Rightarrow> uuid \<Rightarrow> progress \<times> agent \<Rightarrow> char \<Rightarrow> progress \<times> agent" where
  "progress_byte decode operation ps c =
     (if pg_errorCode (fst ps) \<noteq> [] then ps
      else if c = newline then
        if length (pg_pendingLine (fst ps)) > line_limit then (progress_fail ''INVALID_ENGINE_OUTPUT'' (fst ps), snd ps)
        else
          (let qs = progress_consume decode operation (pg_pendingLine (fst ps)) ps
           in ((fst qs)\<lparr>pg_pendingLine := []\<rparr>, snd qs))
      else if length (pg_pendingLine (fst ps)) + 1 > line_limit then (progress_fail ''INVALID_ENGINE_OUTPUT'' (fst ps), snd ps)
      else ((fst ps)\<lparr>pg_pendingLine := pg_pendingLine (fst ps) @ [c]\<rparr>, snd ps))"

lemma progress_fail_error [simp]: "code \<noteq> [] \<Longrightarrow> pg_errorCode (progress_fail code p) \<noteq> []"
  by (simp add: progress_fail_def)

lemma progress_bytes_error: "pg_errorCode (fst ps) \<noteq> [] \<Longrightarrow> foldl (progress_byte decode operation) ps s = ps"
  by (induction s) (simp_all add: progress_byte_def)

lemma progress_fail_pending [simp]:
  "progress_fail code (p\<lparr>pg_pendingLine := x\<rparr>) = (if pg_errorCode p = [] then progress_fail code p else p\<lparr>pg_pendingLine := x\<rparr>)"
  by (simp add: progress_fail_def)

text \<open>The bytes of a line before its end.\<close>

lemma progress_bytes_part:
  "newline \<notin> set part \<Longrightarrow> part \<noteq> [] \<Longrightarrow> pg_errorCode (fst ps) = [] \<Longrightarrow>
     foldl (progress_byte decode operation) ps part =
       (if length (pg_pendingLine (fst ps)) + length part > line_limit
        then (progress_fail ''INVALID_ENGINE_OUTPUT'' (fst ps), snd ps)
        else ((fst ps)\<lparr>pg_pendingLine := pg_pendingLine (fst ps) @ part\<rparr>, snd ps))"
proof (induction part arbitrary: ps)
  case (Cons c part)
  let ?p = "fst ps"
  show ?case
  proof (cases "length (pg_pendingLine ?p) + 1 > line_limit")
    case True
    with Cons.prems have "progress_byte decode operation ps c = (progress_fail ''INVALID_ENGINE_OUTPUT'' ?p, snd ps)"
      by (auto simp: progress_byte_def)
    with True show ?thesis by (simp add: progress_bytes_error)
  next
    case False
    with Cons.prems have b: "progress_byte decode operation ps c = (?p\<lparr>pg_pendingLine := pg_pendingLine ?p @ [c]\<rparr>, snd ps)"
      by (auto simp: progress_byte_def)
    show ?thesis
    proof (cases "part = []")
      case True
      with b False show ?thesis by simp
    next
      case ne: False
      have "foldl (progress_byte decode operation) ps (c # part) =
          foldl (progress_byte decode operation) (?p\<lparr>pg_pendingLine := pg_pendingLine ?p @ [c]\<rparr>, snd ps) part"
        by (simp add: b)
      also have "\<dots> = (if length (pg_pendingLine ?p) + length (c # part) > line_limit
        then (progress_fail ''INVALID_ENGINE_OUTPUT'' ?p, snd ps)
        else (?p\<lparr>pg_pendingLine := pg_pendingLine ?p @ c # part\<rparr>, snd ps))"
        using Cons.prems ne by (subst Cons.IH) auto
      finally show ?thesis .
    qed
  qed
qed simp

lemma progress_bytes_line:
  assumes "newline \<notin> set part" and "pg_errorCode (fst ps) = []"
  shows "foldl (progress_byte decode operation) ps (part @ [newline]) =
    (if length (pg_pendingLine (fst ps)) + length part > line_limit
     then (progress_fail ''INVALID_ENGINE_OUTPUT'' (fst ps), snd ps)
     else
       (let line = pg_pendingLine (fst ps) @ part;
            qs = progress_consume decode operation line ((fst ps)\<lparr>pg_pendingLine := line\<rparr>, snd ps)
        in ((fst qs)\<lparr>pg_pendingLine := []\<rparr>, snd qs)))"
proof (cases "part = []")
  case True
  have "(fst ps)\<lparr>pg_pendingLine := pg_pendingLine (fst ps)\<rparr> = fst ps" by simp
  with True assms(2) show ?thesis by (simp add: progress_byte_def)
next
  case False
  note part = progress_bytes_part[OF assms(1) False assms(2), of decode operation]
  show ?thesis
  proof (cases "length (pg_pendingLine (fst ps)) + length part > line_limit")
    case True
    with part show ?thesis by (simp add: progress_byte_def)
  next
    case fits: False
    with part assms(2) show ?thesis by (simp add: progress_byte_def Let_def)
  qed
qed

lemma progress_write_bytes: "progress_write decode operation chunk ps = foldl (progress_byte decode operation) ps chunk"
proof (induction decode operation chunk ps rule: progress_write.induct)
  case (1 decode operation chunk ps)
  show ?case
  proof (cases "chunk = [] \<or> pg_errorCode (fst ps) \<noteq> []")
    case True
    then show ?thesis by (auto simp: progress_write.simps progress_bytes_error)
  next
    case False
    show ?thesis
    proof (cases "go_cut newline chunk")
      case None
      then have "newline \<notin> set chunk" by (simp add: go_cut_None)
      with False None progress_bytes_part[of chunk ps decode operation] show ?thesis
        by (simp add: progress_write.simps[of decode operation chunk])
    next
      case (Some x)
      then obtain part rest where cut: "go_cut newline chunk = Some (part, rest)" by (cases x) auto
      then have ch: "chunk = (part @ [newline]) @ rest" and no: "newline \<notin> set part"
        by (simp_all add: go_cut_Some)
      have fold: "foldl (progress_byte decode operation) ps chunk =
          foldl (progress_byte decode operation) (foldl (progress_byte decode operation) ps (part @ [newline])) rest"
        unfolding ch by (simp only: foldl_append)
      have line: "foldl (progress_byte decode operation) ps (part @ [newline]) = (if length (pg_pendingLine (fst ps)) + length part > line_limit
          then (progress_fail ''INVALID_ENGINE_OUTPUT'' (fst ps), snd ps)
          else (let line = pg_pendingLine (fst ps) @ part;
            qs = progress_consume decode operation line ((fst ps)\<lparr>pg_pendingLine := line\<rparr>, snd ps)
            in ((fst qs)\<lparr>pg_pendingLine := []\<rparr>, snd qs)))"
        by (rule progress_bytes_line[OF no]) (use False in simp)
      show ?thesis
      proof (cases "length (pg_pendingLine (fst ps)) + length part > line_limit")
        case True
        with False cut show ?thesis
          unfolding fold line by (simp add: progress_write.simps[of decode operation chunk] progress_bytes_error)
      next
        case fits: False
        with 1[OF False cut] False cut show ?thesis
          unfolding fold line by (simp add: progress_write.simps[of decode operation chunk] Let_def)
      qed
    qed
  qed
qed

lemma foldl_concat: "foldl (\<lambda>s xs. foldl f s xs) s xss = foldl f s (concat xss)"
  by (induction xss arbitrary: s) auto

text \<open>The warning sink, one byte at a time, on the number of warnings and the line so far.\<close>

definition warning_line :: "(string \<Rightarrow> line_json) \<Rightarrow> string \<Rightarrow> bool" where
  "warning_line decode l \<longleftrightarrow> length l \<le> line_limit \<and> lj_header (decode l) = Valid ''error''"

definition sink_of :: "int \<times> string \<Rightarrow> warning_sink" where
  "sink_of nl = \<lparr>ws_pending = (if length (snd nl) > line_limit then [] else snd nl), ws_count = fst nl,
     ws_discarding = (length (snd nl) > line_limit)\<rparr>"

definition warning_byte :: "(string \<Rightarrow> line_json) \<Rightarrow> int \<times> string \<Rightarrow> char \<Rightarrow> int \<times> string" where
  "warning_byte decode nl c =
     (if c = newline then (fst nl + (if warning_line decode (snd nl) then 1 else 0), []) else (fst nl, snd nl @ [c]))"

lemma warning_bytes_part: "newline \<notin> set part \<Longrightarrow> foldl (warning_byte decode) nl part = (fst nl, snd nl @ part)"
  by (induction part arbitrary: nl) (auto simp: warning_byte_def)

lemma warning_part_sink: "warning_part part (sink_of (n, l)) = sink_of (n, l @ part)"
  by (auto simp: warning_part_def sink_of_def Let_def)

lemma warning_finish_sink:
  "warning_finish decode (sink_of (n, l)) = sink_of (n + (if warning_line decode l then 1 else 0), [])"
  by (simp add: warning_finish_def sink_of_def warning_line_def)

lemma warning_write_bytes: "warning_write decode chunk (sink_of nl) = sink_of (foldl (warning_byte decode) nl chunk)"
proof (induction decode chunk "sink_of nl" arbitrary: nl rule: warning_write.induct)
  case (1 decode chunk)
  obtain n l where nl: "nl = (n, l)" by fastforce
  show ?case
  proof (cases "chunk = []")
    case True
    then show ?thesis by (simp add: warning_write.simps)
  next
    case ne: False
    show ?thesis
    proof (cases "go_cut newline chunk")
      case None
      then have "newline \<notin> set chunk" by (simp add: go_cut_None)
      with ne None nl show ?thesis
        by (simp add: warning_write.simps[of decode chunk] warning_part_sink warning_bytes_part)
    next
      case (Some x)
      then obtain part rest where cut: "go_cut newline chunk = Some (part, rest)" by (cases x) auto
      then have ch: "chunk = part @ newline # rest" and no: "newline \<notin> set part"
        by (simp_all add: go_cut_Some)
      let ?m = "(n + (if warning_line decode (l @ part) then 1 else 0), [])"
      have step: "warning_finish decode (warning_part part (sink_of nl)) = sink_of ?m"
        by (simp add: nl warning_part_sink warning_finish_sink)
      have "foldl (warning_byte decode) nl chunk = foldl (warning_byte decode) ?m rest"
        unfolding ch by (simp add: warning_bytes_part[OF no] warning_byte_def nl)
      moreover have "warning_write decode rest (sink_of ?m) = sink_of (foldl (warning_byte decode) ?m rest)"
        using 1[OF ne cut _ step] by simp
      ultimately show ?thesis
        using ne cut step by (simp add: warning_write.simps[of decode chunk])
    qed
  qed
qed

lemma go_split_nonempty: "go_split c s \<noteq> []"
  by (cases s) (auto split: list.splits)

text \<open>Counting over the lines of a text whose first line has begun with \<open>l\<close>.\<close>

lemma warning_bytes_lines:
  "fst (foldl (warning_byte decode) (n, l) s) + (if warning_line decode (snd (foldl (warning_byte decode) (n, l) s)) then 1 else 0) =
     n + int (length (filter (warning_line decode) ((l @ hd (go_split newline s)) # tl (go_split newline s))))"
proof (induction s arbitrary: n l)
  case (Cons c s)
  obtain w ws where w: "go_split newline s = w # ws"
    using go_split_nonempty by (cases "go_split newline s") auto
  show ?case
  proof (cases "c = newline")
    case True
    with Cons.IH[of "n + (if warning_line decode l then 1 else 0)" "[]"] w show ?thesis
      by (simp add: warning_byte_def)
  next
    case False
    with Cons.IH[of n "l @ [c]"] w show ?thesis
      by (simp add: warning_byte_def)
  qed
qed simp

text \<open>The error text is the head of everything written.\<close>

lemma limited_writes:
  assumes "0 \<le> lb_limit b" "lb_buffer b = take (nat (lb_limit b)) t"
  shows "lb_buffer (foldl (\<lambda>b p. limited_write p b) b chunks) = take (nat (lb_limit b)) (t @ concat chunks)"
  using assms
proof (induction chunks arbitrary: b t)
  case (Cons p ps)
  have l: "lb_limit (limited_write p b) = lb_limit b"
    by (simp add: limited_write_def Let_def)
  have "lb_buffer (limited_write p b) = take (nat (lb_limit b)) (t @ p)"
    using Cons.prems by (auto simp: limited_write_def Let_def min_def nat_diff_distrib split: if_splits)
  with Cons.IH[of "limited_write p b" "t @ p"] Cons.prems l show ?case by simp
qed simp

section \<open>Properties\<close>

text \<open>C33: What the progress sink makes of Restic's output does not depend on how the pipe cuts it into chunks: the state and the stored
  records after any sequence of writes are those after one write of the whole output.\<close>

theorem progress_chunking:
  "foldl (\<lambda>ps chunk. progress_write decode operation chunk ps) ps chunks = progress_write decode operation (concat chunks) ps"
  unfolding progress_write_bytes by (rule foldl_concat)

text \<open>C34: The warning sink counts exactly the lines of the error stream that are error events of at most one MiB, however the stream is cut
  into chunks, with the unfinished last line counted by \<open>finish\<close>.\<close>

theorem warning_count_lines:
  "ws_count (warning_finish decode (foldl (\<lambda>w chunk. warning_write decode chunk w) \<lparr>ws_pending = [], ws_count = 0, ws_discarding = False\<rparr> chunks)) =
     int (length (filter (warning_line decode) (go_split newline (concat chunks))))"
proof -
  have start: "\<lparr>ws_pending = [], ws_count = 0, ws_discarding = False\<rparr> = sink_of (0, [])"
    by (simp add: sink_of_def)
  have "foldl (\<lambda>w chunk. warning_write decode chunk w) (sink_of nl) chunks = sink_of (foldl (warning_byte decode) nl (concat chunks))" for nl
    by (induction chunks arbitrary: nl) (simp_all add: warning_write_bytes)
  then have "warning_finish decode (foldl (\<lambda>w chunk. warning_write decode chunk w) (sink_of (0, [])) chunks) =
      sink_of (fst (foldl (warning_byte decode) (0, []) (concat chunks)) +
        (if warning_line decode (snd (foldl (warning_byte decode) (0, []) (concat chunks))) then 1 else 0), [])"
    by (cases "foldl (warning_byte decode) (0, []) (concat chunks)") (simp add: warning_finish_sink)
  moreover have "go_split newline (concat chunks) \<noteq> []"
    by (rule go_split_nonempty)
  ultimately show ?thesis
    unfolding start using warning_bytes_lines[of decode 0 "[]" "concat chunks"]
    by (simp add: sink_of_def)
qed

end
