(* ===== verification/Agent_Config.thy ===== *)
theory Agent_Config
  imports Agent_Logs
begin

text \<open>
  How the Agent takes over a desired state (\<open>internal/agent/config.go\<close>, the hook check of
  \<open>internal/agent/hooks_linux.go\<close>) and how the control plane puts one on the wire
  (\<open>sendDesiredState\<close> of \<open>internal/server/agentgrpc/connect.go\<close>). A snapshot message is what the protobuf
  decoder delivers: an empty repeated field is the nil slice, a timestamp is \<open>Malformed\<close> when \<open>CheckValid\<close>
  rejects it, and an execution policy is its JSON text, which the control plane writes and a parameter decodes.
\<close>

section \<open>Model\<close>

subsection \<open>Parameters\<close>

text \<open>
  Code the sources only call: the time zone database, SHA-256, \<open>uuid.NewSHA1\<close> in the OID name space, \<open>uuid.Parse\<close>,
  the decoder that reads an execution policy from the start of a text (\<open>None\<close> is a failure, otherwise what was read,
  \<open>null\<close> being the nil pointer, and the rest of the text), and which keys of the bucket of plan runtimes a bbolt cursor
  reaches that deletes entries while it moves on.
\<close>

record env =
  load_location :: "string \<Rightarrow> location option"
  sha256 :: "string \<Rightarrow> 8 word list"
  new_sha1 :: "string \<Rightarrow> uuid"
  uuid_parse :: "string \<Rightarrow> uuid option"
  execution_decode :: "string \<Rightarrow> (backup_execution option \<times> string) option"
  runtime_sweep :: "(uuid \<times> plan_runtime cell) list \<Rightarrow> uuid \<Rightarrow> bool"

subsection \<open>Messages\<close>

record plan_message =
  pm_PlanId :: string
  pm_Revision :: int
  pm_Name :: string
  pm_HostId :: string
  pm_RepositoryId :: string
  pm_Cron :: string
  pm_Timezone :: string
  pm_JitterSeconds :: int
  pm_MisfireGraceSeconds :: int
  pm_ConcurrencyPolicy :: string
  pm_Paths :: "string list"
  pm_ExcludePatterns :: "string list"
  pm_ExcludeCaches :: bool
  pm_OneFileSystem :: bool
  pm_ConfigHash :: string
  pm_ExecutionConfigJson :: string

record snapshot =
  sn_Revision :: int
  sn_GeneratedAt :: "time cell option"
  sn_ConfigHash :: string
  sn_RuntimePolicy :: "runtime_policy option"
  sn_Plans :: "plan_message list"

definition repeated :: "'a list \<Rightarrow> 'a list option" where
  "repeated xs = (if xs = [] then None else Some xs)"

subsection \<open>Reading a snapshot\<close>

definition execution_error :: desired_error where
  "execution_error = DesiredStateError ''PLAN_EXECUTION_INVALID'' ''plans.execution''"

text \<open>Whether a second \<open>Decode\<close> returns \<open>io.EOF\<close>: nothing is left but white space.\<close>

definition json_eof :: "string \<Rightarrow> bool" where
  "json_eof rest = list_all (\<lambda>c. byte c \<in> {32, 9, 10, 13}) rest"

definition execution_from_text :: "env \<Rightarrow> string \<Rightarrow> desired_error + backup_execution option" where
  "execution_from_text env raw =
     (if length raw > 0 then
        if length raw > 16384 then Inl execution_error
        else (case execution_decode env raw of
           None \<Rightarrow> Inl execution_error
         | Some (None, rest) \<Rightarrow> Inl execution_error
         | Some (Some e, rest) \<Rightarrow>
             if execution_Validate (Some e) \<noteq> None then Inl execution_error
             else if \<not> json_eof rest then Inl execution_error
             else Inr (Some e))
      else Inr None)"

definition plan_from_message :: "env \<Rightarrow> plan_message \<Rightarrow> desired_error + plan_schedule" where
  "plan_from_message env m =
     (case uuid_parse env (pm_PlanId m) of
        None \<Rightarrow> Inl (DesiredStateError ''PLAN_ID_INVALID'' ''plans.plan_id'')
      | Some plan_id \<Rightarrow>
     (case uuid_parse env (pm_RepositoryId m) of
        None \<Rightarrow> Inl (DesiredStateError ''PLAN_REPOSITORY_INVALID'' ''plans.repository_id'')
      | Some repository_id \<Rightarrow>
     (case uuid_parse env (pm_HostId m) of
        None \<Rightarrow> Inl (DesiredStateError ''PLAN_HOST_INVALID'' ''plans.host_id'')
      | Some host_id \<Rightarrow>
     (case execution_from_text env (pm_ExecutionConfigJson m) of
        Inl e \<Rightarrow> Inl e
      | Inr execution \<Rightarrow>
          Inr \<lparr>ps_PlanID = plan_id, ps_Revision = pm_Revision m, ps_Name = pm_Name m, ps_HostID = host_id,
            ps_RepositoryID = repository_id, ps_Cron = pm_Cron m, ps_Timezone = pm_Timezone m,
            ps_JitterSeconds = pm_JitterSeconds m, ps_MisfireGraceSeconds = pm_MisfireGraceSeconds m,
            ps_ConcurrencyPolicy = pm_ConcurrencyPolicy m, ps_Paths = repeated (pm_Paths m),
            ps_ExcludePatterns = repeated (pm_ExcludePatterns m), ps_ExcludeCaches = pm_ExcludeCaches m,
            ps_OneFileSystem = pm_OneFileSystem m, ps_ConfigHash = pm_ConfigHash m, ps_Execution = execution\<rparr>))))"

fun plans_from_messages :: "env \<Rightarrow> plan_message list \<Rightarrow> desired_error + plan_schedule list" where
  "plans_from_messages env [] = Inr []"
| "plans_from_messages env (m # ms) =
     (case plan_from_message env m of
        Inl e \<Rightarrow> Inl e
      | Inr p \<Rightarrow> (case plans_from_messages env ms of Inl e \<Rightarrow> Inl e | Inr ps \<Rightarrow> Inr (p # ps)))"

definition desiredStateFromProto :: "env \<Rightarrow> uuid \<Rightarrow> snapshot option \<Rightarrow> desired_error + desired_state" where
  "desiredStateFromProto env agentID snapshot =
     (case snapshot of
        None \<Rightarrow> Inl (DesiredStateError ''SNAPSHOT_INVALID'' [])
      | Some sn \<Rightarrow>
     (case (sn_GeneratedAt sn, sn_RuntimePolicy sn) of
        (Some (Valid generated), Some policy) \<Rightarrow>
          (case plans_from_messages env (sn_Plans sn) of
             Inl e \<Rightarrow> Inl e
           | Inr plans \<Rightarrow>
               (let state = \<lparr>ds_AgentID = agentID, ds_Revision = sn_Revision sn, ds_GeneratedAt = generated,
                      ds_ConfigHash = sn_ConfigHash sn, ds_RuntimePolicy = policy, ds_Plans = plans\<rparr>
                in case state_Validate (load_location env) (sha256 env) state of
                  Some e \<Rightarrow> Inl e
                | None \<Rightarrow> Inr state))
      | _ \<Rightarrow> Inl (DesiredStateError ''SNAPSHOT_INVALID'' [])))"

subsection \<open>Results\<close>

definition acceptedConfigResult :: "desired_state \<Rightarrow> config_result" where
  "acceptedConfigResult state = \<lparr>cr_Revision = ds_Revision state, cr_ConfigHash = ds_ConfigHash state,
     cr_Accepted = True, cr_ErrorCode = [], cr_FieldPath = []\<rparr>"

definition rejectedConfigResult :: "snapshot option \<Rightarrow> desired_error \<Rightarrow> config_result" where
  "rejectedConfigResult snapshot e = \<lparr>cr_Revision = (case snapshot of None \<Rightarrow> 0 | Some sn \<Rightarrow> sn_Revision sn),
     cr_ConfigHash = [], cr_Accepted = False, cr_ErrorCode = de_Code e, cr_FieldPath = de_FieldPath e\<rparr>"

definition storePendingConfigResult :: "config_result \<Rightarrow> agent \<Rightarrow> agent \<times> (store_error + unit)" where
  "storePendingConfigResult r s = db_update (\<lambda>s. Inr (s\<lparr>outbound := Some (Valid r)\<rparr>, ())) s"

definition PendingConfigResult :: "agent \<Rightarrow> store_error + config_result option" where
  "PendingConfigResult s =
     (case outbound s of None \<Rightarrow> Inr None | Some Malformed \<Rightarrow> Inl DecodeFailed | Some (Valid r) \<Rightarrow> Inr (Some r))"

definition ClearPendingConfigResult :: "int \<Rightarrow> agent \<Rightarrow> agent \<times> (store_error + unit)" where
  "ClearPendingConfigResult revision s = db_update (\<lambda>s.
     case outbound s of
       None \<Rightarrow> Inr (s, ())
     | Some Malformed \<Rightarrow> Inl DecodeFailed
     | Some (Valid r) \<Rightarrow> if cr_Revision r \<noteq> revision then Inr (s, ()) else Inr (s\<lparr>outbound := None\<rparr>, ())) s"

text \<open>\<open>PendingConfigResult.Validate\<close>: true for no error.\<close>

definition result_Validate :: "config_result \<Rightarrow> bool" where
  "result_Validate r = (if cr_Revision r < 1 then False else if cr_Accepted r \<and> cr_ConfigHash r = [] then False
     else if \<not> cr_Accepted r \<and> cr_ErrorCode r = [] then False else True)"

subsection \<open>Activation\<close>

definition ActiveDesiredState :: "agent \<Rightarrow> store_error + desired_state option" where
  "ActiveDesiredState s =
     (case desired_active s of None \<Rightarrow> Inr None | Some Malformed \<Rightarrow> Inl DecodeFailed | Some (Valid d) \<Rightarrow> Inr (Some d))"

definition AcceptedRevision :: "agent \<Rightarrow> store_error + int" where
  "AcceptedRevision s =
     (case ActiveDesiredState s of Inl e \<Rightarrow> Inl e | Inr None \<Rightarrow> Inr 0 | Inr (Some d) \<Rightarrow> Inr (ds_Revision d))"

definition validateHooks :: "uuid list \<Rightarrow> backup_execution option \<Rightarrow> bool" where
  "validateHooks hooks execution =
     (case execution of
        None \<Rightarrow> True
      | Some e \<Rightarrow> list_all (list_all (\<lambda>i. i \<in> set hooks)) [PreHookIDs e, PostHookIDs e])"

text \<open>The map \<open>oldPlans\<close>: a later plan with the same identifier replaces an earlier one.\<close>

definition old_plan :: "plan_schedule list \<Rightarrow> uuid \<Rightarrow> plan_schedule option" where
  "old_plan plans i = map_of (rev (map (\<lambda>p. (ps_PlanID p, p)) plans)) i"

definition plan_changed :: "plan_schedule list \<Rightarrow> plan_schedule \<Rightarrow> bool" where
  "plan_changed previous p =
     (case old_plan previous (ps_PlanID p) of
        None \<Rightarrow> True
      | Some old \<Rightarrow> ps_Revision old \<noteq> ps_Revision p \<or> ps_ConfigHash old \<noteq> ps_ConfigHash p \<or> ps_Cron old \<noteq> ps_Cron p
          \<or> ps_Timezone old \<noteq> ps_Timezone p \<or> ps_JitterSeconds old \<noteq> ps_JitterSeconds p)"

definition reconcile_plan ::
    "env \<Rightarrow> plan_schedule list \<Rightarrow> time \<Rightarrow> plan_schedule \<Rightarrow> plan_runtime \<Rightarrow> store_error + plan_runtime" where
  "reconcile_plan env previous now p rt =
     (case (if plan_changed previous p
            then (case New (load_location env) (ps_PlanID p) (plan_spec p) of
                    Inl _ \<Rightarrow> Inl (OtherError ''schedule'')
                  | Inr clock \<Rightarrow> Inr (rt\<lparr>rt_NextRunAt := (case NextRun (sha256 env) clock now of None \<Rightarrow> 0 | Some t \<Rightarrow> t)\<rparr>))
            else Inr rt) of
        Inl e \<Rightarrow> Inl e
      | Inr rt \<Rightarrow> Inr (rt\<lparr>rt_PlanID := ps_PlanID p, rt_PlanRevision := ps_Revision p, rt_ConfigHash := ps_ConfigHash p\<rparr>))"

fun reconcile_plans ::
    "env \<Rightarrow> plan_schedule list \<Rightarrow> time \<Rightarrow> plan_schedule list \<Rightarrow> (uuid \<times> plan_runtime cell) list
     \<Rightarrow> store_error + (uuid \<times> plan_runtime cell) list" where
  "reconcile_plans env previous now [] b = Inr b"
| "reconcile_plans env previous now (p # ps) b =
     (case (case bget b (ps_PlanID p) of
              None \<Rightarrow> Inr zero_runtime | Some Malformed \<Rightarrow> Inl DecodeFailed | Some (Valid rt) \<Rightarrow> Inr rt) of
        Inl e \<Rightarrow> Inl e
      | Inr rt \<Rightarrow>
          (case reconcile_plan env previous now p rt of
             Inl e \<Rightarrow> Inl e
           | Inr rt' \<Rightarrow> reconcile_plans env previous now ps (bput b (ps_PlanID p) (Valid rt'))))"

definition reconcilePlanRuntimes ::
    "env \<Rightarrow> plan_schedule list \<Rightarrow> plan_schedule list \<Rightarrow> time \<Rightarrow> (uuid \<times> plan_runtime cell) list
     \<Rightarrow> store_error + (uuid \<times> plan_runtime cell) list" where
  "reconcilePlanRuntimes env previous nxt now b =
     (case reconcile_plans env previous now nxt b of
        Inl e \<Rightarrow> Inl e
      | Inr b' \<Rightarrow> Inr (filter (\<lambda>(i, rt). \<not> (i \<notin> set (map ps_PlanID nxt) \<and> runtime_sweep env b' i)) b'))"

datatype apply_error = StoreErr store_error | ConfigErr desired_error

definition store_result :: "config_result \<Rightarrow> agent \<Rightarrow> agent \<times> (apply_error + config_result)" where
  "store_result r s =
     (case storePendingConfigResult r s of
        (t, Inl e) \<Rightarrow> (t, Inl (StoreErr e))
      | (t, Inr _) \<Rightarrow> (t, Inr r))"

definition activate_tx ::
    "env \<Rightarrow> time \<Rightarrow> plan_schedule list \<Rightarrow> desired_state \<Rightarrow> config_result \<Rightarrow> agent \<Rightarrow> store_error + (agent \<times> unit)" where
  "activate_tx env now previous state result s =
     (case reconcilePlanRuntimes env previous (ds_Plans state) now (plan_runtimes s) of
        Inl e \<Rightarrow> Inl e
      | Inr b \<Rightarrow> Inr (s\<lparr>plan_runtimes := b, desired_active := Some (Valid state), outbound := Some (Valid result),
          desired_staging := None\<rparr>, ()))"

definition ApplyDesiredState ::
    "env \<Rightarrow> time \<Rightarrow> uuid \<Rightarrow> snapshot option \<Rightarrow> agent \<Rightarrow> agent \<times> (apply_error + config_result)" where
  "ApplyDesiredState env now agentID snapshot s =
     (case (case desiredStateFromProto env agentID snapshot of
              Inl e \<Rightarrow> Inl e
            | Inr state \<Rightarrow>
                if list_all (\<lambda>p. validateHooks (hook_ids s) (ps_Execution p)) (ds_Plans state) then Inr state
                else Inl (DesiredStateError ''HOOK_UNAVAILABLE'' ''plans.execution'')) of
        Inl e \<Rightarrow>
          (let result = rejectedConfigResult snapshot e
           in if cr_Revision result < 1 then (s, Inl (ConfigErr e)) else store_result result s)
      | Inr state \<Rightarrow>
          (case ActiveDesiredState s of
             Inl e \<Rightarrow> (s, Inl (StoreErr e))
           | Inr active \<Rightarrow>
               if (case active of Some a \<Rightarrow> ds_Revision state < ds_Revision a | None \<Rightarrow> False)
               then store_result (rejectedConfigResult snapshot (DesiredStateError ''REVISION_ROLLBACK'' ''revision'')) s
               else if (case active of Some a \<Rightarrow> ds_Revision state = ds_Revision a | None \<Rightarrow> False)
               then
                 (if ds_ConfigHash state \<noteq> (case active of Some a \<Rightarrow> ds_ConfigHash a | None \<Rightarrow> [])
                  then store_result (rejectedConfigResult snapshot (DesiredStateError ''REVISION_CONFLICT'' ''config_hash'')) s
                  else store_result (acceptedConfigResult state) s)
               else
                 (case db_update (\<lambda>s. Inr (s\<lparr>desired_staging := Some (Valid state)\<rparr>, ())) s of
                    (t, Inl e) \<Rightarrow> (t, Inl (StoreErr e))
                  | (t, Inr _) \<Rightarrow>
                      (case db_update (activate_tx env now (case active of Some a \<Rightarrow> ds_Plans a | None \<Rightarrow> []) state
                                (acceptedConfigResult state)) t of
                         (u, Inl e) \<Rightarrow> (u, Inl (StoreErr e))
                       | (u, Inr _) \<Rightarrow> (u, Inr (acceptedConfigResult state))))))"

subsection \<open>Sending a snapshot\<close>

text \<open>\<open>int32(n)\<close>.\<close>

definition int32 :: "int \<Rightarrow> int" where
  "int32 n = (n + 2147483648) mod 4294967296 - 2147483648"

text \<open>\<open>json.Marshal(plan.Execution)\<close>, or the nil slice.\<close>

definition execution_text :: "backup_execution option \<Rightarrow> string" where
  "execution_text execution = (case execution of None \<Rightarrow> [] | Some e \<Rightarrow> execution_json e)"

definition plan_to_message :: "plan_schedule \<Rightarrow> plan_message" where
  "plan_to_message p = \<lparr>pm_PlanId = uuid_string (ps_PlanID p), pm_Revision = ps_Revision p, pm_Name = ps_Name p,
     pm_HostId = uuid_string (ps_HostID p), pm_RepositoryId = uuid_string (ps_RepositoryID p),
     pm_Cron = ps_Cron p, pm_Timezone = ps_Timezone p, pm_JitterSeconds = int32 (ps_JitterSeconds p),
     pm_MisfireGraceSeconds = int32 (ps_MisfireGraceSeconds p), pm_ConcurrencyPolicy = ps_ConcurrencyPolicy p,
     pm_Paths = slice (ps_Paths p), pm_ExcludePatterns = slice (ps_ExcludePatterns p),
     pm_ExcludeCaches = ps_ExcludeCaches p, pm_OneFileSystem = ps_OneFileSystem p, pm_ConfigHash = ps_ConfigHash p,
     pm_ExecutionConfigJson = execution_text (ps_Execution p)\<rparr>"

datatype send_outcome = SendSnapshot snapshot | CapabilityRequired | InvalidExecution

text \<open>The loop of \<open>sendDesiredState\<close> over the plans.\<close>

fun plan_messages :: "bool \<Rightarrow> plan_schedule list \<Rightarrow> send_outcome + plan_message list" where
  "plan_messages capable [] = Inr []"
| "plan_messages capable (p # ps) =
     (if ps_Execution p \<noteq> None \<and> \<not> capable then Inl CapabilityRequired
      else if length (execution_text (ps_Execution p)) > 16384 then Inl InvalidExecution
      else case plan_messages capable ps of Inl e \<Rightarrow> Inl e | Inr ms \<Rightarrow> Inr (plan_to_message p # ms))"

text \<open>What is sent for a state; \<open>capable\<close> says the Agent announced \<open>backup_execution_v1\<close>.\<close>

definition sendDesiredState :: "bool \<Rightarrow> desired_state \<Rightarrow> send_outcome" where
  "sendDesiredState capable state =
     (case plan_messages capable (ds_Plans state) of
        Inl e \<Rightarrow> e
      | Inr ms \<Rightarrow> SendSnapshot \<lparr>sn_Revision = ds_Revision state, sn_GeneratedAt = Some (Valid (ds_GeneratedAt state)),
          sn_ConfigHash = ds_ConfigHash state, sn_RuntimePolicy = Some (ds_RuntimePolicy state), sn_Plans = ms\<rparr>)"

section \<open>Activation is all or nothing\<close>

lemma store_result_frame:
  "store_result r s = (t, x) \<Longrightarrow> desired_active t = desired_active s \<and> plan_runtimes t = plan_runtimes s \<and>
     operations t = operations s \<and> operation_logs t = operation_logs s \<and> (x = Inr r \<or> (\<exists>e. x = Inl (StoreErr e)))"
  by (auto simp: store_result_def storePendingConfigResult_def split: prod.splits sum.splits
      dest!: db_update_Inl db_update_Inr)

text \<open>The state an \<open>ApplyDesiredState\<close> is asked to activate, or why it is refused.\<close>

definition requested :: "env \<Rightarrow> uuid \<Rightarrow> snapshot option \<Rightarrow> agent \<Rightarrow> desired_error + desired_state" where
  "requested env agentID snapshot s =
     (case desiredStateFromProto env agentID snapshot of
        Inl e \<Rightarrow> Inl e
      | Inr state \<Rightarrow>
          if list_all (\<lambda>p. validateHooks (hook_ids s) (ps_Execution p)) (ds_Plans state) then Inr state
          else Inl (DesiredStateError ''HOOK_UNAVAILABLE'' ''plans.execution''))"

definition unchanged :: "agent \<Rightarrow> agent \<Rightarrow> bool" where
  "unchanged s t \<longleftrightarrow> desired_active t = desired_active s \<and> plan_runtimes t = plan_runtimes s \<and>
     operations t = operations s \<and> operation_logs t = operation_logs s"

definition activated :: "env \<Rightarrow> time \<Rightarrow> desired_state \<Rightarrow> agent \<Rightarrow> agent \<Rightarrow> bool" where
  "activated env now state s t \<longleftrightarrow>
     (\<forall>a. desired_active s = Some (Valid a) \<longrightarrow> ds_Revision a < ds_Revision state) \<and> desired_active s \<noteq> Some Malformed \<and>
     desired_active t = Some (Valid state) \<and> outbound t = Some (Valid (acceptedConfigResult state)) \<and>
     operations t = operations s \<and> operation_logs t = operation_logs s \<and>
     reconcilePlanRuntimes env (case desired_active s of Some (Valid a) \<Rightarrow> ds_Plans a | _ \<Rightarrow> []) (ds_Plans state) now
       (plan_runtimes s) = Inr (plan_runtimes t)"

lemma store_result_unchanged: "store_result r s = (t, x) \<Longrightarrow> unchanged s t"
  using store_result_frame by (auto simp: unchanged_def)

lemma activate_tx_Inr:
  "activate_tx env now previous state result s = Inr (t, u) \<Longrightarrow>
     reconcilePlanRuntimes env previous (ds_Plans state) now (plan_runtimes s) = Inr (plan_runtimes t) \<and>
     desired_active t = Some (Valid state) \<and> outbound t = Some (Valid result) \<and> operations t = operations s \<and>
     operation_logs t = operation_logs s"
  by (auto simp: activate_tx_def split: sum.splits)

lemma ActiveDesiredState_Inr:
  "ActiveDesiredState s = Inr a \<longleftrightarrow> (case desired_active s of None \<Rightarrow> a = None | Some Malformed \<Rightarrow> False | Some (Valid d) \<Rightarrow> a = Some d)"
  by (auto simp: ActiveDesiredState_def split: option.splits cell.splits)

text \<open>Staging and committing a state that is newer than the active one.\<close>

definition stage_and_commit ::
    "env \<Rightarrow> time \<Rightarrow> plan_schedule list \<Rightarrow> desired_state \<Rightarrow> agent \<Rightarrow> agent \<times> (apply_error + config_result)" where
  "stage_and_commit env now previous state s =
     (case db_update (\<lambda>s. Inr (s\<lparr>desired_staging := Some (Valid state)\<rparr>, ())) s of
        (t, Inl e) \<Rightarrow> (t, Inl (StoreErr e))
      | (t, Inr _) \<Rightarrow>
          (case db_update (activate_tx env now previous state (acceptedConfigResult state)) t of
             (u, Inl e) \<Rightarrow> (u, Inl (StoreErr e))
           | (u, Inr _) \<Rightarrow> (u, Inr (acceptedConfigResult state))))"

lemma stage_and_commit_cases:
  assumes "stage_and_commit env now previous state s = (t, x)"
  shows "unchanged s t \<and> (\<exists>e. x = Inl (StoreErr e)) \<or>
    x = Inr (acceptedConfigResult state) \<and>
    reconcilePlanRuntimes env previous (ds_Plans state) now (plan_runtimes s) = Inr (plan_runtimes t) \<and>
    desired_active t = Some (Valid state) \<and> outbound t = Some (Valid (acceptedConfigResult state)) \<and>
    operations t = operations s \<and> operation_logs t = operation_logs s"
proof -
  obtain s1 r1 where st: "db_update (\<lambda>s. Inr (s\<lparr>desired_staging := Some (Valid state)\<rparr>, ())) s = (s1, r1)"
    by fastforce
  have s1: "unchanged s s1"
    using st by (cases r1) (auto simp: unchanged_def dest: db_update_Inl db_update_Inr)
  show ?thesis
  proof (cases r1)
    case (Inl e)
    with assms st s1 show ?thesis by (auto simp: stage_and_commit_def)
  next
    case (Inr u)
    obtain s2 r2 where cm: "db_update (activate_tx env now previous state (acceptedConfigResult state)) s1 = (s2, r2)"
      by fastforce
    show ?thesis
    proof (cases r2)
      case (Inl e)
      with assms st cm Inr s1 show ?thesis
        by (auto simp: stage_and_commit_def unchanged_def dest: db_update_Inl)
    next
      case (Inr v)
      have tx: "activate_tx env now previous state (acceptedConfigResult state) (s1\<lparr>faults := tl (faults s1)\<rparr>) = Inr (s2, v)"
        using cm Inr by (simp add: db_update_Inr)
      have "t = s2" "x = Inr (acceptedConfigResult state)"
        using assms st cm \<open>r1 = Inr u\<close> Inr by (simp_all add: stage_and_commit_def)
      with activate_tx_Inr[OF tx] s1 show ?thesis by (simp add: unchanged_def)
    qed
  qed
qed

lemma Apply_unfold:
  "ApplyDesiredState env now agentID snapshot s =
     (case requested env agentID snapshot s of
        Inl e \<Rightarrow>
          (if cr_Revision (rejectedConfigResult snapshot e) < 1 then (s, Inl (ConfigErr e))
           else store_result (rejectedConfigResult snapshot e) s)
      | Inr state \<Rightarrow>
          (case ActiveDesiredState s of
             Inl e \<Rightarrow> (s, Inl (StoreErr e))
           | Inr None \<Rightarrow> stage_and_commit env now [] state s
           | Inr (Some a) \<Rightarrow>
               if ds_Revision state < ds_Revision a
               then store_result (rejectedConfigResult snapshot (DesiredStateError ''REVISION_ROLLBACK'' ''revision'')) s
               else if ds_Revision state = ds_Revision a
               then (if ds_ConfigHash state \<noteq> ds_ConfigHash a
                  then store_result (rejectedConfigResult snapshot (DesiredStateError ''REVISION_CONFLICT'' ''config_hash'')) s
                  else store_result (acceptedConfigResult state) s)
               else stage_and_commit env now (ds_Plans a) state s))"
  unfolding ApplyDesiredState_def requested_def[symmetric] stage_and_commit_def Let_def
  by (cases "requested env agentID snapshot s"; cases "ActiveDesiredState s") (auto split: option.splits)

lemma Apply_cases:
  assumes "ApplyDesiredState env now agentID snapshot s = (t, x)"
  shows "unchanged s t \<or>
    (\<exists>state. requested env agentID snapshot s = Inr state \<and> x = Inr (acceptedConfigResult state) \<and> activated env now state s t)"
proof (cases "requested env agentID snapshot s")
  case (Inl e)
  with assms show ?thesis
    by (auto simp: Apply_unfold unchanged_def dest: store_result_frame split: if_splits)
next
  case (Inr state)
  show ?thesis
  proof (cases "ActiveDesiredState s")
    case (Inl e)
    with assms Inr show ?thesis by (auto simp: Apply_unfold unchanged_def)
  next
    case act: (Inr active)
    show ?thesis
    proof (cases active)
      case None
      with assms Inr act have "stage_and_commit env now [] state s = (t, x)" by (simp add: Apply_unfold)
      from stage_and_commit_cases[OF this] Inr act None show ?thesis
        by (auto simp: activated_def ActiveDesiredState_Inr split: option.splits cell.splits)
    next
      case (Some a)
      have da: "desired_active s = Some (Valid a)"
        using act Some by (auto simp: ActiveDesiredState_Inr split: option.splits cell.splits)
      show ?thesis
      proof (cases "ds_Revision a < ds_Revision state")
        case True
        with assms Inr act Some have "stage_and_commit env now (ds_Plans a) state s = (t, x)" by (simp add: Apply_unfold)
        from stage_and_commit_cases[OF this] Inr da True show ?thesis
          by (auto simp: activated_def)
      next
        case False
        with assms Inr act Some show ?thesis
          by (auto simp: Apply_unfold dest: store_result_unchanged split: if_splits)
      qed
    qed
  qed
qed

lemma requested_valid:
  "requested env agentID snapshot s = Inr state \<Longrightarrow>
     state_Validate (load_location env) (sha256 env) state = None \<and> ds_AgentID state = agentID \<and>
     (\<exists>sn. snapshot = Some sn \<and> ds_Revision state = sn_Revision sn)"
  by (auto simp: requested_def desiredStateFromProto_def Let_def split: sum.splits if_splits option.splits cell.splits)

text \<open>The active state, when there is one, is one that validation accepts.\<close>

definition active_ok :: "env \<Rightarrow> agent \<Rightarrow> bool" where
  "active_ok env s \<longleftrightarrow> (\<forall>c. desired_active s = Some c \<longrightarrow>
     (\<exists>d. c = Valid d \<and> state_Validate (load_location env) (sha256 env) d = None))"

lemma Apply_active_ok: "active_ok env s \<Longrightarrow> active_ok env (fst (ApplyDesiredState env now agentID snapshot s))"
  using Apply_cases[of env now agentID snapshot s] requested_valid[of env agentID snapshot s]
  by (cases "ApplyDesiredState env now agentID snapshot s") (auto simp: active_ok_def unchanged_def activated_def)

lemma Apply_revision:
  assumes "AcceptedRevision s = Inr r"
  shows "\<exists>r'. AcceptedRevision (fst (ApplyDesiredState env now agentID snapshot s)) = Inr r' \<and> r \<le> r' \<and>
    (r = r' \<longrightarrow> active_ok env s \<longrightarrow>
       desired_active (fst (ApplyDesiredState env now agentID snapshot s)) = desired_active s)"
proof -
  obtain t x where tx: "ApplyDesiredState env now agentID snapshot s = (t, x)"
    by fastforce
  from Apply_cases[OF tx] show ?thesis
  proof
    assume "unchanged s t"
    with assms tx show ?thesis
      by (auto simp: AcceptedRevision_def ActiveDesiredState_def unchanged_def)
  next
    assume "\<exists>state. requested env agentID snapshot s = Inr state \<and> x = Inr (acceptedConfigResult state) \<and> activated env now state s t"
    then obtain state where st: "requested env agentID snapshot s = Inr state" "activated env now state s t" by blast
    have pos: "1 \<le> ds_Revision state"
      using requested_valid[OF st(1)] state_Validate_policy by blast
    have "r < ds_Revision state"
      using assms st(2) pos
      by (auto simp: AcceptedRevision_def ActiveDesiredState_def activated_def split: option.splits cell.splits)
    with st tx show ?thesis
      by (auto simp: AcceptedRevision_def ActiveDesiredState_def activated_def)
  qed
qed

section \<open>Plan runtimes after an activation\<close>

text \<open>
  What the reconciliation makes of the stored runtime \<open>rt0\<close> of a plan: for a new or changed plan the next run of its clock
  after \<open>now\<close>, or none; for any other plan the next run it had.
\<close>

definition runtime_matches :: "env \<Rightarrow> plan_schedule list \<Rightarrow> time \<Rightarrow> plan_runtime \<Rightarrow> plan_schedule \<Rightarrow> plan_runtime \<Rightarrow> bool" where
  "runtime_matches env previous now rt0 p rt \<longleftrightarrow>
     rt_PlanID rt = ps_PlanID p \<and> rt_PlanRevision rt = ps_Revision p \<and> rt_ConfigHash rt = ps_ConfigHash p \<and>
     rt_LastScheduledAt rt = rt_LastScheduledAt rt0 \<and> rt_LastOperationID rt = rt_LastOperationID rt0 \<and>
     (if plan_changed previous p
      then \<exists>clock. New (load_location env) (ps_PlanID p) (plan_spec p) = Inr clock \<and>
        (case NextRun (sha256 env) clock now of
           None \<Rightarrow> rt_NextRunAt rt = 0
         | Some u \<Rightarrow> rt_NextRunAt rt = u \<and> now < u)
      else rt_NextRunAt rt = rt_NextRunAt rt0)"

lemma NextRun_after:
  assumes "New ll i sp = Inr c" "NextRun h c now = Some t"
  shows "now < t"
proof -
  from assms(2) obtain u where u: "NextScheduled c now = Some u"
    and r: "t = u + StableJitter h (planID c) u (JitterSeconds (sched_spec c))"
    by (auto simp: NextRun_def split: option.splits)
  show ?thesis
    using New_jitter[OF assms(1)] StableJitter_range[of "JitterSeconds sp" h i u] NextScheduled_Some[OF u] r by auto
qed

lemma reconcile_plan_matches: "reconcile_plan env previous now p rt0 = Inr rt \<Longrightarrow> runtime_matches env previous now rt0 p rt"
  by (auto simp: reconcile_plan_def runtime_matches_def split: if_splits sum.splits option.splits dest: NextRun_after)

lemma reconcile_plans_get:
  assumes "reconcile_plans env previous now ps b = Inr b'" "bsorted b" "distinct (map ps_PlanID ps)"
  shows "bsorted b' \<and> (\<forall>i. i \<notin> set (map ps_PlanID ps) \<longrightarrow> bget b' i = bget b i) \<and>
    (\<forall>p \<in> set ps. \<exists>rt rt0. bget b' (ps_PlanID p) = Some (Valid rt) \<and>
       (case bget b (ps_PlanID p) of None \<Rightarrow> rt0 = zero_runtime | Some c \<Rightarrow> c = Valid rt0) \<and>
       runtime_matches env previous now rt0 p rt)"
  using assms
proof (induction ps arbitrary: b)
  case (Cons p ps)
  then obtain rt0 rt where rt0: "(case bget b (ps_PlanID p) of None \<Rightarrow> rt0 = zero_runtime | Some c \<Rightarrow> c = Valid rt0)"
    and rt: "reconcile_plan env previous now p rt0 = Inr rt"
    and rest: "reconcile_plans env previous now ps (bput b (ps_PlanID p) (Valid rt)) = Inr b'"
    by (auto split: sum.splits option.splits cell.splits)
  let ?b = "bput b (ps_PlanID p) (Valid rt)"
  have sb: "bsorted ?b" and dp: "distinct (map ps_PlanID ps)" and np: "ps_PlanID p \<notin> set (map ps_PlanID ps)"
    using Cons.prems by (auto simp: bucket_simps)
  note IH = Cons.IH[OF rest sb dp]
  have get: "bget ?b i = (if i = ps_PlanID p then Some (Valid rt) else bget b i)" for i
    using Cons.prems(2) by (simp add: bucket_simps)
  have head: "bget b' (ps_PlanID p) = Some (Valid rt)"
    using IH np get by auto
  have tail: "\<exists>rt rt0. bget b' (ps_PlanID q) = Some (Valid rt) \<and>
       (case bget b (ps_PlanID q) of None \<Rightarrow> rt0 = zero_runtime | Some c \<Rightarrow> c = Valid rt0) \<and>
       runtime_matches env previous now rt0 q rt" if "q \<in> set ps" for q
  proof -
    have "bget ?b (ps_PlanID q) = bget b (ps_PlanID q)"
      using that np get by (metis imageI list.set_map)
    with IH that show ?thesis by fastforce
  qed
  show ?case
    using IH get head tail rt0 reconcile_plan_matches[OF rt] by auto
qed simp

lemma map_of_filter_key: "map_of (filter (\<lambda>(k, v). P k) b) i = (if P i then map_of b i else None)"
  by (induction b) auto

lemma reconcile_runtimes:
  assumes b: "bsorted b" "distinct (map ps_PlanID ps)"
    and rec: "reconcilePlanRuntimes env previous ps now b = Inr b'"
  shows "(\<forall>i. i \<notin> set (map ps_PlanID ps) \<longrightarrow> bget b' i = None \<or> bget b' i = bget b i) \<and>
    (\<forall>p \<in> set ps. \<exists>rt rt0. bget b' (ps_PlanID p) = Some (Valid rt) \<and>
       (case bget b (ps_PlanID p) of None \<Rightarrow> rt0 = zero_runtime | Some c \<Rightarrow> c = Valid rt0) \<and>
       runtime_matches env previous now rt0 p rt)"
proof -
  from rec obtain b1 where b1: "reconcile_plans env previous now ps b = Inr b1"
    and b': "b' = filter (\<lambda>(k, v). \<not> (k \<notin> set (map ps_PlanID ps) \<and> runtime_sweep env b1 k)) b1"
    by (auto simp: reconcilePlanRuntimes_def split: sum.splits)
  note get = reconcile_plans_get[OF b1 b]
  have sw: "bget b' i = (if \<not> (i \<notin> set (map ps_PlanID ps) \<and> runtime_sweep env b1 i) then bget b1 i else None)" for i
    unfolding b' bget_def by (rule map_of_filter_key)
  have "bget b' (ps_PlanID p) = bget b1 (ps_PlanID p)" if "p \<in> set ps" for p
    using sw[of "ps_PlanID p"] that by simp
  moreover have "bget b' i = None \<or> bget b' i = bget b i" if "i \<notin> set (map ps_PlanID ps)" for i
    using sw[of i] get that by simp
  ultimately show ?thesis using get by simp
qed

section \<open>From the control plane to the Agent\<close>

lemma int32_small: "- 2147483648 \<le> n \<Longrightarrow> n < 2147483648 \<Longrightarrow> int32 n = n"
  by (simp add: int32_def)

text \<open>What a plan is after the wire: an empty slice becomes the nil slice.\<close>

definition wire_plan :: "plan_schedule \<Rightarrow> plan_schedule" where
  "wire_plan p = p\<lparr>ps_Paths := repeated (slice (ps_Paths p)), ps_ExcludePatterns := repeated (slice (ps_ExcludePatterns p))\<rparr>"

lemma execution_json_nonempty: "0 < length (execution_json e)"
  by (simp add: execution_json_def json_object_def)

text \<open>The decoder reads back the execution policy of a plan as it was encoded.\<close>

definition reads_execution :: "env \<Rightarrow> plan_schedule \<Rightarrow> bool" where
  "reads_execution env p = (case ps_Execution p of None \<Rightarrow> True | Some e \<Rightarrow> execution_decode env (execution_json e) = Some (Some e, []))"

lemma execution_text_back:
  assumes "execution_Validate (ps_Execution p) = None" "length (execution_text (ps_Execution p)) \<le> 16384" "reads_execution env p"
  shows "execution_from_text env (execution_text (ps_Execution p)) = Inr (ps_Execution p)"
  using assms execution_json_nonempty
  by (auto simp: execution_text_def execution_from_text_def reads_execution_def json_eof_def split: option.splits)

lemma plan_back:
  assumes "plan_Validate (load_location env) p = None" and "\<And>u. uuid_parse env (uuid_string u) = Some u"
    and "length (execution_text (ps_Execution p)) \<le> 16384" "reads_execution env p"
  shows "plan_from_message env (plan_to_message p) = Inr (wire_plan p)"
proof -
  have j: "int32 (ps_JitterSeconds p) = ps_JitterSeconds p" "int32 (ps_MisfireGraceSeconds p) = ps_MisfireGraceSeconds p"
    using plan_Validate_None[OF assms(1)] by (auto intro!: int32_small)
  show ?thesis
    using execution_text_back[OF plan_Validate_None(10)[OF assms(1)] assms(3,4)] assms(2) j
    by (simp add: plan_from_message_def plan_to_message_def wire_plan_def)
qed

lemma plans_back:
  assumes "list_all (\<lambda>p. plan_Validate (load_location env) p = None) ps" and "\<And>u. uuid_parse env (uuid_string u) = Some u"
    and "plan_messages capable ps = Inr ms" "list_all (reads_execution env) ps"
  shows "plans_from_messages env ms = Inr (map wire_plan ps)"
  using assms(1,3,4)
proof (induction ps arbitrary: ms)
  case (Cons p ps)
  then obtain ms' where ms: "ms = plan_to_message p # ms'" "plan_messages capable ps = Inr ms'"
    and len: "length (execution_text (ps_Execution p)) \<le> 16384"
    by (auto split: if_splits sum.splits)
  with Cons plan_back[OF _ assms(2) len] show ?case by simp
qed simp

text \<open>No slice of a plan is empty without being nil.\<close>

definition nil_slices :: "plan_schedule \<Rightarrow> bool" where
  "nil_slices p \<longleftrightarrow> ps_Paths p \<noteq> Some [] \<and> ps_ExcludePatterns p \<noteq> Some []"

lemma wire_plan_id: "nil_slices p \<Longrightarrow> wire_plan p = p"
  by (cases "ps_Paths p"; cases "ps_ExcludePatterns p") (auto simp: wire_plan_def nil_slices_def repeated_def)

lemma wire_state:
  assumes "state_Validate (load_location env) (sha256 env) s = None" and "\<And>u. uuid_parse env (uuid_string u) = Some u"
    and "sendDesiredState capable s = SendSnapshot sn" "list_all (reads_execution env) (ds_Plans s)"
  shows "desiredStateFromProto env (ds_AgentID s) (Some sn) =
    (case state_Validate (load_location env) (sha256 env) (s\<lparr>ds_Plans := map wire_plan (ds_Plans s)\<rparr>) of
       Some e \<Rightarrow> Inl e | None \<Rightarrow> Inr (s\<lparr>ds_Plans := map wire_plan (ds_Plans s)\<rparr>))"
proof -
  have inl: "plan_messages capable ps = Inl (SendSnapshot x) \<Longrightarrow> False" for ps x
    by (induction ps) (auto split: if_splits sum.splits)
  from assms(3) obtain ms where ms: "plan_messages capable (ds_Plans s) = Inr ms"
    and sn: "sn = \<lparr>sn_Revision = ds_Revision s, sn_GeneratedAt = Some (Valid (ds_GeneratedAt s)),
          sn_ConfigHash = ds_ConfigHash s, sn_RuntimePolicy = Some (ds_RuntimePolicy s), sn_Plans = ms\<rparr>"
    by (auto simp: sendDesiredState_def split: sum.splits dest: inl)
  have st: "\<lparr>ds_AgentID = ds_AgentID s, ds_Revision = ds_Revision s, ds_GeneratedAt = ds_GeneratedAt s,
      ds_ConfigHash = ds_ConfigHash s, ds_RuntimePolicy = ds_RuntimePolicy s, ds_Plans = ps\<rparr> = s\<lparr>ds_Plans := ps\<rparr>" for ps
    by simp
  show ?thesis
    using plans_back[OF state_Validate_plans[OF assms(1)] assms(2) ms assms(4)]
    by (simp only: desiredStateFromProto_def sn snapshot.simps option.simps cell.simps prod.case sum.case Let_def st)
qed

subsection \<open>Different texts\<close>

lemma hex2_inj: "hex_digits 2 (unat (a :: 8 word)) = hex_digits 2 (unat b) \<longleftrightarrow> a = b"
  using hex_digits_less[of "unat a" 2 "unat b"] unsigned_less[of a, where 'a = nat] unsigned_less[of b, where 'a = nat]
  by (simp add: word_unat_eq_iff)

lemma length_hex_encode: "length (hex_encode b) = 2 * length b"
  by (induction b) (auto simp: hex_encode_def)

lemma hex_encode_Nil: "hex_encode b = [] \<longleftrightarrow> b = []"
  using length_hex_encode[of b] by (metis length_0_conv mult_eq_0_iff zero_neq_numeral)

lemma hex_encode_inj: "hex_encode a = hex_encode b \<longleftrightarrow> a = b"
proof (induction a arbitrary: b)
  case Nil
  then show ?case using hex_encode_Nil[of b] by (auto simp: hex_encode_def)
next
  case (Cons x a)
  show ?case
  proof (cases b)
    case Nil
    then show ?thesis using hex_encode_Nil[of "x # a"] by (auto simp: hex_encode_def)
  next
    case (Cons y c)
    have "hex_encode (x # a) = hex_digits 2 (unat x) @ hex_encode a" "hex_encode b = hex_digits 2 (unat y) @ hex_encode c"
      using Cons by (simp_all add: hex_encode_def)
    then show ?thesis
      using Cons.IH[of c] hex2_inj[of x y] Cons by (simp add: append_eq_append_conv)
  qed
qed

text \<open>A plan with the nil list of exclude patterns in place of an empty one: its text is longer by two characters.\<close>

definition nil_excludes :: "plan_schedule \<Rightarrow> plan_schedule" where
  "nil_excludes p = (if ps_ExcludePatterns p = Some [] then p\<lparr>ps_ExcludePatterns := None\<rparr> else p)"

lemma plan_json_longer:
  assumes "ps_ExcludePatterns p = Some []"
  shows "length (plan_json (nil_excludes p)) = length (plan_json p) + 2"
proof (cases "ps_Execution p")
  case None
  then show ?thesis
    using assms by (simp add: nil_excludes_def plan_json_def json_object_def json_strings_def json_array_def)
next
  case (Some e)
  then show ?thesis
    using assms by (simp add: nil_excludes_def plan_json_def json_object_def json_strings_def json_array_def)
qed

lemma plans_json_longer:
  "sum_list (map (length \<circ> plan_json) ps) \<le> sum_list (map (length \<circ> plan_json \<circ> nil_excludes) ps) \<and>
   (p \<in> set ps \<longrightarrow> ps_ExcludePatterns p = Some [] \<longrightarrow>
     sum_list (map (length \<circ> plan_json) ps) < sum_list (map (length \<circ> plan_json \<circ> nil_excludes) ps))"
proof (induction ps)
  case (Cons q ps)
  have "length (plan_json q) \<le> length (plan_json (nil_excludes q))"
    using plan_json_longer[of q] by (cases "ps_ExcludePatterns q = Some []") (auto simp: nil_excludes_def)
  with Cons plan_json_longer[of q] show ?case by auto
qed simp

lemma length_json_commas: "length (json_commas xs) = sum_list (map length xs) + (length xs - 1)"
  by (induction xs rule: json_commas.induct) auto

lemma sum_list_sort_slice: "sum_list (map f (sort_slice lt xs)) = (sum_list (map f xs) :: nat)"
  by (metis mset_map mset_sort_slice sum_mset_sum_list)

lemma length_plans_json:
  "length (json_array (map plan_json (sort_slice plan_less ps))) = 2 + sum_list (map (length \<circ> plan_json) ps) + (length ps - 1)"
  using sum_list_sort_slice[of "length \<circ> plan_json" plan_less ps] by (simp add: json_array_def length_json_commas)

lemma canonical_differs:
  assumes "p \<in> set (ds_Plans s)" "ps_ExcludePatterns p = Some []"
  shows "CanonicalJSON s \<noteq> CanonicalJSON (s\<lparr>ds_Plans := map nil_excludes (ds_Plans s)\<rparr>)"
proof
  assume "CanonicalJSON s = CanonicalJSON (s\<lparr>ds_Plans := map nil_excludes (ds_Plans s)\<rparr>)"
  then have "json_array (map plan_json (sort_slice plan_less (ds_Plans s))) =
      json_array (map plan_json (sort_slice plan_less (map nil_excludes (ds_Plans s))))"
    by (simp add: CanonicalJSON_def json_object_def)
  from arg_cong[OF this, of length] plans_json_longer[of "ds_Plans s" p] assms show False
    by (simp only: length_plans_json) (simp add: comp_assoc)
qed

lemma plan_Validate_excludes:
  "slice x = slice (ps_ExcludePatterns p) \<Longrightarrow>
     plan_Validate ll (p\<lparr>ps_ExcludePatterns := x\<rparr>) = plan_Validate ll p"
  unfolding plan_Validate_def by (cases "execution_Validate (ps_Execution p)") simp_all

lemma wire_plan_excludes:
  assumes "plan_Validate ll p = None"
  shows "wire_plan p = nil_excludes p" "plan_Validate ll (nil_excludes p) = None"
proof -
  have "slice (ps_Paths p) \<noteq> []"
    using assms by (auto simp: plan_Validate_def split: if_splits)
  then show "wire_plan p = nil_excludes p"
    by (cases "ps_Paths p"; cases "ps_ExcludePatterns p") (auto simp: wire_plan_def repeated_def nil_excludes_def)
  show "plan_Validate ll (nil_excludes p) = None"
    using assms by (simp add: nil_excludes_def plan_Validate_excludes)
qed

section \<open>Sequences of snapshots\<close>

text \<open>A whole sequence of snapshots, each with the time it arrives at.\<close>

definition apply_all :: "env \<Rightarrow> uuid \<Rightarrow> (time \<times> snapshot option) list \<Rightarrow> agent \<Rightarrow> agent" where
  "apply_all env agentID msgs s = foldl (\<lambda>s (now, sn). fst (ApplyDesiredState env now agentID sn s)) s msgs"

lemma apply_all_inv:
  "AcceptedRevision s = Inr r \<Longrightarrow> active_ok env s \<Longrightarrow>
     active_ok env (apply_all env agentID msgs s) \<and> (\<exists>r'. AcceptedRevision (apply_all env agentID msgs s) = Inr r' \<and> r \<le> r')"
proof (induction msgs arbitrary: s r)
  case (Cons m msgs)
  obtain now sn where m: "m = (now, sn)" by (cases m)
  let ?t = "fst (ApplyDesiredState env now agentID sn s)"
  obtain r1 where r1: "AcceptedRevision ?t = Inr r1" "r \<le> r1"
    using Apply_revision[OF Cons.prems(1)] by blast
  from Cons.IH[OF r1(1) Apply_active_ok[OF Cons.prems(2)]] r1(2) m show ?case
    by (auto simp: apply_all_def intro: order.trans)
qed (simp add: apply_all_def)

section \<open>Concrete parameters and states, for the witnesses\<close>

definition hex_val :: "char \<Rightarrow> nat" where
  "hex_val c = (if byte c < 58 then byte c - 48 else byte c - 87)"

definition demo_parse :: "string \<Rightarrow> uuid option" where
  "demo_parse s = Some (word_of_nat (foldl (\<lambda>acc c. acc * 16 + hex_val c) 0 (filter (\<lambda>c. c \<noteq> CHR ''-'') s)))"

definition demo_execution :: backup_execution where
  "demo_execution = \<lparr>RetryPolicy = Some \<lparr>InitialBackoffSeconds = 30, MaxAttempts = 3, MaxBackoffSeconds = 600\<rparr>,
     ResourceLimits = None, PreHookIDs = [], PostHookIDs = []\<rparr>"

definition demo_env :: env where
  "demo_env = \<lparr>load_location = demo_locations, sha256 = (\<lambda>_. []), new_sha1 = (\<lambda>_. 5), uuid_parse = demo_parse,
     execution_decode = (\<lambda>raw. if raw = execution_json demo_execution then Some (Some demo_execution, []) else None),
     runtime_sweep = (\<lambda>b i. True)\<rparr>"

definition demo_runtime :: plan_runtime where
  "demo_runtime = \<lparr>rt_PlanID = ps_PlanID demo_plan, rt_PlanRevision = 1, rt_ConfigHash = ''c1'', rt_LastScheduledAt = 0,
     rt_NextRunAt = 120000000000, rt_LastOperationID = uuid_nil\<rparr>"

definition demo_active :: agent where
  "demo_active = demo_agent\<lparr>desired_active := Some (Valid (demo_state [demo_plan])),
     outbound := Some (Valid (acceptedConfigResult (demo_state [demo_plan]))),
     plan_runtimes := [(ps_PlanID demo_plan, Valid demo_runtime)]\<rparr>"

lemma hex_val_digit: "n < 16 \<Longrightarrow> hex_val (hex_digit n) = n"
  by (auto simp: hex_val_def byte_hex_digit)

lemma hex_digit_no_dash: "n < 16 \<Longrightarrow> hex_digit n \<noteq> CHR ''-''"
  using byte_hex_digit[of n] by (auto simp: byte_def split: if_splits)

lemma hex_digits_no_dash: "c \<in> set (hex_digits n v) \<Longrightarrow> c \<noteq> CHR ''-''"
  by (induction n arbitrary: v) (auto simp: hex_digit_no_dash hex_digit_no_dash[symmetric])

lemma hex_digits_value: "foldl (\<lambda>acc c. acc * 16 + hex_val c) 0 (hex_digits n v) = v mod 16 ^ n"
proof (induction n arbitrary: v)
  case (Suc n)
  have "v mod 16 ^ Suc n = (v div 16) mod 16 ^ n * 16 + v mod 16"
    by (simp add: mod_mult2_eq mult.commute)
  with Suc show ?case by (simp add: hex_val_digit)
qed simp

lemma uuid_digits_filter: "filter (\<lambda>c. c \<noteq> CHR ''-'') (uuid_string u) = hex_digits 32 (unat u)"
proof -
  let ?h = "hex_digits 32 (unat u)"
  have keep: "filter (\<lambda>c. c \<noteq> CHR ''-'') xs = xs" if "set xs \<subseteq> set ?h" for xs
    using that hex_digits_no_dash by (intro filter_True) blast
  have sub: "set (take n (drop m ?h)) \<subseteq> set ?h" "set (drop m ?h) \<subseteq> set ?h" "set (take n ?h) \<subseteq> set ?h" for m n
    by (meson set_drop_subset set_take_subset subset_trans)+
  have "filter (\<lambda>c. c \<noteq> CHR ''-'') (uuid_string u) =
      take 8 ?h @ take 4 (drop 8 ?h) @ take 4 (drop 12 ?h) @ take 4 (drop 16 ?h) @ drop 20 ?h"
    by (simp only: uuid_string_def Let_def filter_append keep[OF sub(1)] keep[OF sub(2)] keep[OF sub(3)]) simp
  also have "\<dots> = ?h"
  proof -
    have cut: "take k (drop m xs) @ drop (k + m) xs = drop m xs" for k m and xs :: string
      using append_take_drop_id[of k "drop m xs"] by (simp only: drop_drop)
    show ?thesis
      using cut[of 8 0 ?h] cut[of 4 8 ?h] cut[of 4 12 ?h] cut[of 4 16 ?h] by simp
  qed
  finally show ?thesis .
qed

lemma demo_parse_back: "demo_parse (uuid_string u) = Some u"
  using uuid_digits[of u] by (simp add: demo_parse_def uuid_digits_filter hex_digits_value)

definition demo_digest :: "string \<Rightarrow> 8 word list" where
  "demo_digest = map (\<lambda>c. word_of_nat (byte c))"

definition demo_inj_env :: env where
  "demo_inj_env = demo_env\<lparr>sha256 := demo_digest\<rparr>"

definition demo_empty_excludes :: desired_state where
  "demo_empty_excludes = (let s = demo_state [demo_plan2, demo_plan\<lparr>ps_ExcludePatterns := Some []\<rparr>]
     in s\<lparr>ds_ConfigHash := config_hash demo_digest s\<rparr>)"

lemma demo_digest_inj: "inj demo_digest"
proof -
  have "inj (\<lambda>c. word_of_nat (byte c) :: 8 word)"
    by (rule injI) (auto simp: byte_def word_of_nat_eq_iff take_bit_eq_mod of_char_mod_256)
  then show ?thesis by (simp add: demo_digest_def)
qed

lemma demo_empty_excludes_valid:
  "state_Validate (load_location demo_inj_env) (sha256 demo_inj_env) demo_empty_excludes = None"
proof -
  have "plan_Validate demo_locations (demo_plan\<lparr>ps_ExcludePatterns := Some []\<rparr>) = None"
    by (rule plan_Validate_excludes[THEN trans, OF _ demo_plan_valid]) (simp add: demo_plan_def)
  then show ?thesis
    by (simp add: state_Validate_def demo_empty_excludes_def Let_def demo_inj_env_def demo_env_def config_hash_def
        CanonicalJSON_def demo_state_def demo_plan2_valid is_zero_def uuid_nil_def DefaultLogLimitBytes_def)
qed

lemma demo_env_simps [simp]:
  "load_location demo_env = demo_locations" "sha256 demo_env = (\<lambda>_. [])" "uuid_parse demo_env = demo_parse"
  by (simp_all add: demo_env_def)

definition demo_executing :: plan_schedule where
  "demo_executing = demo_plan\<lparr>ps_Execution := Some demo_execution\<rparr>"

lemma demo_executing_valid: "plan_Validate demo_locations demo_executing = None"
  by code_simp

lemma demo_executing_state: "state_Validate demo_locations (\<lambda>_. []) (demo_state [demo_executing, demo_plan2]) = None"
  by (simp add: state_Validate_def demo_hash)
    (simp add: demo_state_def demo_executing_valid demo_plan2_valid is_zero_def uuid_nil_def DefaultLogLimitBytes_def)

lemma demo_execution_short: "length (execution_json demo_execution) \<le> 16384"
  by code_simp

lemma demo_plan_spec: "plan_spec demo_plan = demo_spec"
  by (simp add: plan_spec_def demo_plan_def demo_spec_def)

lemma demo_clock_id: "New demo_locations i demo_spec = Inr (demo_clock\<lparr>planID := i\<rparr>)"
  using demo_New by (auto simp: New_def demo_clock_def split: option.splits sum.splits if_splits)

lemma demo_next_id: "NextScheduled (demo_clock\<lparr>planID := 528914269453437118709761\<rparr>) 0 = Some 120000000000"
  by code_simp

lemma demo_run_id: "NextRun (\<lambda>_. []) (demo_clock\<lparr>planID := 528914269453437118709761\<rparr>) 0 = Some 120000000000"
  by (simp add: NextRun_def demo_next_id StableJitter_def be_uint64_def seconds_def wrap64_def)

lemma demo_plan_id: "ps_PlanID demo_plan = 528914269453437118709761"
  by (simp add: demo_plan_def)

lemma demo_reconcile:
  "reconcilePlanRuntimes demo_env [] [demo_plan] 0 [] = Inr [(ps_PlanID demo_plan, Valid demo_runtime)]"
proof -
  have "plan_changed [] demo_plan" by (simp add: plan_changed_def old_plan_def)
  then have "reconcile_plan demo_env [] 0 demo_plan zero_runtime = Inr demo_runtime"
    by (simp add: reconcile_plan_def demo_plan_spec demo_clock_id demo_plan_id demo_run_id)
      (simp add: demo_runtime_def zero_runtime_def demo_plan_def)
  then show ?thesis
    by (simp add: reconcilePlanRuntimes_def bget_def demo_env_def)
qed

lemma demo_activated: "activated demo_env 0 (demo_state [demo_plan]) demo_agent demo_active"
  using demo_reconcile by (simp add: activated_def demo_active_def demo_agent_def demo_state_def)

lemma demo_state1_valid: "state_Validate demo_locations (\<lambda>_. []) (demo_state [demo_plan]) = None"
  by (simp add: state_Validate_def demo_hash)
    (simp add: demo_state_def demo_plan_valid is_zero_def uuid_nil_def DefaultLogLimitBytes_def)

definition demo_snapshot :: snapshot where
  "demo_snapshot = \<lparr>sn_Revision = 1, sn_GeneratedAt = Some (Valid 1), sn_ConfigHash = ''sha256:'',
     sn_RuntimePolicy = Some \<lparr>MaxParallelIOJobs = 1, LogLimitBytes = 65536\<rparr>, sn_Plans = [plan_to_message demo_plan]\<rparr>"

lemma demo_apply:
  "ApplyDesiredState demo_env 0 528914269453437118709769 (Some demo_snapshot) demo_agent =
     (demo_active, Inr (acceptedConfigResult (demo_state [demo_plan])))"
proof -
  have plan: "ps_Execution demo_plan = None" "nil_slices demo_plan"
    by (simp_all add: demo_plan_def nil_slices_def)
  have "sendDesiredState True (demo_state [demo_plan]) = SendSnapshot demo_snapshot"
    by (simp add: sendDesiredState_def demo_state_def demo_snapshot_def plan execution_text_def)
  from wire_state[OF _ _ this, of demo_env] demo_state1_valid demo_parse_back
  have "desiredStateFromProto demo_env 528914269453437118709769 (Some demo_snapshot) = Inr (demo_state [demo_plan])"
    by (simp add: demo_state_def reads_execution_def plan wire_plan_id)
  moreover have "desired_active demo_agent = None" "faults demo_agent = []"
    "plan_runtimes demo_agent = []"
    by (simp_all add: demo_agent_def)
  ultimately show ?thesis
    using demo_reconcile
    by (simp add: ApplyDesiredState_def ActiveDesiredState_def validateHooks_def plan db_update_def activate_tx_def demo_state_def)
      (simp add: demo_active_def demo_agent_def demo_state_def)
qed

section \<open>Properties\<close>

text \<open>C19: Applying a desired state is all or nothing, whatever writes fail: either the active state, the plan runtimes,
  the operations and the logs stay as they were, or a validated state of a higher revision becomes active together with its
  reconciled runtimes and the acceptance to report. A refused snapshot changes none of them.\<close>

theorem activation_all_or_nothing:
  assumes "ApplyDesiredState env now agentID snapshot s = (t, x)"
  shows "(unchanged s t \<or>
      (\<exists>state. state_Validate (load_location env) (sha256 env) state = None \<and> x = Inr (acceptedConfigResult state) \<and>
        activated env now state s t)) \<and>
    (\<forall>r. x = Inr r \<and> \<not> cr_Accepted r \<longrightarrow> unchanged s t) \<and> (\<forall>e. x = Inl e \<longrightarrow> unchanged s t)"
  using Apply_cases[OF assms] requested_valid[of env agentID snapshot s] by (auto simp: acceptedConfigResult_def)

theorem activation_all_or_nothing_witness:
  "ApplyDesiredState demo_env 0 528914269453437118709769 (Some demo_snapshot) demo_agent =
     (demo_active, Inr (acceptedConfigResult (demo_state [demo_plan]))) \<and> \<not> unchanged demo_agent demo_active \<and>
   (\<exists>state. state_Validate (load_location demo_env) (sha256 demo_env) state = None \<and> activated demo_env 0 state demo_agent demo_active) \<and>
   ApplyDesiredState demo_env 0 1 None demo_active = (demo_active, Inl (ConfigErr (DesiredStateError ''SNAPSHOT_INVALID'' []))) \<and>
   unchanged demo_active demo_active"
proof -
  have a: "ApplyDesiredState demo_env 0 1 None demo_active = (demo_active, Inl (ConfigErr (DesiredStateError ''SNAPSHOT_INVALID'' [])))"
    by (simp add: ApplyDesiredState_def desiredStateFromProto_def rejectedConfigResult_def)
  have n: "\<not> unchanged demo_agent demo_active"
    by (simp add: unchanged_def demo_active_def demo_agent_def)
  from activation_all_or_nothing[OF a] activation_all_or_nothing[OF demo_apply] a n demo_apply show ?thesis by blast
qed

text \<open>C20: Over any sequence of snapshots, with any write failures, the accepted revision never decreases and the
  active state is always one that validation accepts.\<close>

theorem revisions_never_go_back:
  assumes "AcceptedRevision s = Inr r" and "active_ok env s"
  shows "active_ok env (apply_all env agentID msgs s) \<and>
    (\<exists>r'. AcceptedRevision (apply_all env agentID msgs s) = Inr r' \<and> r \<le> r')"
  using apply_all_inv[OF assms] .

theorem revisions_never_go_back_witness:
  "AcceptedRevision demo_agent = Inr 0 \<and> active_ok demo_env demo_agent \<and>
   AcceptedRevision (apply_all demo_env 528914269453437118709769 [(0, Some demo_snapshot), (4, None)] demo_agent) = Inr 1 \<and>
   active_ok demo_env (apply_all demo_env 528914269453437118709769 [(0, Some demo_snapshot), (4, None)] demo_agent)"
proof -
  have a: "AcceptedRevision demo_agent = Inr 0" "active_ok demo_env demo_agent"
    by (simp_all add: AcceptedRevision_def ActiveDesiredState_def active_ok_def demo_agent_def)
  have "apply_all demo_env 528914269453437118709769 [(0, Some demo_snapshot), (4, None)] demo_agent = demo_active"
    by (simp add: apply_all_def demo_apply)
      (simp add: ApplyDesiredState_def desiredStateFromProto_def rejectedConfigResult_def)
  moreover have "AcceptedRevision demo_active = Inr 1"
    by (simp add: AcceptedRevision_def ActiveDesiredState_def demo_active_def demo_state_def)
  ultimately show ?thesis
    using revisions_never_go_back[OF a, of 528914269453437118709769 "[(0, Some demo_snapshot), (4, None)]"] a by simp
qed



text \<open>C22: What the control plane sends of a validated state, the Agent reads back as the same state, provided that no
  list of a plan is empty without being nil, the identifier parser reads the canonical texts of identifiers, and the JSON
  decoder reads the texts of the execution policies, as encoded, back as those policies.\<close>

theorem snapshot_round_trip:
  assumes "state_Validate (load_location env) (sha256 env) s = None" and "sendDesiredState capable s = SendSnapshot sn"
    and "\<And>u. uuid_parse env (uuid_string u) = Some u" and "list_all (reads_execution env) (ds_Plans s)"
    and "list_all nil_slices (ds_Plans s)"
  shows "desiredStateFromProto env (ds_AgentID s) (Some sn) = Inr s"
proof -
  have "map wire_plan (ds_Plans s) = ds_Plans s"
    using assms(5) by (intro map_idI) (auto simp: list_all_iff wire_plan_id)
  with wire_state[OF assms(1,3,2,4)] assms(1) show ?thesis by simp
qed

theorem snapshot_round_trip_witness:
  "\<exists>sn. sendDesiredState True (demo_state [demo_executing, demo_plan2]) = SendSnapshot sn \<and>
     desiredStateFromProto demo_env (ds_AgentID (demo_state [demo_executing, demo_plan2])) (Some sn) =
       Inr (demo_state [demo_executing, demo_plan2])"
proof -
  have v: "state_Validate (load_location demo_env) (sha256 demo_env) (demo_state [demo_executing, demo_plan2]) = None"
    using demo_executing_state by simp
  have p: "uuid_parse demo_env (uuid_string u) = Some u" for u
    using demo_parse_back by simp
  have e: "ps_Execution demo_executing = Some demo_execution" "ps_Execution demo_plan2 = None"
    by (simp_all add: demo_executing_def demo_plan2_def demo_plan_def)
  have r: "list_all (reads_execution demo_env) (ds_Plans (demo_state [demo_executing, demo_plan2]))"
    by (simp add: demo_state_def reads_execution_def e demo_env_def)
  have n: "list_all nil_slices (ds_Plans (demo_state [demo_executing, demo_plan2]))"
    by (simp add: demo_state_def nil_slices_def demo_plan2_def demo_plan_def demo_executing_def)
  obtain sn where sn: "sendDesiredState True (demo_state [demo_executing, demo_plan2]) = SendSnapshot sn"
    using demo_execution_short by (simp add: sendDesiredState_def demo_state_def execution_text_def e)
  from snapshot_round_trip[OF v sn p r n] sn show ?thesis by blast
qed

text \<open>C23: A state with a plan whose list of exclude patterns is empty but not nil (what the API stores for an explicit empty
  list) cannot be delivered: the Agent recomputes the hash over \<open>null\<close> where the control plane hashed \<open>[]\<close> and rejects the
  state with a hash mismatch. This needs that SHA-256 does not collide on those two texts, and that the identifier parser and
  the JSON decoder read back what was encoded.\<close>

theorem empty_excludes_rejected:
  assumes "state_Validate (load_location env) (sha256 env) s = None" and "sendDesiredState capable s = SendSnapshot sn"
    and "\<And>u. uuid_parse env (uuid_string u) = Some u" and "list_all (reads_execution env) (ds_Plans s)"
    and "p \<in> set (ds_Plans s)" and "ps_ExcludePatterns p = Some []"
    and "inj_on (sha256 env) {CanonicalJSON s, CanonicalJSON (s\<lparr>ds_Plans := map nil_excludes (ds_Plans s)\<rparr>)}"
  shows "desiredStateFromProto env (ds_AgentID s) (Some sn) = Inl (DesiredStateError ''CONFIG_HASH_MISMATCH'' ''config_hash'')"
proof -
  let ?t = "s\<lparr>ds_Plans := map nil_excludes (ds_Plans s)\<rparr>"
  note valid = state_Validate_plans[OF assms(1)]
  have wire: "map wire_plan (ds_Plans s) = map nil_excludes (ds_Plans s)"
    using valid by (auto simp: list_all_iff wire_plan_excludes)
  have "config_hash (sha256 env) ?t \<noteq> config_hash (sha256 env) s"
    using canonical_differs[OF assms(5,6)] assms(7) by (auto simp: config_hash_def hex_encode_inj inj_on_def)
  moreover have "ds_ConfigHash s = config_hash (sha256 env) s"
    using assms(1) by (auto simp: state_Validate_def split: if_splits option.splits)
  moreover have "first_error (plan_Validate (load_location env)) (map nil_excludes (ds_Plans s)) = None"
    using valid by (auto simp: first_error_None list_all_iff wire_plan_excludes)
  ultimately have "state_Validate (load_location env) (sha256 env) ?t = Some (DesiredStateError ''CONFIG_HASH_MISMATCH'' ''config_hash'')"
    using assms(1) by (auto simp: state_Validate_def split: if_splits option.splits)
  then show ?thesis
    using wire_state[OF assms(1,3,2,4)] by (simp add: wire)
qed

theorem empty_excludes_rejected_witness:
  "\<exists>sn. sendDesiredState True demo_empty_excludes = SendSnapshot sn \<and>
     desiredStateFromProto demo_inj_env (ds_AgentID demo_empty_excludes) (Some sn) =
       Inl (DesiredStateError ''CONFIG_HASH_MISMATCH'' ''config_hash'')"
proof -
  let ?p = "demo_plan\<lparr>ps_ExcludePatterns := Some []\<rparr>"
  have p: "uuid_parse demo_inj_env (uuid_string u) = Some u" for u
    using demo_parse_back by (simp add: demo_inj_env_def)
  have i: "inj_on (sha256 demo_inj_env) X" for X
    using inj_on_subset[OF demo_digest_inj] by (simp add: demo_inj_env_def)
  have d: "ds_Plans demo_empty_excludes = [demo_plan2, ?p]"
    by (simp add: demo_empty_excludes_def demo_state_def)
  have e: "ps_Execution demo_plan2 = None" "ps_Execution ?p = None"
    by (simp_all add: demo_plan2_def demo_plan_def)
  have r: "list_all (reads_execution demo_inj_env) (ds_Plans demo_empty_excludes)"
    using e by (simp add: d reads_execution_def)
  have m: "?p \<in> set (ds_Plans demo_empty_excludes)" "ps_ExcludePatterns ?p = Some []"
    by (simp_all add: d)
  obtain sn where sn: "sendDesiredState True demo_empty_excludes = SendSnapshot sn"
    using e by (simp add: sendDesiredState_def d execution_text_def)
  from empty_excludes_rejected[OF demo_empty_excludes_valid sn p r m i] sn show ?thesis by blast
qed

end
