(* ===== verification/Agent_Scheduler.thy ===== *)
theory Agent_Scheduler
  imports Agent_Config
begin

text \<open>
  The Agent's local scheduler (\<open>internal/agent/scheduler.go\<close>): what a tick does with each plan of the active
  state, and the goroutine that runs an operation. The goroutine is a \<open>worker\<close> that moves between phases; each move is
  one \<open>worker_step\<close> on whatever the shared state is at that moment, so anything may happen in between. What the
  environment decides in a step is the \<open>worker_input\<close>: the readings of the clock, a new identifier, whether the
  process is stopping, what the executor returned and which case of the \<open>select\<close> was taken.
  The error callback is not modelled.
\<close>

section \<open>Model\<close>

record operation_outcome =
  oc_Status :: string
  oc_ExitCode :: int
  oc_ErrorCode :: string
  oc_SnapshotID :: string
  oc_FilesDone :: int
  oc_TotalFiles :: int
  oc_BytesDone :: int
  oc_TotalBytes :: int
  oc_FilesNew :: int
  oc_DataAdded :: int
  oc_Summary :: "backup_summary option"

datatype phase = Starting | Executing | Unlogged | Waiting

text \<open>
  A worker's contexts are the registered runs \<open>wk_runs\<close>, oldest first: \<open>runCtx\<close> is the last one, and each is derived
  from the one before.
\<close>

record worker =
  wk_plan :: plan_schedule
  wk_record :: operation_record
  wk_deadline :: time
  wk_runs :: "uuid list"
  wk_phase :: phase

record worker_input =
  wi_log_at :: time
  wi_finish_at :: time
  wi_retry_at :: time
  wi_start_at :: time
  wi_new_id :: "uuid option"
  wi_ctx_done :: bool
  wi_timer :: bool
  wi_outcome :: operation_outcome

definition day :: duration where
  "day = 86400000000000"

subsection \<open>A plan of the active state\<close>

definition start_worker :: "plan_schedule \<Rightarrow> operation_record \<Rightarrow> time \<Rightarrow> agent \<Rightarrow> agent \<times> worker" where
  "start_worker plan r deadline s =
     (BeginOperation (op_ID r) s,
      \<lparr>wk_plan = plan, wk_record = r, wk_deadline = deadline, wk_runs = [op_ID r], wk_phase = Starting\<rparr>)"

definition no_worker :: "agent \<times> (store_error + unit) \<Rightarrow> agent \<times> worker option \<times> (store_error + unit)" where
  "no_worker sr = (fst sr, None, snd sr)"

definition slot_record :: "plan_schedule \<Rightarrow> uuid \<Rightarrow> time \<Rightarrow> operation_record" where
  "slot_record plan i scheduled = zero_operation\<lparr>op_ID := i, op_PlanID := ps_PlanID plan,
     op_PlanRevision := ps_Revision plan, op_ConfigHash := ps_ConfigHash plan, op_ScheduledAt := scheduled\<rparr>"

definition normal_wakeup :: "time \<Rightarrow> time \<Rightarrow> agent \<Rightarrow> bool" where
  "normal_wakeup now scheduled s \<longleftrightarrow> \<not> is_zero (schedulerTickAt s) \<and> \<not> scheduled < schedulerTickAt s \<and>
     time_sub now (schedulerTickAt s) \<le> wrap64 (schedulerInterval s + 1000000000)"

definition slot_deadline :: "time \<Rightarrow> time \<Rightarrow> time" where
  "slot_deadline now scheduled = (if scheduled + day < now then now + day else scheduled + day)"

text \<open>A due slot that has no record yet.\<close>

definition run_slot ::
    "plan_schedule \<Rightarrow> time \<Rightarrow> uuid list \<Rightarrow> uuid \<Rightarrow> time \<Rightarrow> plan_runtime \<Rightarrow> agent \<Rightarrow> agent \<times> worker option \<times> (store_error + unit)" where
  "run_slot plan now runningByPlan i scheduled rt s =
     (if \<not> normal_wakeup now scheduled s \<and> DecideMisfire now scheduled (ps_MisfireGraceSeconds plan) = ReportMissed
      then no_worker (PutOperationWithRuntime
        ((slot_record plan i scheduled)\<lparr>op_FinishedAt := now, op_Status := ''MISSED'', op_ErrorCode := ''MISFIRE_GRACE_EXCEEDED''\<rparr>) rt s)
      else if ConcurrencySkip (ps_ConcurrencyPolicy plan) (ps_PlanID plan \<in> set runningByPlan)
      then no_worker (PutOperationWithRuntime
        ((slot_record plan i scheduled)\<lparr>op_FinishedAt := now, op_Status := ''CONCURRENCY_SKIPPED'',
           op_ErrorCode := ''CONCURRENCY_SKIPPED''\<rparr>) rt s)
      else
        (let r = (slot_record plan i scheduled)\<lparr>op_StartedAt := now, op_Status := ''RUNNING''\<rparr>
         in case PutOperationWithRuntime r (rt\<lparr>rt_LastOperationID := i\<rparr>) s of
           (t, Inl e) \<Rightarrow> (t, None, Inl e)
         | (t, Inr u) \<Rightarrow> (case start_worker plan r (slot_deadline now scheduled) t of (v, w) \<Rightarrow> (v, Some w, Inr u))))"

definition advancePlan ::
    "env \<Rightarrow> plan_schedule \<Rightarrow> time \<Rightarrow> uuid list \<Rightarrow> agent \<Rightarrow> agent \<times> worker option \<times> (store_error + unit)" where
  "advancePlan env plan now runningByPlan s =
     (case New (load_location env) (ps_PlanID plan) (plan_spec plan) of
        Inl _ \<Rightarrow> (s, None, Inl (OtherError ''schedule''))
      | Inr clock \<Rightarrow>
     (case PlanRuntime (ps_PlanID plan) s of
        Inl e \<Rightarrow> (s, None, Inl e)
      | Inr stored \<Rightarrow>
          (let rt0 = (case stored of None \<Rightarrow> zero_runtime | Some rt \<Rightarrow> rt);
               changed = (rt_PlanRevision rt0 \<noteq> 0 \<and>
                 (rt_PlanRevision rt0 \<noteq> ps_Revision plan \<or> rt_ConfigHash rt0 \<noteq> ps_ConfigHash plan));
               rt = rt0\<lparr>rt_PlanID := ps_PlanID plan, rt_PlanRevision := ps_Revision plan, rt_ConfigHash := ps_ConfigHash plan\<rparr>
           in if stored = None \<or> is_zero (rt_NextRunAt rt) \<or> changed
              then no_worker (PutPlanRuntime
                (case NextRun (sha256 env) clock now of Some t \<Rightarrow> rt\<lparr>rt_NextRunAt := t\<rparr> | None \<Rightarrow> rt) s)
              else if now < rt_NextRunAt rt then (s, None, Inr ())
              else
                (let scheduled = rt_NextRunAt rt;
                     rt' = rt\<lparr>rt_NextRunAt := (case NextRun (sha256 env) clock now of Some t \<Rightarrow> t | None \<Rightarrow> 0),
                       rt_LastScheduledAt := scheduled\<rparr>;
                     i = OperationID (new_sha1 env) (ps_PlanID plan) scheduled
                 in case Operation i s of
                      Inl e \<Rightarrow> (s, None, Inl e)
                    | Inr (Some _) \<Rightarrow> no_worker (PutPlanRuntime rt' s)
                    | Inr None \<Rightarrow> run_slot plan now runningByPlan i scheduled rt' s))))"

subsection \<open>A tick\<close>

text \<open>
  One round of the loop over the plans: the error that ends the tick, or the new state, the worker started and the
  error of this plan.
\<close>

definition tick_plan ::
    "env \<Rightarrow> time \<Rightarrow> nat \<Rightarrow> plan_schedule \<Rightarrow> uuid list \<Rightarrow> agent \<Rightarrow> store_error + (agent \<times> worker option \<times> (store_error + unit))" where
  "tick_plan env now maximum plan runningByPlan s =
     (case RunningOperations s of
        Inl e \<Rightarrow> Inl e
      | Inr current \<Rightarrow>
          if uint32_of (length current) \<ge> maximum \<and>
             \<not> ConcurrencySkip (ps_ConcurrencyPolicy plan) (ps_PlanID plan \<in> set runningByPlan)
          then Inr (s, None, Inr ())
          else Inr (advancePlan env plan now runningByPlan s))"

definition now_running :: "plan_schedule \<Rightarrow> worker option \<Rightarrow> uuid list \<Rightarrow> uuid list" where
  "now_running plan w runningByPlan = (case w of None \<Rightarrow> runningByPlan | Some _ \<Rightarrow> ps_PlanID plan # runningByPlan)"

fun tick_plans ::
    "env \<Rightarrow> time \<Rightarrow> nat \<Rightarrow> plan_schedule list \<Rightarrow> uuid list \<Rightarrow> worker list \<Rightarrow> store_error option \<Rightarrow> agent
     \<Rightarrow> agent \<times> worker list \<times> store_error option" where
  "tick_plans env now maximum [] runningByPlan ws firstErr s = (s, ws, firstErr)"
| "tick_plans env now maximum (p # ps) runningByPlan ws firstErr s =
     (case tick_plan env now maximum p runningByPlan s of
        Inl e \<Rightarrow> (s, ws, Some e)
      | Inr (t, w, r) \<Rightarrow>
          tick_plans env now maximum ps (now_running p w runningByPlan) (ws @ (case w of None \<Rightarrow> [] | Some w \<Rightarrow> [w]))
            (if firstErr = None then (case r of Inl e \<Rightarrow> Some e | Inr _ \<Rightarrow> None) else firstErr) t)"

definition tickScheduler :: "env \<Rightarrow> time \<Rightarrow> agent \<Rightarrow> agent \<times> worker list \<times> store_error option" where
  "tickScheduler env now s =
     (case ActiveDesiredState s of
        Inl e \<Rightarrow> (s, [], Some e)
      | Inr None \<Rightarrow> (s, [], None)
      | Inr (Some desired) \<Rightarrow>
          (case RunningOperations s of
             Inl e \<Rightarrow> (s, [], Some e)
           | Inr current \<Rightarrow>
               (case tick_plans env now (MaxParallelIOJobs (ds_RuntimePolicy desired)) (ds_Plans desired)
                   (map op_PlanID current) [] None s of
                  (t, ws, e) \<Rightarrow> (t\<lparr>schedulerTickAt := now\<rparr>, ws, e))))"

text \<open>What \<open>RunLocalScheduler\<close> does before its first tick.\<close>

definition start_scheduler :: "time \<Rightarrow> duration \<Rightarrow> agent \<Rightarrow> agent" where
  "start_scheduler now interval s =
     s\<lparr>schedulerTickAt := now, schedulerInterval := (if interval \<le> 0 then seconds 30 else interval)\<rparr>"

subsection \<open>Closing an attempt\<close>

definition same_plan :: "plan_schedule \<Rightarrow> plan_schedule \<Rightarrow> bool" where
  "same_plan plan candidate \<longleftrightarrow> ps_PlanID candidate = ps_PlanID plan \<and> ps_Revision candidate = ps_Revision plan \<and>
     ps_ConfigHash candidate = ps_ConfigHash plan"

text \<open>The deadline of the next attempt: the next run of the plan, when that is earlier.\<close>

definition retry_deadline :: "plan_schedule \<Rightarrow> time \<Rightarrow> agent \<Rightarrow> time" where
  "retry_deadline plan deadline s =
     (case bget (plan_runtimes s) (ps_PlanID plan) of
        Some (Valid rt) \<Rightarrow> if \<not> is_zero (rt_NextRunAt rt) \<and> rt_NextRunAt rt < deadline then rt_NextRunAt rt else deadline
      | _ \<Rightarrow> deadline)"

definition attempt_no :: "operation_record \<Rightarrow> int" where
  "attempt_no r = (if op_Attempt r = 0 then 1 else op_Attempt r)"

definition next_attempt :: "operation_record \<Rightarrow> uuid \<Rightarrow> time \<Rightarrow> time \<Rightarrow> time \<Rightarrow> operation_record" where
  "next_attempt r i retryAt started deadline = zero_operation\<lparr>op_ID := i, op_PlanID := op_PlanID r,
     op_PlanRevision := op_PlanRevision r, op_ConfigHash := op_ConfigHash r, op_ScheduledAt := retryAt,
     op_StartedAt := started, op_Status := ''RUNNING'', op_ParentOperationID := op_ID r,
     op_RootOperationID := (if op_RootOperationID r = uuid_nil then op_ID r else op_RootOperationID r),
     op_Attempt := attempt_no r + 1, op_RetryAt := retryAt, op_Deadline := deadline\<rparr>"

definition retry_policy_of :: "plan_schedule \<Rightarrow> retry_policy option" where
  "retry_policy_of plan = (case ps_Execution plan of None \<Rightarrow> None | Some e \<Rightarrow> RetryPolicy e)"

text \<open>The body of the transaction after the record is stored in \<open>s\<close>: the next attempt, if there is one.\<close>

definition plan_retry ::
    "time \<Rightarrow> time \<Rightarrow> uuid option \<Rightarrow> plan_schedule \<Rightarrow> operation_record \<Rightarrow> time \<Rightarrow> bool \<Rightarrow> agent
     \<Rightarrow> store_error + operation_record option" where
  "plan_retry retry_now start_now new_id plan r deadline allowRetry s =
     (case retry_policy_of plan of
        None \<Rightarrow> Inr None
      | Some policy \<Rightarrow>
          if \<not> allowRetry \<or> op_Status r \<noteq> ''FAILED'' \<or> \<not> RetryableBackupError (op_ErrorCode r) then Inr None
          else if attempt_no r \<ge> Attempts policy then Inr None
          else
            (let retryAt = retry_now + seconds (Backoff policy (attempt_no r))
             in case desired_active s of
                  Some (Valid desired) \<Rightarrow>
                    if \<not> list_ex (same_plan plan) (ds_Plans desired) then Inr None
                    else if \<not> retryAt < retry_deadline plan deadline s then Inr None
                    else (case new_id of
                        None \<Rightarrow> Inl (OtherError ''uuid'')
                      | Some i \<Rightarrow> Inr (Some (next_attempt r i retryAt start_now (retry_deadline plan deadline s))))
                | _ \<Rightarrow> Inr None))"

definition finishWithRetry ::
    "time \<Rightarrow> time \<Rightarrow> uuid option \<Rightarrow> plan_schedule \<Rightarrow> operation_record \<Rightarrow> time \<Rightarrow> bool \<Rightarrow> agent
     \<Rightarrow> agent \<times> (store_error + operation_record option)" where
  "finishWithRetry retry_now start_now new_id plan r deadline allowRetry s = db_update (\<lambda>s.
     (let t = s\<lparr>operations := bput (operations s) (op_ID r) (Valid r)\<rparr>
      in case plan_retry retry_now start_now new_id plan r deadline allowRetry t of
           Inl e \<Rightarrow> Inl e
         | Inr None \<Rightarrow> Inr (t, None)
         | Inr (Some n) \<Rightarrow> Inr (t\<lparr>operations := bput (operations t) (op_ID n) (Valid n)\<rparr>, Some n))) s"

subsection \<open>The goroutine of an operation\<close>

definition run_canceled :: "bool \<Rightarrow> uuid list \<Rightarrow> agent \<Rightarrow> bool" where
  "run_canceled ctx_done runs s \<longleftrightarrow> ctx_done \<or> list_ex (\<lambda>i. bget (running s) i = Some True) runs"

definition end_worker :: "worker \<Rightarrow> agent \<Rightarrow> agent" where
  "end_worker w s = fold end_run (rev (wk_runs w)) s"

text \<open>The outcome of an attempt whose start could not be logged.\<close>

definition unlogged_outcome :: operation_outcome where
  "unlogged_outcome = \<lparr>oc_Status = ''FAILED'', oc_ExitCode = 0, oc_ErrorCode = ''STATE_STORAGE_UNAVAILABLE'', oc_SnapshotID = [],
     oc_FilesDone = 0, oc_TotalFiles = 0, oc_BytesDone = 0, oc_TotalBytes = 0, oc_FilesNew = 0, oc_DataAdded = 0, oc_Summary = None\<rparr>"

text \<open>The code and the level of the log entry an outcome gets.\<close>

definition outcome_log :: "operation_outcome \<Rightarrow> string \<times> string" where
  "outcome_log outcome =
     (let (code, level) =
        (if oc_Status outcome = ''SUCCEEDED'' then (''BACKUP_SUCCEEDED'', ''INFO'')
         else if oc_Status outcome = ''SUCCEEDED_WITH_WARNINGS'' then (''BACKUP_SUCCEEDED_WITH_WARNINGS'', ''WARN'')
         else if oc_Status outcome = ''CANCELED'' then (''CANCELED'', ''ERROR'')
         else (oc_ErrorCode outcome, ''ERROR''))
      in (if code = [] then ''BACKUP_FAILED'' else code, level))"

definition outcome_record :: "operation_outcome \<Rightarrow> time \<Rightarrow> operation_record \<Rightarrow> operation_record" where
  "outcome_record outcome now r = r\<lparr>op_Status := oc_Status outcome, op_ExitCode := oc_ExitCode outcome,
     op_ErrorCode := oc_ErrorCode outcome, op_SnapshotID := oc_SnapshotID outcome, op_FilesDone := oc_FilesDone outcome,
     op_TotalFiles := oc_TotalFiles outcome, op_BytesDone := oc_BytesDone outcome, op_TotalBytes := oc_TotalBytes outcome,
     op_FilesNew := oc_FilesNew outcome, op_DataAdded := oc_DataAdded outcome, op_Summary := oc_Summary outcome,
     op_FinishedAt := now\<rparr>"

definition begin_attempt :: "worker_input \<Rightarrow> worker \<Rightarrow> agent \<Rightarrow> agent \<times> worker option" where
  "begin_attempt inp w s =
     (case operationLog (wi_log_at inp) (op_ID (wk_record w)) ''backup'' ''INFO'' ''BACKUP_STARTED'' 0 0 s of
        (t, Inr _) \<Rightarrow> (t, Some (w\<lparr>wk_phase := Executing\<rparr>))
      | (t, Inl _) \<Rightarrow> (t, Some (w\<lparr>wk_phase := Unlogged\<rparr>)))"

definition finish_attempt :: "worker_input \<Rightarrow> operation_outcome \<Rightarrow> worker \<Rightarrow> agent \<Rightarrow> agent \<times> worker option" where
  "finish_attempt inp outcome w s =
     (case outcome_log outcome of (code, level) \<Rightarrow>
     (case operationLog (wi_log_at inp) (op_ID (wk_record w)) ''backup'' level code (oc_FilesDone outcome) (oc_BytesDone outcome) s of
        (t, logged) \<Rightarrow>
          (let outcome' = (case logged of Inr _ \<Rightarrow> outcome
                 | Inl _ \<Rightarrow> outcome\<lparr>oc_Status := ''FAILED'', oc_ErrorCode := ''STATE_STORAGE_UNAVAILABLE''\<rparr>);
               r = outcome_record outcome' (wi_finish_at inp) (wk_record w)
           in case finishWithRetry (wi_retry_at inp) (wi_start_at inp) (wi_new_id inp) (wk_plan w) r (wk_deadline w)
                     (\<not> run_canceled (wi_ctx_done inp) (wk_runs w) t) t of
                (u, Inl _) \<Rightarrow> (end_worker w u, None)
              | (u, Inr None) \<Rightarrow> (end_worker w u, None)
              | (u, Inr (Some n)) \<Rightarrow>
                  (BeginOperation (op_ID n) u,
                   Some (w\<lparr>wk_record := n, wk_deadline := op_Deadline n, wk_runs := wk_runs w @ [op_ID n], wk_phase := Waiting\<rparr>)))))"

text \<open>The record of a pending attempt that is given up, with its log entry; a failure to store either is only reported.\<close>

definition give_up :: "string \<Rightarrow> worker_input \<Rightarrow> worker \<Rightarrow> agent \<Rightarrow> agent" where
  "give_up code inp w s =
     (let r = (wk_record w)\<lparr>op_Status := ''CANCELED'', op_ErrorCode := code, op_FinishedAt := wi_finish_at inp\<rparr>
      in end_worker w (fst (PutOperation r (fst (operationLog (wi_log_at inp) (op_ID r) ''backup'' ''ERROR'' code 0 0 s)))))"

definition wake_attempt :: "worker_input \<Rightarrow> worker \<Rightarrow> agent \<Rightarrow> agent \<times> worker option" where
  "wake_attempt inp w s =
     (if \<not> wi_timer inp then (give_up ''CANCELED'' inp w s, None)
      else if \<not> (case ActiveDesiredState s of Inr (Some active) \<Rightarrow> list_ex (same_plan (wk_plan w)) (ds_Plans active) | _ \<Rightarrow> False)
        \<or> \<not> wi_start_at inp < wk_deadline w
      then (give_up ''CONFIG_SUPERSEDED'' inp w s, None)
      else (s, Some (w\<lparr>wk_phase := Starting\<rparr>)))"

definition worker_step :: "worker_input \<Rightarrow> worker \<Rightarrow> agent \<Rightarrow> agent \<times> worker option" where
  "worker_step inp w s =
     (case wk_phase w of
        Starting \<Rightarrow> begin_attempt inp w s
      | Executing \<Rightarrow> finish_attempt inp (wi_outcome inp) w s
      | Unlogged \<Rightarrow> finish_attempt inp unlogged_outcome w s
      | Waiting \<Rightarrow> wake_attempt inp w s)"

section \<open>What each operation keeps\<close>

text \<open>The stored records, runtimes and active state are the same.\<close>

definition same_store :: "agent \<Rightarrow> agent \<Rightarrow> bool" where
  "same_store s t \<longleftrightarrow> operations t = operations s \<and> plan_runtimes t = plan_runtimes s \<and> desired_active t = desired_active s"

lemma same_store_refl [simp]: "same_store s s" "same_store s (s\<lparr>faults := f\<rparr>)" "same_store s (s\<lparr>schedulerTickAt := x\<rparr>)"
  by (simp_all add: same_store_def)

lemma same_store_trans: "same_store s t \<Longrightarrow> same_store t u \<Longrightarrow> same_store s u"
  by (simp add: same_store_def)

lemma operationLog_keeps:
  assumes "operationLog now i sect level code f b s = (t, r)"
  shows "same_store s t \<and> running t = running s \<and> canceled t = canceled s"
proof (cases r)
  case (Inl e)
  with assms show ?thesis
    by (auto simp: operationLog_def appendOperationLog_def same_store_def dest!: db_update_Inl)
next
  case (Inr u)
  with assms show ?thesis
    by (auto simp: operationLog_def appendOperationLog_def same_store_def Let_def dest!: db_update_Inr
        split: if_splits option.splits cell.splits sum.splits)
qed

lemma end_run_keeps [simp]: "same_store s (end_run i s)"
  by (simp add: same_store_def end_run_def)

lemma end_runs_keep: "same_store s (fold end_run is s)"
proof (induction "is" arbitrary: s)
  case (Cons i js)
  from same_store_trans[OF end_run_keeps Cons.IH] show ?case by simp
qed simp

lemma end_worker_keeps [simp]: "same_store s (end_worker w s)"
  by (simp add: end_worker_def end_runs_keep)

lemma BeginOperation_keeps [simp]: "same_store s (BeginOperation i s)"
  by (simp add: same_store_def BeginOperation_def)

lemma PutPlanRuntime_cases:
  assumes "PutPlanRuntime rt s = (t, x)"
  shows "operations t = operations s \<and> desired_active t = desired_active s \<and>
    (case x of Inl e \<Rightarrow> plan_runtimes t = plan_runtimes s
     | Inr _ \<Rightarrow> plan_runtimes t = bput (plan_runtimes s) (rt_PlanID rt) (Valid rt))"
  using assms by (cases x) (auto simp: PutPlanRuntime_def split: if_splits dest!: db_update_Inl db_update_Inr)

lemma PutOperationWithRuntime_cases:
  assumes "PutOperationWithRuntime r rt s = (t, x)"
  shows "case x of
      Inl e \<Rightarrow> same_store s t
    | Inr _ \<Rightarrow> desired_active t = desired_active s \<and> op_PlanID r = rt_PlanID rt \<and>
        operations t = bput (operations s) (op_ID r) (Valid r) \<and>
        plan_runtimes t = bput (plan_runtimes s) (rt_PlanID rt) (Valid rt)"
  using assms by (cases x) (auto simp: PutOperationWithRuntime_def same_store_def split: if_splits dest!: db_update_Inl db_update_Inr)

lemma PutOperation_cases:
  assumes "PutOperation r s = (t, x)"
  shows "desired_active t = desired_active s \<and> plan_runtimes t = plan_runtimes s \<and>
    (case x of Inl e \<Rightarrow> operations t = operations s | Inr _ \<Rightarrow> operations t = bput (operations s) (op_ID r) (Valid r))"
  using assms by (cases x) (auto simp: PutOperation_def put_operation_tx_def dest!: db_update_Inl db_update_Inr)

section \<open>A plan's slot\<close>

text \<open>The stored record of a slot, and the worker that goes with a running one.\<close>

definition slot_added :: "plan_schedule \<Rightarrow> uuid list \<Rightarrow> agent \<Rightarrow> agent \<Rightarrow> worker option \<Rightarrow> bool" where
  "slot_added plan runningByPlan s t w \<longleftrightarrow>
     (\<exists>r. bget (operations s) (op_ID r) = None \<and> op_PlanID r = ps_PlanID plan \<and> op_Attempt r = 0 \<and>
        operations t = bput (operations s) (op_ID r) (Valid r) \<and>
        (case w of
           None \<Rightarrow> Terminal r \<and> \<not> is_running r
         | Some w \<Rightarrow> is_running r \<and> wk_record w = r \<and> wk_plan w = plan \<and> wk_runs w = [op_ID r] \<and> wk_phase w = Starting \<and>
             \<not> ConcurrencySkip (ps_ConcurrencyPolicy plan) (ps_PlanID plan \<in> set runningByPlan)))"

definition slot_status :: "plan_schedule \<Rightarrow> time \<Rightarrow> uuid list \<Rightarrow> time \<Rightarrow> agent \<Rightarrow> string" where
  "slot_status plan now runningByPlan scheduled s =
     (if \<not> normal_wakeup now scheduled s \<and> DecideMisfire now scheduled (ps_MisfireGraceSeconds plan) = ReportMissed
      then ''MISSED''
      else if ConcurrencySkip (ps_ConcurrencyPolicy plan) (ps_PlanID plan \<in> set runningByPlan) then ''CONCURRENCY_SKIPPED''
      else ''RUNNING'')"

lemma slot_record_simps [simp]:
  "op_ID (slot_record plan i scheduled) = i" "op_PlanID (slot_record plan i scheduled) = ps_PlanID plan"
  "op_Attempt (slot_record plan i scheduled) = 0" "op_ScheduledAt (slot_record plan i scheduled) = scheduled"
  by (simp_all add: slot_record_def zero_operation_def)

lemma run_slot_cases:
  assumes "run_slot plan now runningByPlan i scheduled rt s = (t, w, x)" and "bget (operations s) i = None"
  shows "(same_store s t \<and> w = None \<and> x \<noteq> Inr ()) \<or>
    (x = Inr () \<and> desired_active t = desired_active s \<and> slot_added plan runningByPlan s t w \<and> bget (operations s) i = None \<and>
     (\<exists>j. plan_runtimes t = bput (plan_runtimes s) (rt_PlanID rt) (Valid (rt\<lparr>rt_LastOperationID := j\<rparr>))) \<and>
     (\<exists>r. op_ID r = i \<and> op_ScheduledAt r = scheduled \<and> op_Status r = slot_status plan now runningByPlan scheduled s \<and>
        operations t = bput (operations s) i (Valid r) \<and> (w \<noteq> None \<longleftrightarrow> is_running r)))"
proof (cases "\<not> normal_wakeup now scheduled s \<and> DecideMisfire now scheduled (ps_MisfireGraceSeconds plan) = ReportMissed")
  case True
  let ?r = "(slot_record plan i scheduled)\<lparr>op_FinishedAt := now, op_Status := ''MISSED'', op_ErrorCode := ''MISFIRE_GRACE_EXCEEDED''\<rparr>"
  from True assms have "PutOperationWithRuntime ?r rt s = (t, x)" and "w = None"
    by (auto simp: run_slot_def no_worker_def)
  moreover have "slot_status plan now runningByPlan scheduled s = ''MISSED''"
    using True by (simp add: slot_status_def)
  ultimately show ?thesis
    using PutOperationWithRuntime_cases[of ?r rt s t x] assms(2) by (cases x) (auto simp: slot_added_def Terminal_def is_running_def intro!: exI[of _ ?r] exI[of _ "rt_LastOperationID rt"])
next
  case a: False
  show ?thesis
  proof (cases "ConcurrencySkip (ps_ConcurrencyPolicy plan) (ps_PlanID plan \<in> set runningByPlan)")
    case True
    let ?r = "(slot_record plan i scheduled)\<lparr>op_FinishedAt := now, op_Status := ''CONCURRENCY_SKIPPED'', op_ErrorCode := ''CONCURRENCY_SKIPPED''\<rparr>"
    from a True assms have "PutOperationWithRuntime ?r rt s = (t, x)" and "w = None"
      by (auto simp: run_slot_def no_worker_def)
    moreover have "slot_status plan now runningByPlan scheduled s = ''CONCURRENCY_SKIPPED''"
      using a True by (simp add: slot_status_def)
    ultimately show ?thesis
      using PutOperationWithRuntime_cases[of ?r rt s t x] assms(2) by (cases x) (auto simp: slot_added_def Terminal_def is_running_def intro!: exI[of _ ?r] exI[of _ "rt_LastOperationID rt"])
  next
    case False
    let ?r = "(slot_record plan i scheduled)\<lparr>op_StartedAt := now, op_Status := ''RUNNING''\<rparr>"
    obtain u y where put: "PutOperationWithRuntime ?r (rt\<lparr>rt_LastOperationID := i\<rparr>) s = (u, y)"
      by fastforce
    have "slot_status plan now runningByPlan scheduled s = ''RUNNING''"
      using a False by (simp add: slot_status_def)
    with PutOperationWithRuntime_cases[OF put] a False assms put show ?thesis
      by (cases y) (auto simp: run_slot_def Let_def start_worker_def slot_added_def is_running_def BeginOperation_def
          intro!: exI[of _ ?r] exI[of _ i])
  qed
qed

lemma PlanRuntime_Inr:
  "PlanRuntime i s = Inr x \<longleftrightarrow>
     (case bget (plan_runtimes s) i of None \<Rightarrow> x = None | Some Malformed \<Rightarrow> False | Some (Valid rt) \<Rightarrow> x = Some rt)"
  by (auto simp: PlanRuntime_def split: option.splits cell.splits)

lemma Operation_None: "Operation i s = Inr None \<longleftrightarrow> bget (operations s) i = None"
  by (auto simp: Operation_def split: option.splits cell.splits)

text \<open>The runtime of a plan whose slot is recorded.\<close>

definition advanced_runtime :: "env \<Rightarrow> plan_schedule \<Rightarrow> scheduler \<Rightarrow> time \<Rightarrow> plan_runtime \<Rightarrow> plan_runtime" where
  "advanced_runtime env plan clock now rt =
     rt\<lparr>rt_PlanID := ps_PlanID plan, rt_PlanRevision := ps_Revision plan, rt_ConfigHash := ps_ConfigHash plan,
       rt_NextRunAt := (case NextRun (sha256 env) clock now of Some t \<Rightarrow> t | None \<Rightarrow> 0), rt_LastScheduledAt := rt_NextRunAt rt\<rparr>"

text \<open>The slot of a plan is due, and its record is still to be made.\<close>

definition due :: "env \<Rightarrow> plan_schedule \<Rightarrow> time \<Rightarrow> scheduler \<Rightarrow> plan_runtime \<Rightarrow> agent \<Rightarrow> bool" where
  "due env plan now clock rt s \<longleftrightarrow>
     New (load_location env) (ps_PlanID plan) (plan_spec plan) = Inr clock \<and>
     bget (plan_runtimes s) (ps_PlanID plan) = Some (Valid rt) \<and>
     (rt_PlanRevision rt = 0 \<or> rt_PlanRevision rt = ps_Revision plan \<and> rt_ConfigHash rt = ps_ConfigHash plan) \<and>
     rt_NextRunAt rt \<noteq> 0 \<and> rt_NextRunAt rt \<le> now \<and>
     bget (operations s) (OperationID (new_sha1 env) (ps_PlanID plan) (rt_NextRunAt rt)) = None"

lemma advancePlan_due:
  assumes "due env plan now clock rt s"
  shows "advancePlan env plan now runningByPlan s = run_slot plan now runningByPlan
    (OperationID (new_sha1 env) (ps_PlanID plan) (rt_NextRunAt rt)) (rt_NextRunAt rt) (advanced_runtime env plan clock now rt) s"
proof -
  have "PlanRuntime (ps_PlanID plan) s = Inr (Some rt)"
    "Operation (OperationID (new_sha1 env) (ps_PlanID plan) (rt_NextRunAt rt)) s = Inr None"
    using assms by (simp_all add: due_def PlanRuntime_Inr Operation_None)
  with assms show ?thesis
    by (auto simp: advancePlan_def due_def advanced_runtime_def is_zero_def Let_def split: option.splits)
qed

lemma no_worker_put: "no_worker (PutPlanRuntime rt s) = (t, w, x) \<Longrightarrow>
    operations t = operations s \<and> desired_active t = desired_active s \<and> w = None"
  by (cases "PutPlanRuntime rt s") (auto simp: no_worker_def dest: PutPlanRuntime_cases)

lemma advancePlan_cases:
  assumes "advancePlan env plan now runningByPlan s = (t, w, x)"
  shows "desired_active t = desired_active s \<and>
    (operations t = operations s \<and> w = None \<or> x = Inr () \<and> slot_added plan runningByPlan s t w)"
proof (cases "\<exists>clock rt. due env plan now clock rt s")
  case True
  then obtain clock rt where d: "due env plan now clock rt s" by blast
  with assms have "run_slot plan now runningByPlan (OperationID (new_sha1 env) (ps_PlanID plan) (rt_NextRunAt rt))
      (rt_NextRunAt rt) (advanced_runtime env plan clock now rt) s = (t, w, x)"
    by (simp add: advancePlan_due)
  from run_slot_cases[OF this] d show ?thesis
    by (auto simp: due_def same_store_def)
next
  case False
  show ?thesis
  proof (cases "New (load_location env) (ps_PlanID plan) (plan_spec plan)")
    case (Inl e)
    with assms show ?thesis by (simp add: advancePlan_def)
  next
    case clock: (Inr clock)
    show ?thesis
    proof (cases "PlanRuntime (ps_PlanID plan) s")
      case (Inl e)
      with assms clock show ?thesis by (simp add: advancePlan_def)
    next
      case stored: (Inr stored)
      show ?thesis
      proof (cases stored)
        case None
        with assms clock stored show ?thesis
          by (auto simp: advancePlan_def Let_def dest: no_worker_put)
      next
        case (Some rt)
        let ?i = "OperationID (new_sha1 env) (ps_PlanID plan) (rt_NextRunAt rt)"
        have rt: "bget (plan_runtimes s) (ps_PlanID plan) = Some (Valid rt)"
          using stored Some by (auto simp: PlanRuntime_Inr split: option.splits cell.splits)
        have "Operation ?i s \<noteq> Inr None" if "rt_NextRunAt rt \<noteq> 0" "rt_NextRunAt rt \<le> now"
          "rt_PlanRevision rt = 0 \<or> rt_PlanRevision rt = ps_Revision plan \<and> rt_ConfigHash rt = ps_ConfigHash plan"
          using False that clock rt by (auto simp: due_def Operation_None)
        with assms clock stored Some show ?thesis
          by (auto simp: advancePlan_def Let_def is_zero_def split: if_splits sum.splits option.splits dest: no_worker_put)
      qed
    qed
  qed
qed

section \<open>Closing an attempt\<close>

text \<open>What the next attempt takes from the one it follows.\<close>

definition retry_of :: "plan_schedule \<Rightarrow> operation_record \<Rightarrow> time \<Rightarrow> operation_record \<Rightarrow> bool" where
  "retry_of plan r deadline n \<longleftrightarrow>
     op_PlanID n = op_PlanID r \<and> op_PlanRevision n = op_PlanRevision r \<and> op_ConfigHash n = op_ConfigHash r \<and>
     op_ParentOperationID n = op_ID r \<and>
     op_RootOperationID n = (if op_RootOperationID r = uuid_nil then op_ID r else op_RootOperationID r) \<and>
     op_Attempt n = attempt_no r + 1 \<and> op_Status n = ''RUNNING'' \<and> op_ScheduledAt n = op_RetryAt n \<and>
     op_RetryAt n < op_Deadline n \<and> op_Deadline n \<le> deadline"

text \<open>When an attempt is followed by another one.\<close>

definition retries :: "time \<Rightarrow> plan_schedule \<Rightarrow> operation_record \<Rightarrow> time \<Rightarrow> agent \<Rightarrow> bool" where
  "retries retry_now plan r deadline s \<longleftrightarrow>
     op_Status r = ''FAILED'' \<and> RetryableBackupError (op_ErrorCode r) \<and>
     (\<exists>policy desired. retry_policy_of plan = Some policy \<and> attempt_no r < Attempts policy \<and>
        desired_active s = Some (Valid desired) \<and> list_ex (same_plan plan) (ds_Plans desired) \<and>
        retry_now + seconds (Backoff policy (attempt_no r)) < retry_deadline plan deadline s)"

lemma retry_deadline_le: "retry_deadline plan deadline s \<le> deadline"
  by (auto simp: retry_deadline_def split: option.splits cell.splits)

lemma retry_deadline_operations [simp]:
  "retry_deadline plan deadline (s\<lparr>operations := b\<rparr>) = retry_deadline plan deadline s"
  "retry_deadline plan deadline (s\<lparr>faults := f\<rparr>) = retry_deadline plan deadline s"
  by (simp_all add: retry_deadline_def)

lemma retries_operations [simp]:
  "retries now plan r deadline (s\<lparr>operations := b\<rparr>) = retries now plan r deadline s"
  "retries now plan r deadline (s\<lparr>faults := f\<rparr>) = retries now plan r deadline s"
  by (simp_all add: retries_def)

lemma plan_retry_iff:
  "plan_retry retry_now start_now (Some i) plan r deadline allowRetry s =
     (if allowRetry \<and> retries retry_now plan r deadline s
      then Inr (Some (next_attempt r i (retry_now + seconds (Backoff (the (retry_policy_of plan)) (attempt_no r))) start_now
        (retry_deadline plan deadline s)))
      else Inr None)"
  by (auto simp: plan_retry_def retries_def Let_def split: option.splits cell.splits)

lemma plan_retry_Some:
  assumes "plan_retry retry_now start_now new_id plan r deadline allowRetry s = Inr (Some n)"
  shows "allowRetry \<and> retries retry_now plan r deadline s \<and> retry_of plan r deadline n \<and> new_id = Some (op_ID n)"
proof (cases new_id)
  case None
  with assms show ?thesis
    by (auto simp: plan_retry_def Let_def split: option.splits cell.splits if_splits)
next
  case (Some i)
  with assms have n: "allowRetry" "retries retry_now plan r deadline s"
    "n = next_attempt r i (retry_now + seconds (Backoff (the (retry_policy_of plan)) (attempt_no r))) start_now
        (retry_deadline plan deadline s)"
    by (auto simp: plan_retry_iff split: if_splits)
  then have "op_RetryAt n < op_Deadline n" "op_Deadline n \<le> deadline"
    by (auto simp: retries_def next_attempt_def retry_deadline_le)
  with n Some show ?thesis
    by (simp add: retry_of_def next_attempt_def)
qed

lemma finishWithRetry_cases:
  assumes "finishWithRetry retry_now start_now new_id plan r deadline allowRetry s = (t, x)"
  shows "desired_active t = desired_active s \<and> plan_runtimes t = plan_runtimes s \<and> running t = running s \<and> canceled t = canceled s \<and>
    (case x of
       Inl e \<Rightarrow> operations t = operations s
     | Inr None \<Rightarrow> operations t = bput (operations s) (op_ID r) (Valid r)
     | Inr (Some n) \<Rightarrow> operations t = bput (bput (operations s) (op_ID r) (Valid r)) (op_ID n) (Valid n) \<and>
         allowRetry \<and> retries retry_now plan r deadline s \<and> retry_of plan r deadline n \<and> new_id = Some (op_ID n))"
proof (cases x)
  case (Inl e)
  with assms show ?thesis by (auto simp: finishWithRetry_def dest!: db_update_Inl)
next
  case (Inr n)
  with assms show ?thesis
    by (cases n) (auto simp: finishWithRetry_def Let_def dest!: db_update_Inr plan_retry_Some split: sum.splits option.splits)
qed

section \<open>A worker ends\<close>

text \<open>The steps of one worker, each in whatever state the Agent is then.\<close>

fun run_worker :: "(worker_input \<times> agent) list \<Rightarrow> worker \<Rightarrow> worker option" where
  "run_worker [] w = Some w"
| "run_worker ((inp, s) # rest) w = (case snd (worker_step inp w s) of None \<Rightarrow> None | Some w' \<Rightarrow> run_worker rest w')"

text \<open>How often the executor is called.\<close>

fun executions :: "(worker_input \<times> agent) list \<Rightarrow> worker \<Rightarrow> nat" where
  "executions [] w = 0"
| "executions ((inp, s) # rest) w = (if wk_phase w = Executing then 1 else 0) +
     (case snd (worker_step inp w s) of None \<Rightarrow> 0 | Some w' \<Rightarrow> executions rest w')"

definition attempts_left :: "worker \<Rightarrow> nat" where
  "attempts_left w = (case retry_policy_of (wk_plan w) of None \<Rightarrow> 0 | Some policy \<Rightarrow> nat (Attempts policy - attempt_no (wk_record w)))"

definition steps_left :: "worker \<Rightarrow> nat" where
  "steps_left w = 3 * attempts_left w + (case wk_phase w of Waiting \<Rightarrow> 3 | Starting \<Rightarrow> 2 | _ \<Rightarrow> 1)"

definition calls_left :: "worker \<Rightarrow> nat" where
  "calls_left w = attempts_left w + 1"

lemma outcome_record_simps [simp]:
  "op_ID (outcome_record oc now r) = op_ID r" "op_PlanID (outcome_record oc now r) = op_PlanID r"
  "op_Attempt (outcome_record oc now r) = op_Attempt r" "attempt_no (outcome_record oc now r) = attempt_no r"
  "op_Status (outcome_record oc now r) = oc_Status oc"
  by (simp_all add: outcome_record_def attempt_no_def)

lemma finish_attempt_Some:
  assumes "finish_attempt inp oc w s = (t, Some w')"
  shows "wk_plan w' = wk_plan w \<and> wk_phase w' = Waiting \<and> attempts_left w' < attempts_left w"
proof -
  obtain code level where c: "outcome_log oc = (code, level)" by fastforce
  obtain u logged where l: "operationLog (wi_log_at inp) (op_ID (wk_record w)) ''backup'' level code (oc_FilesDone oc) (oc_BytesDone oc) s = (u, logged)"
    by fastforce
  define oc' where "oc' = (case logged of Inr _ \<Rightarrow> oc
                 | Inl _ \<Rightarrow> oc\<lparr>oc_Status := ''FAILED'', oc_ErrorCode := ''STATE_STORAGE_UNAVAILABLE''\<rparr>)"
  define r where "r = outcome_record oc' (wi_finish_at inp) (wk_record w)"
  obtain v x where f: "finishWithRetry (wi_retry_at inp) (wi_start_at inp) (wi_new_id inp) (wk_plan w) r (wk_deadline w)
      (\<not> run_canceled (wi_ctx_done inp) (wk_runs w) u) u = (v, x)"
    by fastforce
  with assms c l obtain n where x: "x = Inr (Some n)"
    and w': "w' = w\<lparr>wk_record := n, wk_deadline := op_Deadline n, wk_runs := wk_runs w @ [op_ID n], wk_phase := Waiting\<rparr>"
    by (auto simp: finish_attempt_def Let_def oc'_def r_def split: sum.splits option.splits)
  from finishWithRetry_cases[OF f] x obtain policy where p: "retry_policy_of (wk_plan w) = Some policy"
    "attempt_no r < Attempts policy" "op_Attempt n = attempt_no r + 1"
    by (auto simp: retries_def retry_of_def)
  have "attempt_no r + 1 \<le> attempt_no n"
    using p(3) by (simp add: attempt_no_def[of n])
  with p w' show ?thesis
    by (auto simp: attempts_left_def r_def)
qed

lemma attempts_left_phase [simp]: "attempts_left (w\<lparr>wk_phase := p\<rparr>) = attempts_left w"
  by (simp add: attempts_left_def split: option.splits)

lemma worker_step_decreases:
  assumes "worker_step inp w s = (t, Some w')"
  shows "wk_plan w' = wk_plan w \<and> steps_left w' < steps_left w \<and> calls_left w' + (if wk_phase w = Executing then 1 else 0) \<le> calls_left w"
proof (cases "wk_phase w = Executing \<or> wk_phase w = Unlogged")
  case True
  then obtain oc where "finish_attempt inp oc w s = (t, Some w')"
    using assms by (auto simp: worker_step_def)
  from finish_attempt_Some[OF this] True show ?thesis
    by (auto simp: steps_left_def calls_left_def)
next
  case False
  with assms show ?thesis
    by (auto simp: worker_step_def steps_left_def calls_left_def begin_attempt_def wake_attempt_def
        split: phase.splits prod.splits sum.splits if_splits)
qed

lemma steps_left_pos: "0 < steps_left w"
  by (simp add: steps_left_def split: phase.splits)

lemma run_worker_ends: "steps_left w \<le> length xs \<Longrightarrow> run_worker xs w = None"
proof (induction xs w rule: run_worker.induct)
  case (1 w)
  with steps_left_pos[of w] show ?case by simp
next
  case (2 inp s rest w)
  show ?case
  proof (cases "worker_step inp w s")
    case (Pair t w')
    show ?thesis
    proof (cases w')
      case (Some v)
      from Pair Some have "steps_left v < steps_left w" by (simp add: worker_step_decreases)
      with 2 Pair Some show ?thesis by simp
    qed (simp add: Pair)
  qed
qed

lemma executions_bounded: "executions xs w \<le> calls_left w"
proof (induction xs w rule: executions.induct)
  case (2 inp s rest w)
  show ?case
  proof (cases "worker_step inp w s")
    case (Pair t w')
    show ?thesis
    proof (cases w')
      case None
      with Pair show ?thesis by (simp add: calls_left_def)
    next
      case (Some v)
      from Pair Some have "calls_left v + (if wk_phase w = Executing then 1 else 0) \<le> calls_left w"
        by (simp add: worker_step_decreases)
      with 2 Pair Some show ?thesis by simp
    qed
  qed
qed simp

section \<open>A concrete run, for the witnesses\<close>

definition demo_retry_plan :: plan_schedule where
  "demo_retry_plan = demo_plan\<lparr>ps_Execution := Some \<lparr>RetryPolicy = Some \<lparr>InitialBackoffSeconds = 30, MaxAttempts = 3, MaxBackoffSeconds = 60\<rparr>,
     ResourceLimits = None, PreHookIDs = [], PostHookIDs = []\<rparr>\<rparr>"

definition demo_failed :: operation_record where
  "demo_failed = (slot_record demo_retry_plan 5 120000000000)\<lparr>op_Status := ''FAILED'', op_ErrorCode := ''GATEWAY_BUSY''\<rparr>"

definition demo_worker :: worker where
  "demo_worker = \<lparr>wk_plan = demo_retry_plan, wk_record = demo_failed\<lparr>op_Status := ''RUNNING''\<rparr>, wk_deadline = day,
     wk_runs = [5], wk_phase = Starting\<rparr>"

definition demo_input :: worker_input where
  "demo_input = \<lparr>wi_log_at = 1, wi_finish_at = 1, wi_retry_at = 1, wi_start_at = 1, wi_new_id = Some 6, wi_ctx_done = False,
     wi_timer = True, wi_outcome = unlogged_outcome\<lparr>oc_ErrorCode := ''GATEWAY_BUSY''\<rparr>\<rparr>"

lemma demo_due: "due demo_env demo_plan 120000000000 (demo_clock\<lparr>planID := ps_PlanID demo_plan\<rparr>) demo_runtime demo_active"
  by (simp add: due_def demo_plan_spec demo_clock_id) (simp add: demo_active_def demo_agent_def demo_runtime_def bget_def demo_env_def OperationID_def demo_plan_def)

section \<open>Properties\<close>

text \<open>C26: A due slot is taken in one step: its record and the runtime that has moved past the present instant are stored
  together, or neither is. The record is MISSED when the grace is over and the wake-up was not an ordinary one,
  CONCURRENCY_SKIPPED when the plan forbids a second run, and RUNNING otherwise; a goroutine is started exactly
  for a stored RUNNING record.\<close>

theorem due_slot_commits:
  assumes "due env plan now clock rt s" and "advancePlan env plan now runningByPlan s = (t, w, x)"
  shows "(same_store s t \<and> w = None \<and> x \<noteq> Inr ()) \<or>
    (x = Inr () \<and> (\<exists>r rt'. operations t = bput (operations s) (OperationID (new_sha1 env) (ps_PlanID plan) (rt_NextRunAt rt)) (Valid r) \<and>
       op_Status r = slot_status plan now runningByPlan (rt_NextRunAt rt) s \<and> op_ScheduledAt r = rt_NextRunAt rt \<and>
       plan_runtimes t = bput (plan_runtimes s) (ps_PlanID plan) (Valid rt') \<and>
       rt_LastScheduledAt rt' = rt_NextRunAt rt \<and> (rt_NextRunAt rt' = 0 \<or> now < rt_NextRunAt rt') \<and>
       (w \<noteq> None \<longleftrightarrow> op_Status r = ''RUNNING'')))"
proof -
  let ?rt = "advanced_runtime env plan clock now rt"
  have n: "New (load_location env) (ps_PlanID plan) (plan_spec plan) = Inr clock"
    and o: "bget (operations s) (OperationID (new_sha1 env) (ps_PlanID plan) (rt_NextRunAt rt)) = None"
    using assms(1) by (simp_all add: due_def)
  have a: "rt_PlanID ?rt = ps_PlanID plan" "rt_LastScheduledAt ?rt = rt_NextRunAt rt"
    "rt_NextRunAt ?rt = 0 \<or> now < rt_NextRunAt ?rt"
    using NextRun_after[OF n] by (auto simp: advanced_runtime_def split: option.splits)
  from assms have "run_slot plan now runningByPlan (OperationID (new_sha1 env) (ps_PlanID plan) (rt_NextRunAt rt))
      (rt_NextRunAt rt) ?rt s = (t, w, x)"
    by (simp add: advancePlan_due)
  from run_slot_cases[OF this o] show ?thesis
  proof (elim disjE conjE exE)
    fix j r
    assume "x = Inr ()" "op_ScheduledAt r = rt_NextRunAt rt" "op_Status r = slot_status plan now runningByPlan (rt_NextRunAt rt) s"
      "operations t = bput (operations s) (OperationID (new_sha1 env) (ps_PlanID plan) (rt_NextRunAt rt)) (Valid r)"
      "(w \<noteq> None) = is_running r" "plan_runtimes t = bput (plan_runtimes s) (rt_PlanID ?rt) (Valid (?rt\<lparr>rt_LastOperationID := j\<rparr>))"
    with a show ?thesis
      by (intro disjI2[of "x = Inr () \<and> _"] conjI exI[of _ r] exI[of _ "?rt\<lparr>rt_LastOperationID := j\<rparr>"]) (simp_all add: is_running_def)
  qed simp
qed

theorem due_slot_commits_witness:
  "\<exists>t w. advancePlan demo_env demo_plan 120000000000 [] demo_active = (t, Some w, Inr ()) \<and>
     (\<exists>r. bget (operations t) 5 = Some (Valid r) \<and> op_Status r = ''RUNNING'' \<and> op_ScheduledAt r = 120000000000)"
proof -
  obtain t w x where a: "advancePlan demo_env demo_plan 120000000000 [] demo_active = (t, w, x)"
    by (cases "advancePlan demo_env demo_plan 120000000000 [] demo_active") auto
  have st: "slot_status demo_plan 120000000000 [] (rt_NextRunAt demo_runtime) demo_active = ''RUNNING''"
    by (simp add: slot_status_def DecideMisfire_def demo_runtime_def ConcurrencySkip_def)
  have ok: "x = Inr ()"
    using a advancePlan_due[OF demo_due, of "[]"]
    by (auto simp: run_slot_def no_worker_def start_worker_def PutOperationWithRuntime_def db_update_def Let_def advanced_runtime_def
        slot_record_def demo_plan_id uuid_nil_def demo_active_def demo_agent_def split: if_splits)
  have b: "bsorted (operations demo_active)"
    by (simp add: demo_active_def demo_agent_def bsorted_def)
  have i: "OperationID (new_sha1 demo_env) (ps_PlanID demo_plan) (rt_NextRunAt demo_runtime) = 5" "rt_NextRunAt demo_runtime = 120000000000"
    by (simp_all add: OperationID_def demo_env_def demo_runtime_def)
  from due_slot_commits[OF demo_due a] ok st i obtain r where r: "operations t = bput (operations demo_active) 5 (Valid r)"
    "op_Status r = ''RUNNING''" "op_ScheduledAt r = 120000000000" "w \<noteq> None"
    by auto
  then have "bget (operations t) 5 = Some (Valid r)"
    using b by (simp add: bucket_simps)
  with r ok a show ?thesis by auto
qed

text \<open>C27: Closing an attempt stores its result, and a next attempt with it exactly when the attempt failed for a
  retryable reason, attempts are left, the plan is still the active one, the run was not canceled and the delay ends before
  the deadline and before the next run of the plan. The next attempt names its parent and the first attempt, has the next
  number and starts before its deadline; a failed write stores neither.\<close>

theorem retry_chain:
  assumes "finishWithRetry retry_now start_now (Some i) plan r deadline allowRetry s = (t, x)"
  shows "case x of
      Inl e \<Rightarrow> operations t = operations s
    | Inr n \<Rightarrow> (n \<noteq> None \<longleftrightarrow> allowRetry \<and> retries retry_now plan r deadline s) \<and>
        (case n of
           None \<Rightarrow> operations t = bput (operations s) (op_ID r) (Valid r)
         | Some n \<Rightarrow> op_ID n = i \<and> retry_of plan r deadline n \<and>
             operations t = bput (bput (operations s) (op_ID r) (Valid r)) i (Valid n))"
proof (cases x)
  case (Inl e)
  with finishWithRetry_cases[OF assms] show ?thesis by simp
next
  case (Inr n)
  have "n \<noteq> None \<longleftrightarrow> allowRetry \<and> retries retry_now plan r deadline s"
    using assms Inr by (auto simp: finishWithRetry_def Let_def plan_retry_iff dest!: db_update_Inr split: if_splits)
  with finishWithRetry_cases[OF assms] Inr show ?thesis
    by (cases n) auto
qed

theorem retry_chain_witness:
  "\<exists>t n. finishWithRetry 1000 1001 (Some 6) demo_retry_plan demo_failed day True
       (demo_active\<lparr>desired_active := Some (Valid (demo_state [demo_retry_plan]))\<rparr>) = (t, Inr (Some n)) \<and>
     op_Attempt n = 2 \<and> op_ParentOperationID n = 5 \<and> op_RetryAt n < op_Deadline n \<and> op_Deadline n = 120000000000"
proof -
  define s where "s = demo_active\<lparr>desired_active := Some (Valid (demo_state [demo_retry_plan]))\<rparr>"
  have bk: "seconds (Backoff \<lparr>InitialBackoffSeconds = 30, MaxAttempts = 3, MaxBackoffSeconds = 60\<rparr> 1) = 30000000000"
  proof -
    have "backoff_loop 1 1 30 60 = 30" by (subst backoff_loop.simps) simp
    then show ?thesis by (simp add: Backoff_def initial_backoff_def max_backoff_def seconds_def wrap64_def Let_def)
  qed
  have dl: "retry_deadline demo_retry_plan day s = 120000000000"
    by (simp add: s_def retry_deadline_def demo_retry_plan_def demo_active_def demo_runtime_def bget_def day_def is_zero_def)
  have rp: "retries 1000 demo_retry_plan demo_failed day s"
    using bk dl by (simp add: s_def retries_def demo_failed_def RetryableBackupError_def retry_policy_of_def attempt_no_def Attempts_def
        demo_state_def same_plan_def demo_retry_plan_def)
  have fl: "faults s = []"
    by (simp add: s_def demo_active_def demo_agent_def)
  obtain t x where f: "finishWithRetry 1000 1001 (Some 6) demo_retry_plan demo_failed day True s = (t, x)"
    by fastforce
  have x: "x = Inr (Some (next_attempt demo_failed 6 (1000 + seconds (Backoff (the (retry_policy_of demo_retry_plan)) (attempt_no demo_failed)))
      1001 (retry_deadline demo_retry_plan day s)))"
    using f rp fl by (auto simp: finishWithRetry_def db_update_def Let_def plan_retry_iff)
  from retry_chain[OF f] x f dl show ?thesis
    unfolding s_def[symmetric] by (auto simp: retry_of_def next_attempt_def demo_failed_def attempt_no_def)
qed

text \<open>C28: The goroutine of an operation ends: whatever the Agent does between its steps and whatever the executor returns,
  it takes at most three steps for each attempt that is left and two more, and calls the executor at most once
  more than attempts are left.\<close>

theorem worker_ends:
  assumes "wk_phase w = Starting" and "3 * attempts_left w + 2 \<le> length xs"
  shows "run_worker xs w = None \<and> executions xs w \<le> attempts_left w + 1"
  using assms run_worker_ends[of w xs] executions_bounded[of xs w] by (simp add: steps_left_def calls_left_def)

theorem worker_ends_witness:
  "attempts_left demo_worker = 2 \<and> run_worker (replicate 8 (demo_input, demo_active)) demo_worker = None \<and>
   executions (replicate 8 (demo_input, demo_active)) demo_worker \<le> 3"
proof -
  have a: "wk_phase demo_worker = Starting" "attempts_left demo_worker = 2"
    by (simp_all add: demo_worker_def attempts_left_def retry_policy_of_def demo_retry_plan_def Attempts_def attempt_no_def demo_failed_def)
  define xs where "xs = replicate 8 (demo_input, demo_active)"
  have l: "3 * attempts_left demo_worker + 2 \<le> length xs"
    by (simp add: xs_def a)
  from worker_ends[OF a(1) l] a(2) show ?thesis
    unfolding xs_def[symmetric] by simp
qed

end
