(* ===== verification/Agent_Backup.thy ===== *)
theory Agent_Backup
  imports Restic_Output Agent_Scheduler
begin

text \<open>
  Running one backup (\<open>internal/agent/backup.go\<close>, the argument vector and the process result of
  \<open>internal/agent/restic/restic_linux.go\<close>, the hooks of \<open>internal/agent/hooks_linux.go\<close>). What the operating system decides is
  a \<open>backup_input\<close>: which temporary files could be made, what the hooks and Restic did, the rounds of the Gateway session and the
  state of the context at the points where the code asks for it.
\<close>

section \<open>Model\<close>

subsection \<open>Hooks\<close>

record file_info =
  fi_regular :: bool
  fi_dir :: bool
  fi_perm :: nat
  fi_setid :: bool
  fi_sticky :: bool
  fi_uid :: nat

text \<open>The file system as the code sees it: \<open>os.Lstat\<close>, \<open>filepath.EvalSymlinks\<close> and the effective user.\<close>

record file_system =
  fs_lstat :: "string \<Rightarrow> file_info option"
  fs_resolve :: "string \<Rightarrow> string option"
  fs_euid :: nat

text \<open>\<open>perm & mask != 0\<close> for the two masks used.\<close>

definition perm_executable :: "nat \<Rightarrow> bool" where
  "perm_executable p \<longleftrightarrow> odd (p div 64) \<or> odd (p div 8) \<or> odd p"

definition perm_writable :: "nat \<Rightarrow> bool" where
  "perm_writable p \<longleftrightarrow> odd (p div 16) \<or> odd (p div 2)"

definition trusted_owner :: "file_system \<Rightarrow> file_info \<Rightarrow> bool" where
  "trusted_owner fs i \<longleftrightarrow> fi_uid i = 0 \<or> fi_uid i = fs_euid fs"

text \<open>\<open>filepath.Dir\<close>.\<close>

definition path_dir :: "string \<Rightarrow> string" where
  "path_dir p = path_clean (rev (dropWhile (\<lambda>c. c \<noteq> CHR ''/'') (rev p)))"

text \<open>The walk up to the root; the bound is the length of the path, which is enough for a cleaned one.\<close>

fun safe_parents :: "file_system \<Rightarrow> nat \<Rightarrow> string \<Rightarrow> bool" where
  "safe_parents fs 0 d = False"
| "safe_parents fs (Suc n) d =
     (case fs_lstat fs d of
        None \<Rightarrow> False
      | Some i \<Rightarrow>
          if \<not> fi_dir i \<or> \<not> trusted_owner fs i then False
          else if perm_writable (fi_perm i) \<and> \<not> (fi_uid i = 0 \<and> fi_sticky i) then False
          else if d = path_dir d then True
          else safe_parents fs n (path_dir d))"

definition safeHookExecutable :: "file_system \<Rightarrow> string \<Rightarrow> bool" where
  "safeHookExecutable fs path =
     (if \<not> is_abs path \<or> path_clean path \<noteq> path then False
      else if fs_resolve fs path \<noteq> Some path then False
      else case fs_lstat fs path of
        None \<Rightarrow> False
      | Some i \<Rightarrow>
          if \<not> fi_regular i \<or> \<not> perm_executable (fi_perm i) \<or> perm_writable (fi_perm i) \<or> fi_setid i then False
          else if \<not> trusted_owner fs i then False
          else safe_parents fs (length path + 1) (path_dir path))"

record local_hook =
  lh_ID :: uuid
  lh_Executable :: string
  lh_Args :: "string list"
  lh_TimeoutSeconds :: int

definition valid_hook :: "file_system \<Rightarrow> local_hook \<Rightarrow> bool" where
  "valid_hook fs h \<longleftrightarrow> uuid_v7 (lh_ID h) \<and> 1 \<le> lh_TimeoutSeconds h \<and> lh_TimeoutSeconds h \<le> 3600 \<and> length (lh_Args h) \<le> 64 \<and>
     safeHookExecutable fs (lh_Executable h)"

fun load_hooks :: "file_system \<Rightarrow> local_hook list \<Rightarrow> (uuid \<times> local_hook) list \<Rightarrow> (uuid \<times> local_hook) list option" where
  "load_hooks fs [] hooks = Some hooks"
| "load_hooks fs (h # hs) hooks =
     (if \<not> valid_hook fs h then None
      else if bget hooks (lh_ID h) \<noteq> None then None
      else if list_ex (\<lambda>arg. length arg > 4096 \<or> has_control arg) (lh_Args h) then None
      else load_hooks fs hs (bput hooks (lh_ID h) h))"

text \<open>The decoded allowlist: its version and hooks. \<open>None\<close> stands for no file name, \<open>Malformed\<close> for a file that is refused or does not decode.\<close>

definition LoadHooks :: "file_system \<Rightarrow> (int \<times> local_hook list) cell option \<Rightarrow> (uuid \<times> local_hook) list option" where
  "LoadHooks fs path =
     (case path of
        None \<Rightarrow> Some []
      | Some Malformed \<Rightarrow> None
      | Some (Valid (version, hooks)) \<Rightarrow> if version \<noteq> 1 \<or> length hooks > 64 then None else load_hooks fs hooks [])"

text \<open>\<open>runs h\<close> says that the hook's process could be run within its time limit and ended with exit code 0.\<close>

fun runHooks :: "file_system \<Rightarrow> (uuid \<times> local_hook) list \<Rightarrow> (local_hook \<Rightarrow> bool) \<Rightarrow> uuid list \<Rightarrow> bool" where
  "runHooks fs hooks runs [] = True"
| "runHooks fs hooks runs (i # is) =
     (case bget hooks i of
        None \<Rightarrow> False
      | Some h \<Rightarrow>
          if \<not> safeHookExecutable fs (lh_Executable h) then False
          else if \<not> runs h then False
          else runHooks fs hooks runs is)"

subsection \<open>The command line\<close>

record backup_request =
  br_Repository :: string
  br_PasswordFile :: string
  br_HostID :: uuid
  br_PlanID :: uuid
  br_ExcludeCaches :: bool
  br_OneFileSystem :: bool
  br_SkipIfUnchanged :: bool
  br_LimitUploadKiB :: int
  br_LimitDownloadKiB :: int
  br_ReadConcurrency :: int
  br_CacheDirectory :: string
  br_TLSClientCertFile :: string
  br_CACertFile :: string

record prepared_files =
  pf_PathsFile :: string
  pf_ExcludeFile :: string

definition BackupArgs :: "backup_request \<Rightarrow> prepared_files \<Rightarrow> string list option" where
  "BackupArgs r prepared =
     (if br_Repository r = [] \<or> br_PasswordFile r = [] then None
      else if br_HostID r = uuid_nil \<or> br_PlanID r = uuid_nil then None
      else Some ([''backup'', ''--json'', ''--host'', uuid_string (br_HostID r), ''--group-by'', ''tags'',
             ''--tag'', ''restfleet:managed'', ''--tag'', ''restfleet:host:'' @ uuid_string (br_HostID r),
             ''--tag'', ''restfleet:plan:'' @ uuid_string (br_PlanID r), ''--files-from-verbatim'', pf_PathsFile prepared]
           @ (if pf_ExcludeFile prepared \<noteq> [] then [''--exclude-file'', pf_ExcludeFile prepared] else [])
           @ (if br_ExcludeCaches r then [''--exclude-caches''] else [])
           @ (if br_OneFileSystem r then [''--one-file-system''] else [])
           @ (if br_SkipIfUnchanged r then [''--skip-if-unchanged''] else [])
           @ (if br_CacheDirectory r \<noteq> [] then [''--cache-dir'', br_CacheDirectory r] else [])
           @ (if br_LimitUploadKiB r > 0 then [''--limit-upload'', itoa (br_LimitUploadKiB r)] else [])
           @ (if br_LimitDownloadKiB r > 0 then [''--limit-download'', itoa (br_LimitDownloadKiB r)] else [])
           @ (if br_ReadConcurrency r > 0 then [''--read-concurrency'', itoa (br_ReadConcurrency r)] else [])
           @ (if br_TLSClientCertFile r \<noteq> [] then [''--tls-client-cert'', br_TLSClientCertFile r] else [])
           @ (if br_CACertFile r \<noteq> [] then [''--cacert'', br_CACertFile r] else [])))"

definition Env :: "backup_request \<Rightarrow> string list" where
  "Env r = [''RESTIC_REPOSITORY='' @ br_Repository r, ''RESTIC_PASSWORD_FILE='' @ br_PasswordFile r]"

text \<open>\<open>writeLines\<close>: the text of the file, or an error when a value cannot be a line.\<close>

fun writeLines :: "string list \<Rightarrow> string option" where
  "writeLines [] = Some []"
| "writeLines (v # vs) =
     (if list_ex (\<lambda>c. byte c \<in> {0, 13, 10}) v then None
      else map_option (\<lambda>rest. v @ [newline] @ rest) (writeLines vs))"

text \<open>
  \<open>Prepare\<close>: the texts of the paths and of the excludes file, if there is one. \<open>files_ok\<close> says that the directory and the files could be made.
\<close>

definition Prepare :: "bool \<Rightarrow> string list \<Rightarrow> string list \<Rightarrow> (string \<times> string option) option" where
  "Prepare files_ok paths excludes =
     (if ValidateBackupPaths paths excludes \<noteq> None then None
      else if \<not> files_ok then None
      else case writeLines paths of
        None \<Rightarrow> None
      | Some p \<Rightarrow>
          if length excludes > 0 then (case writeLines excludes of None \<Rightarrow> None | Some e \<Rightarrow> Some (p, Some e))
          else Some (p, None))"

subsection \<open>The process\<close>

text \<open>How \<open>Run.Execute\<close> ended: not at all because the context was over, with a failed start, or with the process gone.\<close>

datatype run_end = RunNotStarted | RunStartFailed | RunExited int | RunBroken | RunTerminated int | RunKilled

datatype run_error = NoRunError | ErrCanceled | OtherRunError

definition run_result :: "run_end \<Rightarrow> int \<times> run_error" where
  "run_result e =
     (case e of
        RunNotStarted \<Rightarrow> (- 1, ErrCanceled)
      | RunStartFailed \<Rightarrow> (0, OtherRunError)
      | RunExited code \<Rightarrow> (code, if code = 0 then NoRunError else OtherRunError)
      | RunBroken \<Rightarrow> (- 1, OtherRunError)
      | RunTerminated code \<Rightarrow> (code, ErrCanceled)
      | RunKilled \<Rightarrow> (- 1, ErrCanceled))"

record process =
  pr_stdout :: "string list"
  pr_stderr :: "string list"
  pr_end :: run_end

text \<open>What the process printed: nothing when it never ran.\<close>

definition printed :: "process \<Rightarrow> process" where
  "printed p = (case pr_end p of RunNotStarted \<Rightarrow> p\<lparr>pr_stdout := [], pr_stderr := []\<rparr>
     | RunStartFailed \<Rightarrow> p\<lparr>pr_stdout := [], pr_stderr := []\<rparr> | _ \<Rightarrow> p)"

subsection \<open>Classifying the result\<close>

definition failed_outcome :: "string \<Rightarrow> int \<Rightarrow> operation_outcome" where
  "failed_outcome code exit = unlogged_outcome\<lparr>oc_ErrorCode := code, oc_ExitCode := exit\<rparr>"

definition canceled_outcome :: operation_outcome where
  "canceled_outcome = unlogged_outcome\<lparr>oc_Status := ''CANCELED'', oc_ErrorCode := ''CANCELED''\<rparr>"

definition classify :: "int \<Rightarrow> progress \<Rightarrow> session_error option \<Rightarrow> operation_outcome" where
  "classify exitCode p sessionErr =
     (let oc = \<lparr>oc_Status = [], oc_ExitCode = exitCode, oc_ErrorCode = [], oc_SnapshotID = pg_snapshotID p,
            oc_FilesDone = pg_files p, oc_TotalFiles = pg_totalFiles p, oc_BytesDone = pg_bytes p, oc_TotalBytes = pg_totalBytes p,
            oc_FilesNew = pg_filesNew p, oc_DataAdded = pg_dataAdded p, oc_Summary = pg_summary p\<rparr>;
          failed = (\<lambda>code. oc\<lparr>oc_Status := ''FAILED'', oc_ErrorCode := code\<rparr>)
      in if exitCode = 0 then
           (if \<not> pg_sawSummary p then failed ''INVALID_ENGINE_OUTPUT'' else oc\<lparr>oc_Status := ''SUCCEEDED''\<rparr>)
         else if exitCode = 3 then
           (if \<not> pg_sawSummary p \<or> pg_snapshotID p = [] then failed ''INVALID_ENGINE_OUTPUT''
            else oc\<lparr>oc_Status := ''SUCCEEDED_WITH_WARNINGS'', oc_ErrorCode := ''PARTIAL_READ'',
              oc_Summary := map_option (\<lambda>s. if WarningCount s = 0 then s\<lparr>WarningCount := 1\<rparr> else s) (pg_summary p)\<rparr>)
         else if exitCode = 130 then oc\<lparr>oc_Status := ''CANCELED'', oc_ErrorCode := ''CANCELED''\<rparr>
         else if exitCode = 11 then failed ''REPOSITORY_LOCKED''
         else if exitCode = 12 then failed ''WRONG_REPOSITORY_PASSWORD''
         else if exitCode = 10 then failed ''REPOSITORY_MISSING''
         else if exitCode = 1 then
           (if \<not> pg_sawSummary p \<and> pg_snapshotID p = [] \<and> pg_warnings p = 0 \<and> gatewayFailureCode sessionErr \<noteq> []
            then failed (gatewayFailureCode sessionErr) else failed ''BACKUP_FAILED'')
         else failed ''UNKNOWN_EXIT_CODE'')"

subsection \<open>The executor\<close>

datatype ctx_state = Alive | Canceled | DeadlineExceeded

record backup_input =
  bi_now :: time
  bi_clock :: "nat \<Rightarrow> time"
  bi_hooks :: "(uuid \<times> local_hook) list"
  bi_files :: file_system
  bi_pre_hook :: "local_hook \<Rightarrow> bool"
  bi_post_hook :: "local_hook \<Rightarrow> bool"
  bi_ctx_pre :: ctx_state
  bi_workdir :: bool
  bi_secret_files :: bool
  bi_client_certificate :: bool
  bi_prepared_files :: bool
  bi_cache :: bool
  bi_session_at :: time
  bi_session_ctx :: bool
  bi_rounds :: "round list"
  bi_deletion :: "(int \<times> string list) option"
  bi_process :: "string list \<times> string list \<Rightarrow> process"
  bi_work_alive :: bool
  bi_ctx_end :: ctx_state
  bi_ctx_post :: ctx_state
  bi_ctx_post_failed :: ctx_state

definition run_deadline :: "time \<Rightarrow> plan_schedule \<Rightarrow> time \<Rightarrow> time" where
  "run_deadline now plan deadline =
     (case ps_Execution plan of
        None \<Rightarrow> deadline
      | Some e \<Rightarrow>
          (case ResourceLimits e of
             None \<Rightarrow> deadline
           | Some l \<Rightarrow>
               if MaxDurationSeconds l > 0 \<and> now + seconds (MaxDurationSeconds l) < deadline
               then now + seconds (MaxDurationSeconds l) else deadline))"

definition start_progress :: "(nat \<Rightarrow> time) \<Rightarrow> progress" where
  "start_progress clock = \<lparr>pg_sawSummary = False, pg_snapshotID = [], pg_files = 0, pg_totalFiles = 0, pg_bytes = 0, pg_totalBytes = 0,
     pg_filesNew = 0, pg_dataAdded = 0, pg_lastWrite = 0, pg_lastPercent = float_zero, pg_pendingLine = [], pg_summary = None,
     pg_warnings = 0, pg_errorCode = [], pg_canceled = False, pg_clock = clock, pg_reads = 0\<rparr>"

text \<open>The request of a plan; the files are named without their temporary directory.\<close>

definition backup_request_of :: "plan_schedule \<Rightarrow> string \<Rightarrow> backup_request" where
  "backup_request_of plan repository =
     (let limits = (case ps_Execution plan of None \<Rightarrow> None | Some e \<Rightarrow> ResourceLimits e)
      in \<lparr>br_Repository = repository, br_PasswordFile = ''restic-password'', br_HostID = ps_HostID plan, br_PlanID = ps_PlanID plan,
          br_ExcludeCaches = ps_ExcludeCaches plan, br_OneFileSystem = ps_OneFileSystem plan, br_SkipIfUnchanged = True,
          br_LimitUploadKiB = (case limits of None \<Rightarrow> 0 | Some l \<Rightarrow> LimitUploadKiB l),
          br_LimitDownloadKiB = (case limits of None \<Rightarrow> 0 | Some l \<Rightarrow> LimitDownloadKiB l),
          br_ReadConcurrency = (case limits of None \<Rightarrow> 0 | Some l \<Rightarrow> ReadConcurrency l),
          br_CacheDirectory = ''cache'', br_TLSClientCertFile = ''client.pem'', br_CACertFile = ''gateway-ca.pem''\<rparr>)"

text \<open>The sinks after the process: the progress with the merged warnings, the state, and the warnings of the error stream.\<close>

definition run_sinks ::
    "(string \<Rightarrow> line_json) \<Rightarrow> uuid \<Rightarrow> (nat \<Rightarrow> time) \<Rightarrow> process \<Rightarrow> agent \<Rightarrow> progress \<times> agent" where
  "run_sinks decode operation clock proc s =
     (let warnings = ws_count (warning_finish decode (foldl (\<lambda>w chunk. warning_write decode chunk w)
              \<lparr>ws_pending = [], ws_count = 0, ws_discarding = False\<rparr> (pr_stderr proc)));
          ps = progress_finish decode operation
                 (foldl (\<lambda>ps chunk. progress_write decode operation chunk ps) (start_progress clock, s) (pr_stdout proc));
          total = pg_warnings (fst ps) + warnings;
          p = (fst ps)\<lparr>pg_warnings := total, pg_summary := map_option (\<lambda>x. x\<lparr>WarningCount := total\<rparr>) (pg_summary (fst ps))\<rparr>
      in if warnings > 0 then progress_log operation ''WARN'' ''ENGINE_READ_ERROR'' (p, snd ps) else (p, snd ps))"

text \<open>From the session on: the outcome of the run.\<close>

definition session_outcome ::
    "session_error option \<Rightarrow> bool \<Rightarrow> ctx_state \<Rightarrow> int \<Rightarrow> run_error \<Rightarrow> progress \<Rightarrow> operation_outcome" where
  "session_outcome sessionErr started ctx exit runErr p =
     (if sessionErr = Some ErrGatewayCleanup then failed_outcome ''GATEWAY_CLEANUP_UNCONFIRMED'' exit
      else if sessionErr = Some ErrGatewayBusy then failed_outcome ''GATEWAY_BUSY'' exit
      else if pg_errorCode p \<noteq> [] then failed_outcome (pg_errorCode p) exit
      else if ctx = DeadlineExceeded then failed_outcome ''BACKUP_TIMED_OUT'' exit
      else if ctx \<noteq> Alive \<or> runErr = ErrCanceled \<or> sessionErr = Some ContextCanceled then
        canceled_outcome\<lparr>oc_ExitCode := exit, oc_FilesDone := pg_files p, oc_TotalFiles := pg_totalFiles p, oc_BytesDone := pg_bytes p,
          oc_TotalBytes := pg_totalBytes p, oc_FilesNew := pg_filesNew p, oc_DataAdded := pg_dataAdded p\<rparr>
      else if \<not> started \<and> gatewayFailureCode sessionErr \<noteq> [] then failed_outcome (gatewayFailureCode sessionErr) 0
      else if sessionErr \<noteq> None \<and> runErr = NoRunError then failed_outcome ''GATEWAY_SESSION_FAILED'' 0
      else classify exit p sessionErr)"

text \<open>
  The callback of the session: the arguments and the environment Restic is started with for an endpoint, the session itself, the process
  if Restic was started and what the sinks get to see. What Restic does may depend on its arguments and environment: \<open>bi_process\<close> is a
  function of them.
\<close>

definition run_command :: "plan_schedule \<Rightarrow> string option \<Rightarrow> string \<Rightarrow> (string list \<times> string list) option" where
  "run_command plan excludes e =
     (let request = backup_request_of plan (''rest:'' @ e)
      in case BackupArgs request \<lparr>pf_PathsFile = ''paths'', pf_ExcludeFile = (if excludes = None then [] else ''excludes'')\<rparr> of
           None \<Rightarrow> None
         | Some args \<Rightarrow> Some (args, Env request))"

definition session_of ::
    "crypto \<Rightarrow> vault \<Rightarrow> backup_input \<Rightarrow> plan_schedule \<Rightarrow> uuid \<Rightarrow> time \<Rightarrow> string option \<Rightarrow> (session_error option \<times> string option) option" where
  "session_of co v inp plan operation deadline excludes =
     WithGatewaySession co v operation (bi_session_at inp) deadline (bi_session_ctx inp)
       (\<lambda>e. case run_command plan excludes e of
          None \<Rightarrow> False
        | Some cmd \<Rightarrow> snd (run_result (pr_end (bi_process inp cmd))) = NoRunError \<and> bi_work_alive inp)
       (bi_rounds inp) (bi_deletion inp)"

definition lent_process :: "backup_input \<Rightarrow> plan_schedule \<Rightarrow> string option \<Rightarrow> string option \<Rightarrow> process option" where
  "lent_process inp plan excludes lent = (case lent of None \<Rightarrow> None | Some e \<Rightarrow> map_option (bi_process inp) (run_command plan excludes e))"

definition ran :: "process option \<Rightarrow> process" where
  "ran proc = (case proc of Some pr \<Rightarrow> printed pr | None \<Rightarrow> \<lparr>pr_stdout = [], pr_stderr = [], pr_end = RunExited 0\<rparr>)"

definition ran_result :: "process option \<Rightarrow> int \<times> run_error" where
  "ran_result proc = (case proc of Some pr \<Rightarrow> run_result (pr_end pr) | None \<Rightarrow> (0, NoRunError))"

text \<open>The body of \<open>Execute\<close> after the hooks before the run; \<open>None\<close> while the session goes on.\<close>

definition execute_run ::
    "(string \<Rightarrow> line_json) \<Rightarrow> crypto \<Rightarrow> vault \<Rightarrow> backup_input \<Rightarrow> plan_schedule \<Rightarrow> uuid \<Rightarrow> time \<Rightarrow> agent
     \<Rightarrow> (agent \<times> operation_outcome) option" where
  "execute_run decode co v inp plan operation deadline s =
     (case LoadIdentity v of
        None \<Rightarrow> Some (s, failed_outcome ''IDENTITY_UNAVAILABLE'' 0)
      | Some i \<Rightarrow>
          if (case LoadRepositoryCredential co i v of Inr (Some _) \<Rightarrow> False | _ \<Rightarrow> True)
          then Some (s, failed_outcome ''CREDENTIAL_UNAVAILABLE'' 0)
          else if \<not> bi_workdir inp \<or> \<not> bi_secret_files inp then Some (s, failed_outcome ''WORKDIR_UNAVAILABLE'' 0)
          else if \<not> bi_client_certificate inp then Some (s, failed_outcome ''IDENTITY_UNAVAILABLE'' 0)
          else (case Prepare (bi_prepared_files inp) (slice (ps_Paths plan)) (slice (ps_ExcludePatterns plan)) of
             None \<Rightarrow> Some (s, failed_outcome ''CONFIG_INVALID'' 0)
           | Some (paths, excludes) \<Rightarrow>
               if \<not> bi_cache inp then Some (s, failed_outcome ''WORKDIR_UNAVAILABLE'' 0)
               else
                 (case session_of co v inp plan operation deadline excludes of
                    None \<Rightarrow> None
                  | Some (sessionErr, lent) \<Rightarrow>
                      (case run_sinks decode operation (bi_clock inp) (ran (lent_process inp plan excludes lent)) s of
                         (p, t) \<Rightarrow> Some (t, session_outcome sessionErr (lent_process inp plan excludes lent \<noteq> None) (bi_ctx_end inp)
                           (fst (ran_result (lent_process inp plan excludes lent)))
                           (snd (ran_result (lent_process inp plan excludes lent))) p)))))"

text \<open>The outcome when a hook after the run failed in a live context.\<close>

definition warned :: "operation_outcome \<Rightarrow> operation_outcome" where
  "warned outcome = (if oc_Status outcome = ''SUCCEEDED''
       then outcome\<lparr>oc_Status := ''SUCCEEDED_WITH_WARNINGS'', oc_ErrorCode := ''POST_HOOK_FAILED''\<rparr> else outcome)
     \<lparr>oc_Summary := map_option (\<lambda>x. x\<lparr>WarningCount := WarningCount x + 1\<rparr>) (oc_Summary outcome)\<rparr>"

text \<open>The hooks after the run, with what they make of the outcome.\<close>

definition post_hooks :: "backup_input \<Rightarrow> uuid list \<Rightarrow> uuid \<Rightarrow> agent \<times> operation_outcome \<Rightarrow> agent \<times> operation_outcome" where
  "post_hooks inp ids operation so =
     (case so of (s, outcome) \<Rightarrow>
      if bi_ctx_post inp \<noteq> Alive \<or> ids = [] then so
      else
        (case operationLog (bi_clock inp 2) operation ''post_hook'' ''INFO'' ''HOOK_STARTED'' 0 0 s of
           (t, Inl _) \<Rightarrow> (t, outcome\<lparr>oc_Status := ''FAILED'', oc_ErrorCode := ''STATE_STORAGE_UNAVAILABLE''\<rparr>)
         | (t, Inr _) \<Rightarrow>
             (let ok = runHooks (bi_files inp) (bi_hooks inp) (bi_post_hook inp) ids
              in if \<not> ok \<and> bi_ctx_post_failed inp = DeadlineExceeded
                 then (t, outcome\<lparr>oc_Status := ''FAILED'', oc_ErrorCode := ''BACKUP_TIMED_OUT''\<rparr>)
                 else if \<not> ok \<and> bi_ctx_post_failed inp \<noteq> Alive
                 then (t, outcome\<lparr>oc_Status := ''CANCELED'', oc_ErrorCode := ''CANCELED''\<rparr>)
                 else
                   (let outcome' = (if ok then outcome else warned outcome)
                    in case operationLog (bi_clock inp 3) operation ''post_hook'' (if ok then ''INFO'' else ''WARN'')
                              (if ok then ''HOOK_FINISHED'' else ''POST_HOOK_FAILED'') 0 0 t of
                         (u, Inl _) \<Rightarrow> (u, outcome'\<lparr>oc_Status := ''FAILED'', oc_ErrorCode := ''STATE_STORAGE_UNAVAILABLE''\<rparr>)
                       | (u, Inr _) \<Rightarrow> (u, outcome')))))"

definition hook_failure :: "ctx_state \<Rightarrow> operation_outcome" where
  "hook_failure ctx =
     (if ctx = DeadlineExceeded then failed_outcome ''BACKUP_TIMED_OUT'' 0
      else if ctx \<noteq> Alive then canceled_outcome
      else failed_outcome ''PRE_HOOK_FAILED'' 0)"

text \<open>A log entry of the hooks before the run, only written when there are any.\<close>

definition pre_hook_log :: "uuid list \<Rightarrow> time \<Rightarrow> uuid \<Rightarrow> string \<Rightarrow> agent \<Rightarrow> agent \<times> (store_error + unit)" where
  "pre_hook_log ids now operation code s =
     (if ids = [] then (s, Inr ()) else operationLog now operation ''pre_hook'' ''INFO'' code 0 0 s)"

definition Execute ::
    "(string \<Rightarrow> line_json) \<Rightarrow> crypto \<Rightarrow> vault \<Rightarrow> backup_input \<Rightarrow> plan_schedule \<Rightarrow> uuid \<Rightarrow> time \<Rightarrow> agent
     \<Rightarrow> (agent \<times> operation_outcome) option" where
  "Execute decode co v inp plan operation deadline0 s =
     (let deadline = run_deadline (bi_now inp) plan deadline0
      in case ps_Execution plan of
           None \<Rightarrow> execute_run decode co v inp plan operation deadline s
         | Some e \<Rightarrow>
             (case pre_hook_log (PreHookIDs e) (bi_clock inp 0) operation ''HOOK_STARTED'' s of
                (t, Inl _) \<Rightarrow> Some (t, failed_outcome ''STATE_STORAGE_UNAVAILABLE'' 0)
              | (t, Inr _) \<Rightarrow>
                  if \<not> runHooks (bi_files inp) (bi_hooks inp) (bi_pre_hook inp) (PreHookIDs e) then Some (t, hook_failure (bi_ctx_pre inp))
                  else (case pre_hook_log (PreHookIDs e) (bi_clock inp 1) operation ''HOOK_FINISHED'' t of
                     (u, Inl _) \<Rightarrow> Some (u, failed_outcome ''STATE_STORAGE_UNAVAILABLE'' 0)
                   | (u, Inr _) \<Rightarrow>
                       map_option (post_hooks inp (PostHookIDs e) operation) (execute_run decode co v inp plan operation deadline u))))"

section \<open>What the sinks guarantee\<close>

lemma list_ex_negative: "\<not> list_ex negative xs \<Longrightarrow> x \<in> set xs \<Longrightarrow> 0 \<le> or_zero x"
  by (cases x) (auto simp: list_ex_iff negative_def or_zero_def)

lemma ParseEvent_counters:
  assumes "ParseEvent decode raw = Inr (Some ev)"
  shows "0 \<le> ev_FilesDone ev \<and> 0 \<le> ev_BytesDone ev"
proof -
  obtain w line where w: "lj_wire (decode line) = Valid w"
    "\<not> list_ex negative [we_FilesDone w, we_TotalFiles w, we_BytesDone w, we_TotalBytes w, we_FilesNew w, we_DataAdded w,
        we_FilesProcessed w, we_BytesProcessed w]"
    and e: "ev = status_event w \<or> summary_event w (lj_summary (decode line)) = Inr ev \<or> ev = no_event\<lparr>ev_Type := ''error'', ev_Message := we_Message w\<rparr>"
    using assms by (auto simp: ParseEvent_def Let_def split: cell.splits if_splits option.splits sum.splits)
  note nonneg = list_ex_negative[OF w(2)]
  from e show ?thesis
  proof (elim disjE)
    assume "ev = status_event w"
    with nonneg show ?thesis by (simp add: status_event_def no_event_def)
  next
    assume "summary_event w (lj_summary (decode line)) = Inr ev"
    with nonneg[of "we_FilesProcessed w"] nonneg[of "we_BytesProcessed w"] show ?thesis
      by (auto simp: summary_event_def or_zero_def split: option.splits cell.splits if_splits)
  next
    assume "ev = no_event\<lparr>ev_Type := ''error'', ev_Message := we_Message w\<rparr>"
    then show ?thesis by (simp add: no_event_def)
  qed
qed

definition progress_ok :: "progress \<Rightarrow> bool" where
  "progress_ok p \<longleftrightarrow> 0 \<le> pg_files p \<and> 0 \<le> pg_bytes p \<and>
     (pg_errorCode p = [] \<or> pg_errorCode p = ''INVALID_ENGINE_OUTPUT'' \<or> pg_errorCode p = ''STATE_STORAGE_UNAVAILABLE'')"

lemma progress_ok_fail:
  "progress_ok p \<Longrightarrow> code = ''INVALID_ENGINE_OUTPUT'' \<or> code = ''STATE_STORAGE_UNAVAILABLE'' \<Longrightarrow> progress_ok (progress_fail code p)"
  by (auto simp: progress_ok_def progress_fail_def)

lemma progress_ok_log: "progress_ok (fst ps) \<Longrightarrow> progress_ok (fst (progress_log operation level code ps))"
  by (auto simp: progress_log_def read_clock_def progress_ok_def progress_fail_def split: prod.splits sum.splits)

lemma progress_ok_persist: "progress_ok (fst ps) \<Longrightarrow> progress_ok (fst (progress_persist operation ps))"
  by (auto simp: progress_persist_def progress_ok_fail progress_ok_log split: prod.splits sum.splits)

lemma progress_ok_consume:
  assumes "progress_ok (fst ps)"
  shows "progress_ok (fst (progress_consume decode operation line ps))"
proof (cases "ParseEvent decode line")
  case (Inl e)
  with assms show ?thesis by (simp add: progress_consume_def progress_ok_fail)
next
  case (Inr x)
  show ?thesis
  proof (cases x)
    case None
    with assms Inr show ?thesis by (simp add: progress_consume_def)
  next
    case (Some ev)
    with Inr ParseEvent_counters[of decode line ev] have n: "0 \<le> ev_FilesDone ev" "0 \<le> ev_BytesDone ev" by auto
    have "progress_ok (fst (consume_status operation ev ps))"
      using assms n unfolding consume_status_def read_clock_def
      by (auto simp: progress_ok_def intro!: progress_ok_persist[unfolded progress_ok_def])
    moreover have "progress_ok (fst (consume_summary operation ev ps))"
    proof (cases "pg_sawSummary (fst ps)")
      case True
      with assms show ?thesis by (simp add: consume_summary_def progress_ok_fail)
    next
      case False
      then show ?thesis
        unfolding consume_summary_def Let_def
        by (simp only: if_False, intro progress_ok_log progress_ok_persist) (use assms n in \<open>simp add: progress_ok_def\<close>)
    qed
    moreover have "progress_ok (fst (progress_log operation ''WARN'' ''ENGINE_READ_ERROR'' ((fst ps)\<lparr>pg_warnings := pg_warnings (fst ps) + 1\<rparr>, snd ps)))"
      using assms by (intro progress_ok_log) (simp add: progress_ok_def)
    ultimately show ?thesis
      using assms Inr Some by (simp add: progress_consume_def)
  qed
qed

lemma progress_ok_byte:
  assumes "progress_ok (fst ps)"
  shows "progress_ok (fst (progress_byte decode operation ps c))"
proof -
  have "progress_ok (p\<lparr>pg_pendingLine := x\<rparr>) = progress_ok p" for p x
    by (simp add: progress_ok_def)
  with assms progress_ok_consume[OF assms] show ?thesis
    by (simp add: progress_byte_def progress_ok_fail Let_def)
qed

lemma progress_ok_bytes: "progress_ok (fst ps) \<Longrightarrow> progress_ok (fst (foldl (progress_byte decode operation) ps s))"
  by (induction s arbitrary: ps) (simp_all add: progress_ok_byte)

lemma progress_ok_pending [simp]: "progress_ok (p\<lparr>pg_pendingLine := x\<rparr>) = progress_ok p"
  by (simp add: progress_ok_def)

lemma progress_ok_finish: "progress_ok (fst ps) \<Longrightarrow> progress_ok (fst (progress_finish decode operation ps))"
  by (simp add: progress_finish_def Let_def progress_ok_consume)

lemma run_sinks_ok: "progress_ok (fst (run_sinks decode operation clock proc s))"
proof -
  have "progress_ok (fst (foldl (\<lambda>ps chunk. progress_write decode operation chunk ps) (start_progress clock, s) (pr_stdout proc)))"
    unfolding progress_write_bytes foldl_concat by (rule progress_ok_bytes) (simp add: start_progress_def progress_ok_def)
  from progress_ok_finish[OF this] have ok: "progress_ok (fst (progress_finish decode operation
      (foldl (\<lambda>ps chunk. progress_write decode operation chunk ps) (start_progress clock, s) (pr_stdout proc))))" .
  have upd: "progress_ok (p\<lparr>pg_warnings := x, pg_summary := y\<rparr>) = progress_ok p" for p x y
    by (simp add: progress_ok_def)
  show ?thesis
    unfolding run_sinks_def Let_def using ok upd by (auto intro!: progress_ok_log)
qed

section \<open>Outcomes\<close>

text \<open>A final status with a known error code and counters that a log entry may carry.\<close>

definition outcome_ok :: "operation_outcome \<Rightarrow> bool" where
  "outcome_ok oc \<longleftrightarrow>
     (oc_Status oc = ''SUCCEEDED'' \<or> oc_Status oc = ''SUCCEEDED_WITH_WARNINGS'' \<or> oc_Status oc = ''FAILED'' \<or> oc_Status oc = ''CANCELED'') \<and>
     ValidBackupErrorCode (oc_ErrorCode oc) \<and> 0 \<le> oc_FilesDone oc \<and> 0 \<le> oc_BytesDone oc"

lemma outcome_ok_failed [simp]: "ValidBackupErrorCode code \<Longrightarrow> outcome_ok (failed_outcome code exit)"
  by (simp add: outcome_ok_def failed_outcome_def unlogged_outcome_def)

lemma error_codes [simp]:
  "ValidBackupErrorCode ''STATE_STORAGE_UNAVAILABLE''" "ValidBackupErrorCode ''BACKUP_TIMED_OUT''" "ValidBackupErrorCode ''CANCELED''"
  "ValidBackupErrorCode ''PRE_HOOK_FAILED''" "ValidBackupErrorCode ''POST_HOOK_FAILED''" "ValidBackupErrorCode ''IDENTITY_UNAVAILABLE''"
  "ValidBackupErrorCode ''CREDENTIAL_UNAVAILABLE''" "ValidBackupErrorCode ''WORKDIR_UNAVAILABLE''" "ValidBackupErrorCode ''CONFIG_INVALID''"
  "ValidBackupErrorCode ''GATEWAY_CLEANUP_UNCONFIRMED''" "ValidBackupErrorCode ''GATEWAY_BUSY''" "ValidBackupErrorCode ''GATEWAY_SESSION_FAILED''"
  "ValidBackupErrorCode ''GATEWAY_UNAVAILABLE''" "ValidBackupErrorCode ''GATEWAY_RATE_LIMITED''" "ValidBackupErrorCode ''INVALID_ENGINE_OUTPUT''"
  "ValidBackupErrorCode ''PARTIAL_READ''" "ValidBackupErrorCode ''REPOSITORY_LOCKED''" "ValidBackupErrorCode ''WRONG_REPOSITORY_PASSWORD''"
  "ValidBackupErrorCode ''REPOSITORY_MISSING''" "ValidBackupErrorCode ''BACKUP_FAILED''" "ValidBackupErrorCode ''UNKNOWN_EXIT_CODE''"
  "ValidBackupErrorCode []"
  by (simp_all add: ValidBackupErrorCode_def)

lemma gatewayFailureCode_valid [simp]: "ValidBackupErrorCode (gatewayFailureCode e)"
  by (simp add: gatewayFailureCode_def)

lemma classify_ok: "progress_ok p \<Longrightarrow> outcome_ok (classify exit p e)"
  unfolding classify_def Let_def by (simp add: outcome_ok_def progress_ok_def)

lemma outcome_ok_canceled: "progress_ok p \<Longrightarrow> outcome_ok (canceled_outcome\<lparr>oc_ExitCode := exit, oc_FilesDone := pg_files p,
    oc_TotalFiles := pg_totalFiles p, oc_BytesDone := pg_bytes p, oc_TotalBytes := pg_totalBytes p, oc_FilesNew := pg_filesNew p, oc_DataAdded := pg_dataAdded p\<rparr>)"
  by (simp add: outcome_ok_def canceled_outcome_def unlogged_outcome_def progress_ok_def)

lemma progress_ok_code: "progress_ok p \<Longrightarrow> ValidBackupErrorCode (pg_errorCode p)"
  by (auto simp: progress_ok_def)

lemma session_outcome_ok: "progress_ok p \<Longrightarrow> outcome_ok (session_outcome se started ctx exit runErr p)"
  unfolding session_outcome_def by (simp add: classify_ok outcome_ok_canceled progress_ok_code)

text \<open>What an outcome of the body comes from: an early failure, or the session and the process.\<close>

lemma execute_run_cases:
  assumes "execute_run decode co v inp plan operation deadline s = Some (t, oc)"
  shows "(\<exists>code. oc = failed_outcome code 0 \<and> ValidBackupErrorCode code) \<or>
    (\<exists>excludes sessionErr lent p. session_of co v inp plan operation deadline excludes = Some (sessionErr, lent) \<and>
       run_sinks decode operation (bi_clock inp) (ran (lent_process inp plan excludes lent)) s = (p, t) \<and>
       oc = session_outcome sessionErr (lent_process inp plan excludes lent \<noteq> None) (bi_ctx_end inp)
         (fst (ran_result (lent_process inp plan excludes lent)))
         (snd (ran_result (lent_process inp plan excludes lent))) p)"
proof (cases "\<exists>code. oc = failed_outcome code 0 \<and> ValidBackupErrorCode code")
  case False
  then have no: "oc \<noteq> failed_outcome ''IDENTITY_UNAVAILABLE'' 0" "oc \<noteq> failed_outcome ''CREDENTIAL_UNAVAILABLE'' 0"
    "oc \<noteq> failed_outcome ''WORKDIR_UNAVAILABLE'' 0" "oc \<noteq> failed_outcome ''CONFIG_INVALID'' 0"
    using error_codes by blast+
  obtain i where i: "LoadIdentity v = Some i"
    using assms no by (cases "LoadIdentity v") (auto simp: execute_run_def)
  have flags: "\<not> (case LoadRepositoryCredential co i v of Inr (Some _) \<Rightarrow> False | _ \<Rightarrow> True)" "bi_workdir inp" "bi_secret_files inp"
    "bi_client_certificate inp"
    using assms no i by (auto simp: execute_run_def split: if_splits)
  obtain paths excludes where prep: "Prepare (bi_prepared_files inp) (slice (ps_Paths plan)) (slice (ps_ExcludePatterns plan)) = Some (paths, excludes)"
    using assms no i flags by (cases "Prepare (bi_prepared_files inp) (slice (ps_Paths plan)) (slice (ps_ExcludePatterns plan))")
      (auto simp: execute_run_def)
  have cache: "bi_cache inp"
    using assms no i flags prep by (auto simp: execute_run_def split: if_splits)
  obtain sessionErr lent where se: "session_of co v inp plan operation deadline excludes = Some (sessionErr, lent)"
    using assms i flags prep cache
    by (cases "session_of co v inp plan operation deadline excludes") (auto simp: execute_run_def)
  obtain p t' where sinks: "run_sinks decode operation (bi_clock inp) (ran (lent_process inp plan excludes lent)) s = (p, t')"
    by fastforce
  have "t' = t \<and> oc = session_outcome sessionErr (lent_process inp plan excludes lent \<noteq> None) (bi_ctx_end inp)
         (fst (ran_result (lent_process inp plan excludes lent)))
         (snd (ran_result (lent_process inp plan excludes lent))) p"
    using assms i flags prep cache se sinks by (simp add: execute_run_def)
  with se sinks show ?thesis by blast
qed simp

lemma execute_run_ok:
  assumes "execute_run decode co v inp plan operation deadline s = Some (t, oc)"
  shows "outcome_ok oc"
  using execute_run_cases[OF assms]
proof (elim disjE exE conjE)
  fix excludes sessionErr lent p
  assume sinks: "run_sinks decode operation (bi_clock inp) (ran (lent_process inp plan excludes lent)) s = (p, t)"
    and oc: "oc = session_outcome sessionErr (lent_process inp plan excludes lent \<noteq> None) (bi_ctx_end inp)
         (fst (ran_result (lent_process inp plan excludes lent)))
         (snd (ran_result (lent_process inp plan excludes lent))) p"
  have "progress_ok p"
    using run_sinks_ok[of decode operation "bi_clock inp" "ran (lent_process inp plan excludes lent)" s] sinks by simp
  with oc show ?thesis by (simp add: session_outcome_ok)
qed simp

lemma outcome_ok_updates:
  "outcome_ok oc \<Longrightarrow> outcome_ok (oc\<lparr>oc_Status := ''FAILED'', oc_ErrorCode := ''STATE_STORAGE_UNAVAILABLE''\<rparr>)"
  "outcome_ok oc \<Longrightarrow> outcome_ok (oc\<lparr>oc_Status := ''FAILED'', oc_ErrorCode := ''BACKUP_TIMED_OUT''\<rparr>)"
  "outcome_ok oc \<Longrightarrow> outcome_ok (oc\<lparr>oc_Status := ''CANCELED'', oc_ErrorCode := ''CANCELED''\<rparr>)"
  "outcome_ok oc \<Longrightarrow> outcome_ok (oc\<lparr>oc_Status := ''SUCCEEDED_WITH_WARNINGS'', oc_ErrorCode := ''POST_HOOK_FAILED''\<rparr>)"
  "outcome_ok (oc\<lparr>oc_Summary := x\<rparr>) = outcome_ok oc"
  by (simp_all add: outcome_ok_def)

lemma post_hooks_rule:
  assumes "P outcome" "P (outcome\<lparr>oc_Status := ''FAILED'', oc_ErrorCode := ''STATE_STORAGE_UNAVAILABLE''\<rparr>)"
    "P (outcome\<lparr>oc_Status := ''FAILED'', oc_ErrorCode := ''BACKUP_TIMED_OUT''\<rparr>)" "P (outcome\<lparr>oc_Status := ''CANCELED'', oc_ErrorCode := ''CANCELED''\<rparr>)"
    "P (warned outcome)" "P ((warned outcome)\<lparr>oc_Status := ''FAILED'', oc_ErrorCode := ''STATE_STORAGE_UNAVAILABLE''\<rparr>)"
  shows "P (snd (post_hooks inp ids operation (s, outcome)))"
proof (cases "bi_ctx_post inp \<noteq> Alive \<or> ids = []")
  case True
  with assms show ?thesis by (simp add: post_hooks_def)
next
  case False
  obtain t r where l: "operationLog (bi_clock inp 2) operation ''post_hook'' ''INFO'' ''HOOK_STARTED'' 0 0 s = (t, r)" by fastforce
  show ?thesis
  proof (cases r)
    case (Inl e)
    with False l assms show ?thesis by (simp add: post_hooks_def)
  next
    case (Inr x)
    let ?ok = "runHooks (bi_files inp) (bi_hooks inp) (bi_post_hook inp) ids"
    obtain u q where l2: "operationLog (bi_clock inp 3) operation ''post_hook'' (if ?ok then ''INFO'' else ''WARN'')
        (if ?ok then ''HOOK_FINISHED'' else ''POST_HOOK_FAILED'') 0 0 t = (u, q)" by fastforce
    from False l Inr l2 assms show ?thesis
      by (cases ?ok; cases q) (simp_all add: post_hooks_def Let_def)
  qed
qed

lemma post_hooks_ok:
  assumes "outcome_ok (snd so)"
  shows "outcome_ok (snd (post_hooks inp ids operation so))"
proof -
  obtain s outcome where so: "so = (s, outcome)" by fastforce
  have w: "outcome_ok (warned outcome)"
    using assms so by (simp add: warned_def outcome_ok_updates)
  show ?thesis
    unfolding so by (rule post_hooks_rule) (use assms so w in \<open>simp_all add: outcome_ok_updates\<close>)
qed

lemma hook_failure_ok [simp]: "outcome_ok (hook_failure ctx)"
  by (simp add: hook_failure_def outcome_ok_def canceled_outcome_def unlogged_outcome_def failed_outcome_def)

lemma Execute_ok:
  assumes "Execute decode co v inp plan operation deadline s = Some (t, oc)"
  shows "outcome_ok oc"
proof (cases "ps_Execution plan")
  case None
  with assms show ?thesis by (auto simp: Execute_def Let_def intro: execute_run_ok)
next
  case (Some e)
  obtain s1 r1 where l1: "pre_hook_log (PreHookIDs e) (bi_clock inp 0) operation ''HOOK_STARTED'' s = (s1, r1)" by fastforce
  obtain s2 r2 where l2: "pre_hook_log (PreHookIDs e) (bi_clock inp 1) operation ''HOOK_FINISHED'' s1 = (s2, r2)" by fastforce
  show ?thesis
  proof (cases "(\<exists>x. r1 = Inl x) \<or> \<not> runHooks (bi_files inp) (bi_hooks inp) (bi_pre_hook inp) (PreHookIDs e) \<or> (\<exists>x. r2 = Inl x)")
    case True
    with assms Some l1 l2 show ?thesis
      by (auto simp: Execute_def Let_def split: sum.splits if_splits)
  next
    case False
    with assms Some l1 l2 obtain x d where x: "execute_run decode co v inp plan operation d s2 = Some x"
      and oc: "(t, oc) = post_hooks inp (PostHookIDs e) operation x"
      by (auto simp: Execute_def Let_def split: sum.splits)
    from x have "outcome_ok (snd x)" by (cases x) (auto intro: execute_run_ok)
    from post_hooks_ok[OF this, of inp "PostHookIDs e" operation] oc show ?thesis by (metis snd_conv)
  qed
qed

lemma Execute_cases:
  assumes "Execute decode co v inp plan operation deadline s = Some (t, oc)" and "oc_Status oc = ''SUCCEEDED'' \<or> oc_Status oc = ''SUCCEEDED_WITH_WARNINGS''"
  shows "\<exists>d u t' oc'. execute_run decode co v inp plan operation d u = Some (t', oc') \<and>
    (oc_Status oc' = ''SUCCEEDED'' \<or> oc_Status oc' = ''SUCCEEDED_WITH_WARNINGS'') \<and> (oc_Status oc = ''SUCCEEDED'' \<longrightarrow> oc_Status oc' = ''SUCCEEDED'')"
proof (cases "ps_Execution plan")
  case None
  with assms show ?thesis by (auto simp: Execute_def Let_def)
next
  case (Some e)
  obtain s1 r1 where l1: "pre_hook_log (PreHookIDs e) (bi_clock inp 0) operation ''HOOK_STARTED'' s = (s1, r1)" by fastforce
  obtain s2 r2 where l2: "pre_hook_log (PreHookIDs e) (bi_clock inp 1) operation ''HOOK_FINISHED'' s1 = (s2, r2)" by fastforce
  have nf: "oc_Status (failed_outcome code exit) = ''FAILED''" "oc_Status (hook_failure ctx) \<noteq> ''SUCCEEDED''"
    "oc_Status (hook_failure ctx) \<noteq> ''SUCCEEDED_WITH_WARNINGS''" for code exit ctx
    by (simp_all add: failed_outcome_def hook_failure_def canceled_outcome_def unlogged_outcome_def)
  show ?thesis
  proof (cases "(\<exists>x. r1 = Inl x) \<or> \<not> runHooks (bi_files inp) (bi_hooks inp) (bi_pre_hook inp) (PreHookIDs e) \<or> (\<exists>x. r2 = Inl x)")
    case True
    with assms Some l1 l2 nf have False
      by (auto simp: Execute_def Let_def split: sum.splits if_splits)
    then show ?thesis ..
  next
    case False
    with assms(1) Some l1 l2 obtain x where x: "execute_run decode co v inp plan operation (run_deadline (bi_now inp) plan deadline) s2 = Some x"
      and oc: "(t, oc) = post_hooks inp (PostHookIDs e) operation x"
      by (auto simp: Execute_def Let_def split: sum.splits)
    obtain t' oc' where x': "x = (t', oc')" by fastforce
    let ?P = "\<lambda>o1. oc_Status o1 = ''SUCCEEDED'' \<or> oc_Status o1 = ''SUCCEEDED_WITH_WARNINGS'' \<longrightarrow>
      (oc_Status oc' = ''SUCCEEDED'' \<or> oc_Status oc' = ''SUCCEEDED_WITH_WARNINGS'') \<and> (oc_Status o1 = ''SUCCEEDED'' \<longrightarrow> oc_Status oc' = ''SUCCEEDED'')"
    have "?P (snd (post_hooks inp (PostHookIDs e) operation (t', oc')))"
      by (rule post_hooks_rule) (auto simp: warned_def)
    moreover have "snd (post_hooks inp (PostHookIDs e) operation (t', oc')) = oc"
      using oc x' by (metis snd_conv)
    ultimately show ?thesis using assms(2) x x' by blast
  qed
qed

lemma progress_log_summary [simp]: "pg_sawSummary (fst (progress_log operation level code ps)) = pg_sawSummary (fst ps)"
  by (simp add: progress_log_def read_clock_def progress_fail_def split: prod.splits sum.splits)

lemma run_sinks_silent: "pr_stdout proc = [] \<Longrightarrow> \<not> pg_sawSummary (fst (run_sinks decode operation clock proc s))"
  by (simp add: run_sinks_def Let_def progress_finish_def start_progress_def)

lemma classify_success:
  "oc_Status (classify exit p se) = ''SUCCEEDED'' \<Longrightarrow> exit = 0 \<and> pg_sawSummary p"
  "oc_Status (classify exit p se) = ''SUCCEEDED_WITH_WARNINGS'' \<Longrightarrow> exit = 3 \<and> pg_sawSummary p"
  by (auto simp: classify_def Let_def split: if_splits)

lemma session_outcome_success:
  assumes "oc_Status (session_outcome se started ctx exit runErr p) = ''SUCCEEDED'' \<or> oc_Status (session_outcome se started ctx exit runErr p) = ''SUCCEEDED_WITH_WARNINGS''"
  shows "se \<noteq> Some ErrGatewayCleanup \<and> runErr \<noteq> ErrCanceled \<and> (se = None \<or> runErr \<noteq> NoRunError) \<and> pg_sawSummary p \<and> pg_errorCode p = [] \<and>
    (exit = 0 \<or> exit = 3) \<and> (oc_Status (session_outcome se started ctx exit runErr p) = ''SUCCEEDED'' \<longrightarrow> exit = 0)"
proof -
  have nf: "oc_Status (failed_outcome code x) = ''FAILED''" "oc_Status (canceled_outcome\<lparr>oc_ExitCode := a, oc_FilesDone := b,
    oc_TotalFiles := c, oc_BytesDone := d, oc_TotalBytes := e, oc_FilesNew := f, oc_DataAdded := g\<rparr>) = ''CANCELED''" for code x a b c d e f g
    by (simp_all add: failed_outcome_def canceled_outcome_def unlogged_outcome_def)
  have "session_outcome se started ctx exit runErr p = classify exit p se \<and> se \<noteq> Some ErrGatewayCleanup \<and> runErr \<noteq> ErrCanceled \<and>
      (se = None \<or> runErr \<noteq> NoRunError) \<and> pg_errorCode p = []"
    using assms nf unfolding session_outcome_def by (auto split: if_splits)
  with assms classify_success[of exit p se] show ?thesis by auto
qed

text \<open>A successful run of the body started Restic, which ended with exit code 0 or 3 after exactly one summary.\<close>

lemma execute_run_success:
  assumes run: "execute_run decode co v inp plan operation d u = Some (t, oc)"
    and st: "oc_Status oc = ''SUCCEEDED'' \<or> oc_Status oc = ''SUCCEEDED_WITH_WARNINGS''"
  shows "\<exists>excludes se e cmd p. session_of co v inp plan operation d excludes = Some (se, Some e) \<and> se \<noteq> Some ErrGatewayCleanup \<and>
    run_command plan excludes e = Some cmd \<and> run_sinks decode operation (bi_clock inp) (bi_process inp cmd) u = (p, t) \<and> pg_sawSummary p \<and>
    (pr_end (bi_process inp cmd) = RunExited 0 \<and> se = None \<or> pr_end (bi_process inp cmd) = RunExited 3 \<and> oc_Status oc \<noteq> ''SUCCEEDED'')"
proof -
  have "oc \<noteq> failed_outcome code 0" for code
    using st by (auto simp: failed_outcome_def unlogged_outcome_def)
  with execute_run_cases[OF run] obtain excludes se lent p where
    se: "session_of co v inp plan operation d excludes = Some (se, lent)" and
    sinks: "run_sinks decode operation (bi_clock inp) (ran (lent_process inp plan excludes lent)) u = (p, t)" and
    oc: "oc = session_outcome se (lent_process inp plan excludes lent \<noteq> None) (bi_ctx_end inp)
         (fst (ran_result (lent_process inp plan excludes lent)))
         (snd (ran_result (lent_process inp plan excludes lent))) p"
    by blast
  note ok = session_outcome_success[OF st[unfolded oc], folded oc]
  have "lent_process inp plan excludes lent \<noteq> None"
  proof
    assume "lent_process inp plan excludes lent = None"
    then have "\<not> pg_sawSummary p"
      using sinks run_sinks_silent[of "ran (lent_process inp plan excludes lent)" decode operation "bi_clock inp" u]
      by (simp add: ran_def)
    with ok show False by simp
  qed
  then obtain e cmd where e: "lent = Some e" "run_command plan excludes e = Some cmd"
    by (cases lent) (auto simp: lent_process_def)
  then have proc: "lent_process inp plan excludes lent = Some (bi_process inp cmd)"
    by (simp add: lent_process_def)
  have printed: "pr_end (bi_process inp cmd) \<noteq> RunStartFailed"
  proof
    assume "pr_end (bi_process inp cmd) = RunStartFailed"
    then have "\<not> pg_sawSummary p"
      using sinks run_sinks_silent[of "ran (lent_process inp plan excludes lent)" decode operation "bi_clock inp" u]
      by (simp add: proc ran_def printed_def)
    with ok show False by simp
  qed
  have ends: "pr_end (bi_process inp cmd) = RunExited 0 \<and> se = None \<or> pr_end (bi_process inp cmd) = RunExited 3 \<and> oc_Status oc \<noteq> ''SUCCEEDED''"
    using ok proc printed by (cases "pr_end (bi_process inp cmd)") (auto simp: ran_result_def run_result_def split: if_splits)
  then have "ran (lent_process inp plan excludes lent) = bi_process inp cmd"
    using proc by (auto simp: ran_def printed_def)
  with sinks have "run_sinks decode operation (bi_clock inp) (bi_process inp cmd) u = (p, t)" by simp
  moreover have "se \<noteq> Some ErrGatewayCleanup" "pg_sawSummary p" using ok by simp_all
  ultimately show ?thesis using se[unfolded e(1)] e(2) ends by blast
qed

lemma Execute_success:
  assumes ex: "Execute decode co v inp plan operation deadline s = Some (t, oc)"
    and st: "oc_Status oc = ''SUCCEEDED'' \<or> oc_Status oc = ''SUCCEEDED_WITH_WARNINGS''"
  shows "\<exists>i c r resp x e args hints u p t'. LoadIdentity v = Some i \<and> va_credential v = Some (Valid c) \<and> c_AgentID c = id_AgentID i \<and>
    credential_Validate co c \<and> r \<in> set (bi_rounds inp) \<and> rd_reply r = Response resp \<and> (hr_status resp = 200 \<or> hr_status resp = 202) \<and> hr_body resp = Valid x \<and>
    sr_State x = ''ACTIVE'' \<and> e = c_Endpoint c @ uuid_string (sr_SessionID x) @ ''/'' \<and> bi_deletion inp = Some (204, hints) \<and>
    (let proc = bi_process inp (args, [''RESTIC_REPOSITORY=rest:'' @ e, ''RESTIC_PASSWORD_FILE=restic-password''])
     in run_sinks decode operation (bi_clock inp) proc u = (p, t') \<and> pg_sawSummary p \<and>
       (pr_end proc = RunExited 0 \<or> pr_end proc = RunExited 3 \<and> oc_Status oc \<noteq> ''SUCCEEDED''))"
proof -
  from Execute_cases[OF ex st] obtain d u t' oc' where r: "execute_run decode co v inp plan operation d u = Some (t', oc')"
    "oc_Status oc' = ''SUCCEEDED'' \<or> oc_Status oc' = ''SUCCEEDED_WITH_WARNINGS''" "oc_Status oc = ''SUCCEEDED'' \<longrightarrow> oc_Status oc' = ''SUCCEEDED''"
    by blast
  from execute_run_success[OF r(1,2)] obtain excludes se e cmd p where x: "session_of co v inp plan operation d excludes = Some (se, Some e)"
    "se \<noteq> Some ErrGatewayCleanup" "run_command plan excludes e = Some cmd"
    "run_sinks decode operation (bi_clock inp) (bi_process inp cmd) u = (p, t')" "pg_sawSummary p"
    "pr_end (bi_process inp cmd) = RunExited 0 \<and> se = None \<or> pr_end (bi_process inp cmd) = RunExited 3 \<and> oc_Status oc' \<noteq> ''SUCCEEDED''"
    by blast
  from lent_below_credential[OF x(1)[unfolded session_of_def]] x(2) obtain i c q resp y hints where
    l: "LoadIdentity v = Some i" "va_credential v = Some (Valid c)" "c_AgentID c = id_AgentID i" "credential_Validate co c"
    "q \<in> set (bi_rounds inp)" "rd_reply q = Response resp" "hr_status resp = 200 \<or> hr_status resp = 202" "hr_body resp = Valid y"
    "sr_State y = ''ACTIVE''" "e = c_Endpoint c @ uuid_string (sr_SessionID y) @ ''/''" "bi_deletion inp = Some (204, hints)"
    by blast
  obtain args where cmd: "cmd = (args, [''RESTIC_REPOSITORY=rest:'' @ e, ''RESTIC_PASSWORD_FILE=restic-password''])"
    using x(3) by (auto simp: run_command_def Let_def Env_def backup_request_of_def split: option.splits)
  have "pr_end (bi_process inp cmd) = RunExited 0 \<or> pr_end (bi_process inp cmd) = RunExited 3 \<and> oc_Status oc \<noteq> ''SUCCEEDED''"
    using x(6) r(3) by blast
  with x(4,5) l show ?thesis
    unfolding Let_def cmd by blast
qed

section \<open>A concrete run, for the witnesses\<close>

definition demo_operation :: uuid where
  "demo_operation = 528914269453437118709767"

text \<open>The operation is stored, and its log has no room for progress and already has the other entries: nothing is appended any more.\<close>

definition demo_backup_agent :: agent where
  "demo_backup_agent = demo_agent\<lparr>operations := [(demo_operation, Valid (zero_operation\<lparr>op_ID := demo_operation, op_Status := ''RUNNING''\<rparr>))],
     operation_logs := [(demo_operation, \<lparr>ol_meta = Some (Valid (zero_log\<lparr>lg_Next := 2, lg_Limit := 65536, lg_Truncated := True,
       lg_Critical := [''backup:BACKUP_SUMMARY'']\<rparr>)), ol_entries = []\<rparr>)]\<rparr>"

definition demo_summary :: backup_summary where
  "demo_summary = \<lparr>FilesNew = 1, FilesChanged = 0, FilesUnmodified = 0, DirsNew = 0, DirsChanged = 0, DirsUnmodified = 0, DataAdded = 7,
     DataAddedPacked = 7, TotalFilesProcessed = 1, TotalBytesProcessed = 7, BackupStart = None, BackupEnd = None,
     TotalDuration = Finite 1 0, WarningCount = 0\<rparr>"

definition demo_wire :: wire_event where
  "demo_wire = \<lparr>we_MessageType = ''summary'', we_PercentDone = None, we_FilesDone = None, we_FilesProcessed = Some 1, we_BytesProcessed = Some 7,
     we_TotalFiles = None, we_BytesDone = None, we_TotalBytes = None, we_SnapshotID = [], we_FilesNew = Some 1, we_DataAdded = Some 7, we_Message = []\<rparr>"

definition demo_decode :: "string \<Rightarrow> line_json" where
  "demo_decode _ = \<lparr>lj_header = Valid ''summary'', lj_wire = Valid demo_wire, lj_summary = Valid demo_summary\<rparr>"

text \<open>A Restic that succeeds on the repository of the session and fails on any other.\<close>

definition demo_process :: "string list \<times> string list \<Rightarrow> process" where
  "demo_process cmd = (if hd (snd cmd) = ''RESTIC_REPOSITORY=rest:'' @ demo_endpoint
     then \<lparr>pr_stdout = [''x'', [newline]], pr_stderr = [], pr_end = RunExited 0\<rparr>
     else \<lparr>pr_stdout = [], pr_stderr = [], pr_end = RunExited 10\<rparr>)"

definition demo_backup_input :: backup_input where
  "demo_backup_input = \<lparr>bi_now = 10, bi_clock = (\<lambda>_. 20), bi_hooks = [], bi_files = \<lparr>fs_lstat = (\<lambda>_. None), fs_resolve = (\<lambda>_. None), fs_euid = 0\<rparr>,
     bi_pre_hook = (\<lambda>_. True), bi_post_hook = (\<lambda>_. True), bi_ctx_pre = Alive, bi_workdir = True, bi_secret_files = True,
     bi_client_certificate = True, bi_prepared_files = True, bi_cache = True, bi_session_at = 10, bi_session_ctx = True,
     bi_rounds = demo_rounds, bi_deletion = Some (204, []), bi_process = demo_process,
     bi_work_alive = True, bi_ctx_end = Alive, bi_ctx_post = Alive, bi_ctx_post_failed = Alive\<rparr>"

lemma demo_log_dropped:
  assumes "operation_logs s = operation_logs demo_backup_agent" "bget (operations s) demo_operation \<noteq> None" "faults s = []"
    and "code = ''BACKUP_PROGRESS'' \<or> code = ''BACKUP_SUMMARY''" "now \<noteq> 0" "0 \<le> f" "0 \<le> b"
  shows "operationLog now demo_operation ''backup'' ''INFO'' code f b s = (s, Inr ())"
proof -
  have m: "bget (operation_logs s) demo_operation = Some \<lparr>ol_meta = Some (Valid (zero_log\<lparr>lg_Next := 2, lg_Limit := 65536, lg_Truncated := True,
       lg_Critical := [''backup:BACKUP_SUMMARY'']\<rparr>)), ol_entries = []\<rparr>"
    by (simp add: assms(1) demo_backup_agent_def bget_def)
  have "append_log limit l (zero_log\<lparr>lg_Next := 2, lg_Limit := 65536, lg_Truncated := True, lg_Critical := [''backup:BACKUP_SUMMARY'']\<rparr>)
      \<lparr>le_Sequence = 0, le_ObservedAt = now, le_Section = ''backup'', le_Level = ''INFO'', le_Code = code, le_FilesDone = f, le_BytesDone = b\<rparr> = Inr None" for limit l
    using assms(4-7) by (auto simp: append_log_def Let_def entry_Validate_def u64_add_def is_zero_def zero_log_def log_codes_def)
  with m assms(2,3) show ?thesis
    by (simp add: operationLog_def appendOperationLog_def db_update_def Let_def)
qed

lemma demo_parse: "ParseEvent demo_decode ''x'' = Inr (Some (no_event\<lparr>ev_Type := ''summary'', ev_Summary := Some demo_summary,
    ev_FilesNew := 1, ev_DataAdded := 7, ev_FilesDone := 1, ev_BytesDone := 7\<rparr>))"
proof -
  have l: "trim_left ''x'' = ''x''" by (subst trim_left.simps) (simp add: byte_def)
  have r: "trim_right ''x'' = ''x''" by code_simp
  have "summary_Validate demo_summary"
    by (simp add: summary_Validate_def demo_summary_def float_zero_def scaled_def)
  with l r show ?thesis
    by (simp add: ParseEvent_def trim_space_def demo_decode_def demo_wire_def negative_def summary_event_def no_event_def)
qed

lemma demo_persist:
  assumes "pg_clock p = (\<lambda>_. 20)" "pg_files p = 1" "pg_bytes p = 7"
  obtains t where "progress_persist demo_operation (p, demo_backup_agent) = (p\<lparr>pg_reads := Suc (pg_reads p)\<rparr>, t)"
    "operation_logs t = operation_logs demo_backup_agent" "bget (operations t) demo_operation \<noteq> None" "faults t = []"
proof -
  define t where "t = demo_backup_agent\<lparr>operations := bput (operations demo_backup_agent) demo_operation
    (Valid (persisted_record p (zero_operation\<lparr>op_ID := demo_operation, op_Status := ''RUNNING''\<rparr>)))\<rparr>"
  have u: "updateOperation demo_operation (persisted_record p) demo_backup_agent = (t, Inr ())"
    by (simp add: updateOperation_def db_update_def Let_def t_def demo_backup_agent_def bget_def demo_agent_def)
  have ok: "operation_logs t = operation_logs demo_backup_agent" "bget (operations t) demo_operation \<noteq> None" "faults t = []"
    by (simp_all add: t_def demo_backup_agent_def demo_agent_def bget_def)
  have l: "operationLog 20 demo_operation ''backup'' ''INFO'' ''BACKUP_PROGRESS'' 1 7 t = (t, Inr ())"
    by (rule demo_log_dropped[OF ok]) simp_all
  show thesis
    by (rule that[OF _ ok]) (simp add: progress_persist_def progress_log_def read_clock_def u l assms)
qed

lemma demo_consumed:
  assumes "pg_clock p = (\<lambda>_. 20)" "\<not> pg_sawSummary p"
  obtains q t where "progress_consume demo_decode demo_operation ''x'' (p, demo_backup_agent) = (q, t)"
    "pg_sawSummary q" "pg_errorCode q = pg_errorCode p" "pg_pendingLine q = pg_pendingLine p"
proof -
  define r where "r = p\<lparr>pg_sawSummary := True, pg_snapshotID := [], pg_summary := Some (demo_summary\<lparr>WarningCount := pg_warnings p\<rparr>),
    pg_filesNew := 1, pg_dataAdded := 7, pg_files := 1, pg_bytes := 7\<rparr>"
  have f: "pg_clock r = (\<lambda>_. 20)" "pg_files r = 1" "pg_bytes r = 7" "pg_sawSummary r" "pg_errorCode r = pg_errorCode p" "pg_pendingLine r = pg_pendingLine p"
    using assms by (simp_all add: r_def)
  obtain t where t: "progress_persist demo_operation (r, demo_backup_agent) = (r\<lparr>pg_reads := Suc (pg_reads r)\<rparr>, t)"
    and ok: "operation_logs t = operation_logs demo_backup_agent" "bget (operations t) demo_operation \<noteq> None" "faults t = []"
    using f(1-3) by (rule demo_persist)
  have l: "operationLog 20 demo_operation ''backup'' ''INFO'' ''BACKUP_SUMMARY'' 1 7 t = (t, Inr ())"
    by (rule demo_log_dropped[OF ok]) simp_all
  have c: "consume_summary demo_operation (no_event\<lparr>ev_Type := ''summary'', ev_Summary := Some demo_summary,
      ev_FilesNew := 1, ev_DataAdded := 7, ev_FilesDone := 1, ev_BytesDone := 7\<rparr>) (p, demo_backup_agent) =
    progress_log demo_operation ''INFO'' ''BACKUP_SUMMARY'' (progress_persist demo_operation (r, demo_backup_agent))"
    using assms by (simp add: consume_summary_def Let_def r_def no_event_def)
  show thesis
    by (rule that[of "r\<lparr>pg_reads := Suc (Suc (pg_reads r))\<rparr>" t])
       (simp_all add: progress_consume_def demo_parse c t f progress_log_def read_clock_def l)
qed

lemma demo_sinks:
  obtains p t where "run_sinks demo_decode demo_operation (\<lambda>_. 20) \<lparr>pr_stdout = [''x'', [newline]], pr_stderr = [], pr_end = RunExited 0\<rparr> demo_backup_agent = (p, t)"
    "pg_sawSummary p" "pg_errorCode p = []"
proof -
  define p0 where "p0 = (start_progress (\<lambda>_. 20))\<lparr>pg_pendingLine := ''x''\<rparr>"
  have f: "pg_clock p0 = (\<lambda>_. 20)" "\<not> pg_sawSummary p0" "pg_errorCode p0 = []" "pg_pendingLine p0 = ''x''"
    by (simp_all add: p0_def start_progress_def)
  from f(1,2) obtain q t where q: "progress_consume demo_decode demo_operation ''x'' (p0, demo_backup_agent) = (q, t)"
    "pg_sawSummary q" "pg_errorCode q = pg_errorCode p0" "pg_pendingLine q = pg_pendingLine p0"
    by (rule demo_consumed)
  have a: "progress_byte demo_decode demo_operation (start_progress (\<lambda>_. 20), demo_backup_agent) (CHR ''x'') = (p0, demo_backup_agent)"
    by (simp add: progress_byte_def p0_def newline_def line_limit_def) (simp add: start_progress_def)
  have b: "progress_byte demo_decode demo_operation (p0, demo_backup_agent) newline = (q\<lparr>pg_pendingLine := []\<rparr>, t)"
    using f q by (simp add: progress_byte_def line_limit_def)
  show thesis
    by (rule that[of "q\<lparr>pg_pendingLine := [], pg_summary := map_option (\<lambda>x. x\<lparr>WarningCount := pg_warnings q\<rparr>) (pg_summary q)\<rparr>" t])
       (use q f in \<open>simp_all add: run_sinks_def progress_write_bytes a b Let_def progress_finish_def warning_finish_def demo_decode_def\<close>)
qed

lemma demo_execute:
  "\<exists>t oc. Execute demo_decode demo_crypto demo_vault demo_backup_input demo_plan demo_operation 1000 demo_backup_agent = Some (t, oc) \<and>
     oc_Status oc = ''SUCCEEDED''"
proof -
  have l: "LoadIdentity demo_vault = Some demo_identity"
    by (simp add: LoadIdentity_def demo_vault_def demo_identity_def uuid_nil_def)
  have c: "LoadRepositoryCredential demo_crypto demo_identity demo_vault = Inr (Some demo_credential)"
    using demo_credential_valid
    by (simp add: LoadRepositoryCredential_def loadRepositoryCredential_def demo_vault_def) (simp add: demo_credential_def demo_identity_def)
  have v: "ValidateBackupPaths [''/data''] [] = None" by code_simp
  have w: "writeLines [''/data''] \<noteq> None" by code_simp
  let ?proc = "\<lparr>pr_stdout = [''x'', [newline]], pr_stderr = [], pr_end = RunExited 0\<rparr>"
  obtain cmd where a: "run_command demo_plan None demo_endpoint = Some cmd" "demo_process cmd = ?proc"
    by (simp add: run_command_def BackupArgs_def backup_request_of_def Let_def Env_def demo_process_def demo_plan_def uuid_nil_def)
  have o: "ValidOperationID demo_operation"
    by (simp add: ValidOperationID_def uuid_version_def uuid_rfc4122_def demo_operation_def)
  obtain p t where p: "run_sinks demo_decode demo_operation (\<lambda>_. 20) \<lparr>pr_stdout = [''x'', [newline]], pr_stderr = [], pr_end = RunExited 0\<rparr> demo_backup_agent = (p, t)"
    "pg_sawSummary p" "pg_errorCode p = []"
    by (rule demo_sinks)
  have s: "session_of demo_crypto demo_vault demo_backup_input demo_plan demo_operation 1000 None = Some (None, Some demo_endpoint)"
    unfolding session_of_def by (simp add: demo_backup_input_def, rule demo_session[OF o]) (simp add: a run_result_def demo_backup_input_def)
  have i: "bi_workdir demo_backup_input" "bi_secret_files demo_backup_input" "bi_client_certificate demo_backup_input" "bi_cache demo_backup_input"
    "bi_prepared_files demo_backup_input" "bi_ctx_end demo_backup_input = Alive" "bi_clock demo_backup_input = (\<lambda>_. 20)" "bi_now demo_backup_input = 10"
    "bi_process demo_backup_input = demo_process"
    by (simp_all add: demo_backup_input_def)
  have pl: "ps_Execution demo_plan = None" "ps_Paths demo_plan = Some [''/data'']" "ps_ExcludePatterns demo_plan = None"
    by (simp_all add: demo_plan_def)
  have d: "run_deadline 10 demo_plan 1000 = 1000"
    by (simp add: run_deadline_def pl)
  have oc: "oc_Status (session_outcome None True Alive 0 NoRunError p) = ''SUCCEEDED''"
    using p(2,3) by (simp add: session_outcome_def gatewayFailureCode_def classify_def)
  from w obtain ws where "writeLines [''/data''] = Some ws" by auto
  with l c v a s i pl d p oc show ?thesis
    by (simp add: Execute_def execute_run_def Prepare_def slice_def lent_process_def ran_def ran_result_def printed_def run_result_def)
qed

lemma outcome_log_valid:
  assumes "outcome_ok oc" "outcome_log oc = (code, level)"
  shows "(level = ''INFO'' \<or> level = ''WARN'' \<or> level = ''ERROR'') \<and> (code \<in> log_codes \<or> code \<noteq> [] \<and> ValidBackupErrorCode code) \<and>
    0 \<le> oc_FilesDone oc \<and> 0 \<le> oc_BytesDone oc"
proof -
  have c: "''BACKUP_SUCCEEDED'' \<in> log_codes" "''BACKUP_SUCCEEDED_WITH_WARNINGS'' \<in> log_codes" "ValidBackupErrorCode ''CANCELED''"
    "''BACKUP_FAILED'' \<in> log_codes \<or> ValidBackupErrorCode ''BACKUP_FAILED''"
    by code_simp+
  from assms have "level = ''INFO'' \<or> level = ''WARN'' \<or> level = ''ERROR''"
    "code = ''BACKUP_SUCCEEDED'' \<or> code = ''BACKUP_SUCCEEDED_WITH_WARNINGS'' \<or> code = ''CANCELED'' \<or> code = ''BACKUP_FAILED'' \<or> code = oc_ErrorCode oc \<and> code \<noteq> []"
    by (auto simp: outcome_log_def Let_def split: if_splits)
  with c assms(1) show ?thesis by (auto simp: outcome_ok_def)
qed

section \<open>Properties\<close>

text \<open>C35: A backup is reported as succeeded, with or without warnings, only if the Agent held a valid repository credential of its own identity,
  the gateway replied with an active session, and Restic, started with the endpoint of that session below the credential's endpoint as its
  \<open>RESTIC_REPOSITORY\<close>, printed a parseable summary and exited with 0 (or with 3, the code for unreadable sources, which is never a plain
  success), and the deletion of the session was confirmed by the gateway.\<close>

theorem backup_success:
  assumes "Execute decode co v inp plan operation deadline s = Some (t, oc)"
    and "oc_Status oc = ''SUCCEEDED'' \<or> oc_Status oc = ''SUCCEEDED_WITH_WARNINGS''"
  shows "\<exists>i c r resp x e args hints u p t'. LoadIdentity v = Some i \<and> va_credential v = Some (Valid c) \<and> c_AgentID c = id_AgentID i \<and>
    credential_Validate co c \<and> r \<in> set (bi_rounds inp) \<and> rd_reply r = Response resp \<and> (hr_status resp = 200 \<or> hr_status resp = 202) \<and> hr_body resp = Valid x \<and>
    sr_State x = ''ACTIVE'' \<and> e = c_Endpoint c @ uuid_string (sr_SessionID x) @ ''/'' \<and> bi_deletion inp = Some (204, hints) \<and>
    (let proc = bi_process inp (args, [''RESTIC_REPOSITORY=rest:'' @ e, ''RESTIC_PASSWORD_FILE=restic-password''])
     in run_sinks decode operation (bi_clock inp) proc u = (p, t') \<and> pg_sawSummary p \<and>
       (pr_end proc = RunExited 0 \<or> pr_end proc = RunExited 3 \<and> oc_Status oc \<noteq> ''SUCCEEDED''))"
  using assms by (rule Execute_success)

theorem backup_success_witness:
  "\<exists>t oc args sid. Execute demo_decode demo_crypto demo_vault demo_backup_input demo_plan demo_operation 1000 demo_backup_agent = Some (t, oc) \<and>
     oc_Status oc = ''SUCCEEDED'' \<and> pr_end (bi_process demo_backup_input (args,
       [''RESTIC_REPOSITORY=rest:'' @ c_Endpoint demo_credential @ uuid_string sid @ ''/'', ''RESTIC_PASSWORD_FILE=restic-password''])) = RunExited 0"
proof -
  obtain t oc where e: "Execute demo_decode demo_crypto demo_vault demo_backup_input demo_plan demo_operation 1000 demo_backup_agent = Some (t, oc)"
    "oc_Status oc = ''SUCCEEDED''"
    using demo_execute by blast
  then have "oc_Status oc = ''SUCCEEDED'' \<or> oc_Status oc = ''SUCCEEDED_WITH_WARNINGS''" by simp
  moreover have c: "va_credential demo_vault = Some (Valid demo_credential)"
    by (simp add: demo_vault_def)
  ultimately show ?thesis
    using backup_success[OF e(1)] e unfolding c Let_def by blast
qed

text \<open>C36: Whatever happens in a run, its outcome is a final status with a known error code, and the log entry the worker writes for it, at a time that is
  not the zero time and under a sequence number in range, is one the log accepts: no run ends without a trace in its log.\<close>

theorem outcome_logged:
  assumes "Execute decode co v inp plan operation deadline s = Some (t, oc)"
    and "outcome_log oc = (code, level)" "0 < n" "n \<le> 4611686018427387904" "now \<noteq> 0"
  shows "OperationTerminal (oc_Status oc) \<and> ValidBackupErrorCode (oc_ErrorCode oc) \<and>
    entry_Validate \<lparr>le_Sequence = n, le_ObservedAt = now, le_Section = ''backup'', le_Level = level, le_Code = code,
      le_FilesDone = oc_FilesDone oc, le_BytesDone = oc_BytesDone oc\<rparr>"
proof -
  have ok: "outcome_ok oc" by (rule Execute_ok[OF assms(1)])
  from outcome_log_valid[OF ok assms(2)] assms(3-5) have v: "entry_Validate \<lparr>le_Sequence = n, le_ObservedAt = now, le_Section = ''backup'',
      le_Level = level, le_Code = code, le_FilesDone = oc_FilesDone oc, le_BytesDone = oc_BytesDone oc\<rparr>"
    by (elim conjE disjE) (simp_all add: entry_Validate_def is_zero_def)
  from ok have "OperationTerminal (oc_Status oc)" "ValidBackupErrorCode (oc_ErrorCode oc)"
    by (auto simp: outcome_ok_def OperationTerminal_def)
  with v show ?thesis by blast
qed

theorem outcome_logged_witness:
  "\<exists>t oc code level. Execute demo_decode demo_crypto demo_vault demo_backup_input demo_plan demo_operation 1000 demo_backup_agent = Some (t, oc) \<and>
     outcome_log oc = (code, level) \<and> entry_Validate \<lparr>le_Sequence = 1, le_ObservedAt = 20, le_Section = ''backup'', le_Level = level, le_Code = code,
      le_FilesDone = oc_FilesDone oc, le_BytesDone = oc_BytesDone oc\<rparr>"
proof -
  obtain t oc where e: "Execute demo_decode demo_crypto demo_vault demo_backup_input demo_plan demo_operation 1000 demo_backup_agent = Some (t, oc)"
    "oc_Status oc = ''SUCCEEDED''"
    using demo_execute by blast
  obtain code level where "outcome_log oc = (code, level)" by fastforce
  with outcome_logged[OF e(1) this, of 1 20] e show ?thesis by auto
qed

end
