(* ===== verification/Agent_Stream.thy ===== *)
theory Agent_Stream
  imports Agent_Backup
begin

text \<open>
  The Agent's side of the control stream (\<open>internal/agent/client_stream.go\<close>, \<open>report.go\<close>, \<open>telemetry.go\<close>
  and the reconnect loop of \<open>client.go\<close>): the messages the Agent sends, the reports of operations and logs, the jobs it
  accepts, and one connection from its Hello to its end. The transport is a supply of readings: each call that looks at the clock
  or sends a message takes the next one, which tells the time, the identifier \<open>uuid.NewV7\<close> made and whether
  \<open>stream.Send\<close> succeeded. The \<open>select\<close> of the loop is the list of the events it takes.
\<close>

section \<open>Model\<close>

subsection \<open>Messages\<close>

record hello =
  he_InstallId :: string
  he_BootId :: string
  he_AgentVersion :: string
  he_SupportedProtocolVersions :: "string list"
  he_AcceptedConfigRevision :: int
  he_PendingResultIds :: "string list"
  he_Capabilities :: "string list"
  he_LocalTime :: time

record heartbeat =
  hb_BootId :: string
  hb_UptimeSeconds :: "64 word"
  hb_AcceptedRevision :: int
  hb_StateFreeBytes :: "64 word"
  hb_ClockOffsetMs :: int
  hb_HealthChecks :: "(string \<times> bool \<times> string) list"
  hb_LocalTime :: time
  hb_NextRuns :: "(string \<times> time) list"
  hb_ActiveOperations :: "(string \<times> string) list"

record inventory =
  iv_CapturedAt :: time
  iv_Kernel :: string
  iv_OsRelease :: string
  iv_CpuArch :: string
  iv_AgentVersion :: string
  iv_Containerized :: bool
  iv_AvailableBytes :: "(string \<times> 64 word) list"
  iv_ClockOffsetMs :: int
  iv_Capabilities :: "string list"

record job_progress =
  jp_OperationId :: string
  jp_PlanId :: string
  jp_PlanRevision :: int
  jp_ScheduledAt :: time
  jp_ParentOperationId :: string
  jp_RootOperationId :: string
  jp_Attempt :: int
  jp_Sequence :: "64 word"
  jp_Stage :: string
  jp_FilesDone :: int
  jp_TotalFiles :: int
  jp_BytesDone :: int
  jp_TotalBytes :: int
  jp_ObservedAt :: time

text \<open>The summary of a result is kept as the record whose JSON text is sent.\<close>

record job_result =
  jr_OperationId :: string
  jr_PlanId :: string
  jr_PlanRevision :: int
  jr_ScheduledAt :: time
  jr_ParentOperationId :: string
  jr_RootOperationId :: string
  jr_Attempt :: int
  jr_Status :: string
  jr_ErrorCode :: string
  jr_ExitCode :: int
  jr_SnapshotId :: string
  jr_FilesNew :: int
  jr_Summary :: "backup_summary option"
  jr_DataAdded :: int
  jr_FinishedAt :: time

datatype payload =
    Hello hello
  | CertificateRotationRequest string
  | Heartbeat heartbeat
  | InventoryReport inventory
  | ConfigAccepted int string
  | ConfigRejected int string string
  | CredentialRevisionAccepted uuid int
  | JobAccepted string string
  | JobRejected string string string
  | JobLogChunk string nat nat string
  | JobProgress job_progress
  | JobResult job_result
  | JobCancelAccepted string

record envelope =
  en_MessageId :: string
  en_ProtocolVersion :: string
  en_SentAt :: time
  en_Sequence :: "64 word"
  en_Payload :: payload

record job_dispatch =
  jd_JobId :: string
  jd_OperationId :: string
  jd_PlanId :: string
  jd_Type :: string
  jd_PlanRevision :: int
  jd_ConfigHash :: string
  jd_NotBefore :: "time cell option"
  jd_Deadline :: "time cell option"
  jd_ParentOperationId :: string
  jd_RootOperationId :: string
  jd_Attempt :: int

record welcome_message =
  wc_SelectedProtocolVersion :: string
  wc_ServerTime :: "time cell option"
  wc_HeartbeatIntervalSeconds :: nat
  wc_DesiredConfigRevision :: int
  wc_ServerCapabilities :: "string list"

datatype server_payload =
    Welcome welcome_message
  | CertificateRotationResponse rotation_response
  | DesiredStateSnapshot snapshot
  | CredentialRevision credential_message
  | JobDispatch job_dispatch
  | JobCancel string
  | JobResultAccepted string
  | JobLogAccepted string nat
  | UnknownPayload

record server_message =
  sm_MessageId :: string
  sm_ProtocolVersion :: string
  sm_SentAt :: "time cell option"
  sm_Sequence :: "64 word"
  sm_Payload :: server_payload

subsection \<open>Sending\<close>

datatype stream_error = StoreFailed store_error | SendFailed | InvalidMessage string | ApplyFailed apply_error

record reading =
  rg_now :: time
  rg_id :: "uuid option"
  rg_sent :: bool

record connection =
  cn_readings :: "nat \<Rightarrow> reading"
  cn_reads :: nat
  cn_sequence :: "64 word"
  cn_sent :: "envelope list"

type_synonym link = "agent \<times> connection"

definition read_now :: "connection \<Rightarrow> time \<times> connection" where
  "read_now c = (rg_now (cn_readings c (cn_reads c)), c\<lparr>cn_reads := Suc (cn_reads c)\<rparr>)"

definition sendAgentMessage :: "string \<Rightarrow> payload \<Rightarrow> connection \<Rightarrow> connection \<times> (stream_error + unit)" where
  "sendAgentMessage protocol p c =
     (let r = cn_readings c (cn_reads c);
          c' = c\<lparr>cn_reads := Suc (cn_reads c)\<rparr>
      in case rg_id r of
           None \<Rightarrow> (c', Inl (InvalidMessage ''uuid''))
         | Some i \<Rightarrow>
             (let c'' = c'\<lparr>cn_sequence := cn_sequence c' + 1\<rparr>
              in if rg_sent r
                 then (c''\<lparr>cn_sent := cn_sent c'' @ [\<lparr>en_MessageId = uuid_string i, en_ProtocolVersion = protocol, en_SentAt = rg_now r,
                        en_Sequence = cn_sequence c'', en_Payload = p\<rparr>]\<rparr>, Inr ())
                 else (c'', Inl SendFailed)))"

text \<open>\<open>if err := ...; err != nil { return err }\<close> on the state and the stream, and the two kinds of call in it.\<close>

definition and_then :: "'s \<times> ('e + unit) \<Rightarrow> ('s \<Rightarrow> 's \<times> ('e + unit)) \<Rightarrow> 's \<times> ('e + unit)" where
  "and_then m k = (case m of (s, Inl e) \<Rightarrow> (s, Inl e) | (s, Inr _) \<Rightarrow> k s)"

definition send :: "string \<Rightarrow> payload \<Rightarrow> link \<Rightarrow> link \<times> (stream_error + unit)" where
  "send protocol p l = (case sendAgentMessage protocol p (snd l) of (c, r) \<Rightarrow> ((fst l, c), r))"

definition stored :: "(agent \<Rightarrow> agent \<times> (store_error + unit)) \<Rightarrow> link \<Rightarrow> link \<times> (stream_error + unit)" where
  "stored f l = (case f (fst l) of (s, Inl e) \<Rightarrow> ((s, snd l), Inl (StoreFailed e)) | (s, Inr _) \<Rightarrow> ((s, snd l), Inr ()))"

definition sendConfigResult :: "string \<Rightarrow> config_result \<Rightarrow> link \<Rightarrow> link \<times> (stream_error + unit)" where
  "sendConfigResult protocol r l =
     (if \<not> result_Validate r then (l, Inl (InvalidMessage ''config result''))
      else send protocol (if cr_Accepted r then ConfigAccepted (cr_Revision r) (cr_ConfigHash r)
             else ConfigRejected (cr_Revision r) (cr_ErrorCode r) (cr_FieldPath r)) l)"

subsection \<open>Reports\<close>

definition optionalOperationID :: "uuid \<Rightarrow> string" where
  "optionalOperationID i = (if i = uuid_nil then [] else uuid_string i)"

text \<open>\<open>json.Marshal\<close> refuses a duration that is not finite; the times of a summary were decoded from RFC 3339 text.\<close>

definition summary_marshals :: "backup_summary \<Rightarrow> bool" where
  "summary_marshals x = (case TotalDuration x of Finite _ _ \<Rightarrow> True | _ \<Rightarrow> False)"

definition result_message :: "operation_record \<Rightarrow> job_result" where
  "result_message r = \<lparr>jr_OperationId = uuid_string (op_ID r), jr_PlanId = uuid_string (op_PlanID r), jr_PlanRevision = op_PlanRevision r,
     jr_ScheduledAt = op_ScheduledAt r, jr_ParentOperationId = optionalOperationID (op_ParentOperationID r),
     jr_RootOperationId = optionalOperationID (op_RootOperationID r), jr_Attempt = int32 (op_Attempt r), jr_Status = op_Status r,
     jr_ErrorCode = op_ErrorCode r, jr_ExitCode = op_ExitCode r, jr_SnapshotId = op_SnapshotID r, jr_FilesNew = op_FilesNew r,
     jr_Summary = op_Summary r, jr_DataAdded = op_DataAdded r, jr_FinishedAt = op_FinishedAt r\<rparr>"

definition sendOperationResult :: "string \<Rightarrow> operation_record \<Rightarrow> link \<Rightarrow> link \<times> (stream_error + unit)" where
  "sendOperationResult protocol r l =
     (if (case op_Summary r of None \<Rightarrow> False | Some x \<Rightarrow> \<not> summary_marshals x) then (l, Inl (InvalidMessage ''summary''))
      else send protocol (JobResult (result_message r)) l)"

definition unix_milli :: "time \<Rightarrow> int" where
  "unix_milli t = t div 1000000 - 62135596800000"

definition progress_message :: "operation_record \<Rightarrow> time \<Rightarrow> time \<Rightarrow> job_progress" where
  "progress_message r now observed = \<lparr>jp_OperationId = uuid_string (op_ID r), jp_PlanId = uuid_string (op_PlanID r),
     jp_PlanRevision = op_PlanRevision r, jp_ScheduledAt = op_ScheduledAt r,
     jp_ParentOperationId = optionalOperationID (op_ParentOperationID r), jp_RootOperationId = optionalOperationID (op_RootOperationID r),
     jp_Attempt = int32 (op_Attempt r), jp_Sequence = word_of_int (unix_milli now), jp_Stage = ''backup'', jp_FilesDone = op_FilesDone r,
     jp_TotalFiles = op_TotalFiles r, jp_BytesDone = op_BytesDone r, jp_TotalBytes = op_TotalBytes r, jp_ObservedAt = observed\<rparr>"

definition mark_reported :: "uuid \<Rightarrow> link \<Rightarrow> link \<times> (stream_error + unit)" where
  "mark_reported i l = (case read_now (snd l) of (now, c) \<Rightarrow> stored (markOperationReported i now) (fst l, c))"

definition report_record :: "string \<Rightarrow> bool \<Rightarrow> operation_record \<Rightarrow> link \<Rightarrow> link \<times> (stream_error + unit)" where
  "report_record protocol resultAck r l =
     (if Terminal r then
        and_then (sendOperationResult protocol r l) (\<lambda>l.
        and_then (if resultAck then (l, Inr ()) else stored (MarkOperationUploaded (op_ID r)) l)
          (mark_reported (op_ID r)))
      else
        (case read_now (snd l) of (now, c) \<Rightarrow>
         case read_now c of (observed, c) \<Rightarrow>
           and_then (send protocol (JobProgress (progress_message r now observed)) (fst l, c)) (mark_reported (op_ID r))))"

fun report_records :: "string \<Rightarrow> bool \<Rightarrow> operation_record list \<Rightarrow> link \<Rightarrow> link \<times> (stream_error + unit)" where
  "report_records protocol resultAck [] l = (l, Inr ())"
| "report_records protocol resultAck (r # rs) l = and_then (report_record protocol resultAck r l) (report_records protocol resultAck rs)"

definition reportOperations :: "string \<Rightarrow> duration \<Rightarrow> bool \<Rightarrow> link \<Rightarrow> link \<times> (stream_error + unit)" where
  "reportOperations protocol progressInterval resultAck l =
     (case read_now (snd l) of (now, c) \<Rightarrow>
      case ReportableOperations now progressInterval (fst l) of
        Inl e \<Rightarrow> ((fst l, c), Inl (StoreFailed e))
      | Inr rs \<Rightarrow> report_records protocol resultAck rs (fst l, c))"

definition report_chunk :: "string \<Rightarrow> log_chunk \<Rightarrow> link \<Rightarrow> link \<times> (stream_error + unit)" where
  "report_chunk protocol k l =
     and_then (send protocol (JobLogChunk (uuid_string (ck_OperationID k)) (ck_First k) (ck_Last k) (ck_JSON k)) l) (\<lambda>l.
       case read_now (snd l) of (now, c) \<Rightarrow> stored (markLogsSent (ck_OperationID k) (ck_Last k) now) (fst l, c))"

fun report_chunks :: "string \<Rightarrow> log_chunk list \<Rightarrow> link \<Rightarrow> link \<times> (stream_error + unit)" where
  "report_chunks protocol [] l = (l, Inr ())"
| "report_chunks protocol (k # ks) l = and_then (report_chunk protocol k l) (report_chunks protocol ks)"

definition reportLogs :: "string \<Rightarrow> bool \<Rightarrow> link \<Rightarrow> link \<times> (stream_error + unit)" where
  "reportLogs protocol force l =
     (case read_now (snd l) of (now, c) \<Rightarrow>
      case pendingLogs now force (fst l) of
        Inl e \<Rightarrow> ((fst l, c), Inl (StoreFailed e))
      | Inr chunks \<Rightarrow> report_chunks protocol chunks (fst l, c))"

subsection \<open>Telemetry\<close>

text \<open>What the Agent reads of its machine; parsing and converting a float are parameters.\<close>

record machine =
  mc_file :: "string \<Rightarrow> string option"
  mc_exists :: "string \<Rightarrow> bool"
  mc_free :: "64 word option"
  mc_arch :: string
  mc_parse_float :: "string \<Rightarrow> float64 option"
  mc_uint64 :: "float64 \<Rightarrow> 64 word"

definition maxClockOffset :: duration where
  "maxClockOffset = 120000000000"

definition truncate_text :: "string \<Rightarrow> nat \<Rightarrow> string" where
  "truncate_text v limit = (if length v \<le> limit then v else take limit v)"

definition readTrimmed :: "machine \<Rightarrow> string \<Rightarrow> nat \<Rightarrow> string" where
  "readTrimmed m path limit = (case mc_file m path of None \<Rightarrow> [] | Some v \<Rightarrow> truncate_text (trim_space v) limit)"

definition readBootID :: "machine \<Rightarrow> string" where
  "readBootID m = (case mc_file m ''/proc/sys/kernel/random/boot_id'' of None \<Rightarrow> [] | Some v \<Rightarrow> trim_space v)"

definition readUptime :: "machine \<Rightarrow> 64 word \<times> bool" where
  "readUptime m =
     (case go_fields (readTrimmed m ''/proc/uptime'' 64) of
        [] \<Rightarrow> (0, False)
      | f # _ \<Rightarrow>
          (case mc_parse_float m f of
             None \<Rightarrow> (0, False)
           | Some s \<Rightarrow> if float_less s float_zero then (0, False) else (mc_uint64 m s, True)))"

definition freeBytes :: "machine \<Rightarrow> 64 word \<times> bool" where
  "freeBytes m = (case mc_free m of None \<Rightarrow> (0, False) | Some n \<Rightarrow> (n, True))"

text \<open>\<open>strings.Trim\<close> with the two quotation marks as its cutset.\<close>

definition trim_quotes :: "string \<Rightarrow> string" where
  "trim_quotes s = rev (dropWhile (\<lambda>c. byte c = 34 \<or> byte c = 39) (rev (dropWhile (\<lambda>c. byte c = 34 \<or> byte c = 39) s)))"

definition readOSRelease :: "machine \<Rightarrow> string" where
  "readOSRelease m =
     (case find (\<lambda>line. has_prefix line ''PRETTY_NAME='') (go_split newline (readTrimmed m ''/etc/os-release'' 4096)) of
        None \<Rightarrow> ''linux''
      | Some line \<Rightarrow> truncate_text (trim_quotes (trim_prefix line ''PRETTY_NAME='')) 256)"

text \<open>\<open>strings.Contains\<close>.\<close>

fun contains_text :: "string \<Rightarrow> string \<Rightarrow> bool" where
  "contains_text [] p \<longleftrightarrow> p = []"
| "contains_text (c # s) p \<longleftrightarrow> has_prefix (c # s) p \<or> contains_text s p"

definition isContainerized :: "machine \<Rightarrow> bool" where
  "isContainerized m =
     (if mc_exists m ''/.dockerenv'' then True
      else
        (let v = readTrimmed m ''/proc/1/cgroup'' 4096
         in contains_text v ''docker'' \<or> contains_text v ''containerd'' \<or> contains_text v ''kubepods''))"

definition errorCode :: "bool \<Rightarrow> string \<Rightarrow> string" where
  "errorCode healthy code = (if healthy then [] else code)"

text \<open>\<open>Duration.Milliseconds\<close>, which rounds towards zero.\<close>

definition milliseconds :: "duration \<Rightarrow> int" where
  "milliseconds d = (if d < 0 then - ((- d) div 1000000) else d div 1000000)"

definition heartbeatSnapshot :: "machine \<Rightarrow> agent \<Rightarrow> string \<Rightarrow> int \<Rightarrow> duration \<Rightarrow> time \<Rightarrow> heartbeat" where
  "heartbeatSnapshot m s bootID acceptedRevision clockOffset now =
     (let clock = (clockOffset \<le> maxClockOffset \<and> clockOffset \<ge> - maxClockOffset)
      in \<lparr>hb_BootId = bootID, hb_UptimeSeconds = fst (readUptime m), hb_AcceptedRevision = acceptedRevision,
          hb_StateFreeBytes = fst (freeBytes m), hb_ClockOffsetMs = milliseconds clockOffset,
          hb_HealthChecks = [(''local_state'', snd (freeBytes m), errorCode (snd (freeBytes m)) ''STATE_STORAGE_UNAVAILABLE''),
            (''system_clock'', clock, errorCode clock ''CLOCK_SKEW''),
            (''uptime'', snd (readUptime m), errorCode (snd (readUptime m)) ''UPTIME_UNAVAILABLE'')],
          hb_LocalTime = now,
          hb_NextRuns = (case NextRuns 200 s of Inl _ \<Rightarrow> [] | Inr rts \<Rightarrow> map (\<lambda>rt. (uuid_string (rt_PlanID rt), rt_NextRunAt rt)) rts),
          hb_ActiveOperations = (case RunningOperations s of Inl _ \<Rightarrow> []
            | Inr rs \<Rightarrow> map (\<lambda>r. (uuid_string (op_ID r), op_Status r)) rs)\<rparr>)"

definition inventorySnapshot :: "machine \<Rightarrow> string \<Rightarrow> duration \<Rightarrow> time \<Rightarrow> inventory" where
  "inventorySnapshot m version clockOffset now = \<lparr>iv_CapturedAt = now, iv_Kernel = readTrimmed m ''/proc/sys/kernel/osrelease'' 256,
     iv_OsRelease = readOSRelease m, iv_CpuArch = mc_arch m, iv_AgentVersion = version, iv_Containerized = isContainerized m,
     iv_AvailableBytes = [(''agent_state'', fst (freeBytes m))], iv_ClockOffsetMs = milliseconds clockOffset,
     iv_Capabilities = [''certificate_rotation_v1'', ''desired_state_v1'', ''inventory_v1'', ''repository_credentials_v1'', ''repository_identity_v1'']\<rparr>"

subsection \<open>A dispatched job\<close>

definition parse_operation :: "(uuid \<Rightarrow> bool) \<Rightarrow> env \<Rightarrow> string \<Rightarrow> uuid option" where
  "parse_operation valid env text = (case uuid_parse env text of None \<Rightarrow> None | Some i \<Rightarrow> if valid i then Some i else None)"

text \<open>The operation, its plan, its parent and the first attempt; the last two are nil for a job without a parent.\<close>

definition dispatch_ids :: "env \<Rightarrow> job_dispatch \<Rightarrow> stream_error + (uuid \<times> uuid \<times> uuid \<times> uuid)" where
  "dispatch_ids env job =
     (case parse_operation uuid_v7 env (jd_OperationId job) of
        None \<Rightarrow> Inl (InvalidMessage ''job dispatch has an invalid operation id'')
      | Some operationID \<Rightarrow>
     (case parse_operation uuid_v7 env (jd_PlanId job) of
        None \<Rightarrow> Inl (InvalidMessage ''job dispatch has an invalid plan id'')
      | Some plan_id \<Rightarrow>
          if jd_ParentOperationId job = [] then Inr (operationID, plan_id, uuid_nil, uuid_nil)
          else
            (case parse_operation ValidOperationID env (jd_ParentOperationId job) of
               None \<Rightarrow> Inl (InvalidMessage ''job dispatch has an invalid parent id'')
             | Some parentID \<Rightarrow>
            (case parse_operation ValidOperationID env (jd_RootOperationId job) of
               None \<Rightarrow> Inl (InvalidMessage ''job dispatch has an invalid root id'')
             | Some rootID \<Rightarrow> Inr (operationID, plan_id, parentID, rootID)))))"

type_synonym dispatched = "link \<times> worker option \<times> (stream_error + unit)"

definition answer :: "string \<Rightarrow> payload \<Rightarrow> link \<Rightarrow> dispatched" where
  "answer protocol p l = (case send protocol p l of (l', r) \<Rightarrow> (l', None, r))"

definition reject_job :: "string \<Rightarrow> job_dispatch \<Rightarrow> string \<Rightarrow> link \<Rightarrow> dispatched" where
  "reject_job protocol job code l = answer protocol (JobRejected (jd_JobId job) (jd_OperationId job) code) l"

definition accept_job :: "job_dispatch \<Rightarrow> payload" where
  "accept_job job = JobAccepted (jd_JobId job) (jd_OperationId job)"

definition replay_job :: "string \<Rightarrow> job_dispatch \<Rightarrow> uuid \<Rightarrow> operation_record \<Rightarrow> link \<Rightarrow> dispatched" where
  "replay_job protocol job plan_id existing l =
     (if op_PlanID existing \<noteq> plan_id \<or> op_PlanRevision existing \<noteq> jd_PlanRevision job \<or> op_ConfigHash existing \<noteq> jd_ConfigHash job
      then reject_job protocol job ''OPERATION_BINDING_MISMATCH'' l
      else if Terminal existing then (case sendOperationResult protocol existing l of (l', r) \<Rightarrow> (l', None, r))
      else answer protocol (accept_job job) l)"

text \<open>The record of a job that was canceled before it arrived.\<close>

definition canceled_job :: "job_dispatch \<Rightarrow> uuid \<Rightarrow> uuid \<Rightarrow> time \<Rightarrow> time \<Rightarrow> operation_record" where
  "canceled_job job operationID plan_id notBefore now = zero_operation\<lparr>op_ID := operationID, op_PlanID := plan_id,
     op_PlanRevision := jd_PlanRevision job, op_ConfigHash := jd_ConfigHash job,
     op_ScheduledAt := (if is_zero notBefore then now else notBefore), op_StartedAt := now, op_FinishedAt := now,
     op_Status := ''CANCELED'', op_ErrorCode := ''CANCELED''\<rparr>"

definition cancel_job :: "string \<Rightarrow> job_dispatch \<Rightarrow> uuid \<Rightarrow> uuid \<Rightarrow> time \<Rightarrow> link \<Rightarrow> dispatched" where
  "cancel_job protocol job operationID plan_id notBefore l =
     (case read_now (snd l) of (now, c) \<Rightarrow>
      case PutOperation (canceled_job job operationID plan_id notBefore now) (fst l) of
        (s, Inl _) \<Rightarrow> reject_job protocol job ''PERSIST_FAILED'' (s, c)
      | (s, Inr _) \<Rightarrow>
          (case sendOperationResult protocol (canceled_job job operationID plan_id notBefore now) (s, c) of (l', r) \<Rightarrow> (l', None, r)))"

definition job_record :: "job_dispatch \<Rightarrow> plan_schedule \<Rightarrow> uuid \<Rightarrow> uuid \<Rightarrow> uuid \<Rightarrow> time \<Rightarrow> time \<Rightarrow> operation_record" where
  "job_record job plan operationID parentID rootID notBefore now = zero_operation\<lparr>op_ID := operationID, op_PlanID := ps_PlanID plan,
     op_PlanRevision := ps_Revision plan, op_ConfigHash := ps_ConfigHash plan, op_ScheduledAt := notBefore, op_StartedAt := now,
     op_Status := ''RUNNING'', op_ParentOperationID := parentID, op_RootOperationID := rootID, op_Attempt := jd_Attempt job\<rparr>"

text \<open>Whether a running operation keeps the job queued at the server.\<close>

definition no_capacity :: "nat \<Rightarrow> plan_schedule \<Rightarrow> operation_record list \<Rightarrow> bool" where
  "no_capacity maximum plan rs \<longleftrightarrow> uint32_of (length rs) \<ge> maximum \<or>
     list_ex (\<lambda>r. op_PlanID r = ps_PlanID plan \<and> ps_ConcurrencyPolicy plan \<noteq> ''ALLOW'') rs"

definition start_job ::
    "string \<Rightarrow> job_dispatch \<Rightarrow> nat \<Rightarrow> plan_schedule \<Rightarrow> uuid \<Rightarrow> uuid \<Rightarrow> uuid \<Rightarrow> time \<Rightarrow> time \<Rightarrow> link \<Rightarrow> dispatched" where
  "start_job protocol job maximum plan operationID parentID rootID notBefore deadline l =
     (case RunningOperations (fst l) of
        Inl _ \<Rightarrow> reject_job protocol job ''PERSIST_FAILED'' l
      | Inr rs \<Rightarrow>
          if no_capacity maximum plan rs then (l, None, Inr ())
          else
            (case read_now (snd l) of (now, c) \<Rightarrow>
             (let r = job_record job plan operationID parentID rootID notBefore now
              in case PutOperation r (fst l) of
                   (s, Inl _) \<Rightarrow> reject_job protocol job ''PERSIST_FAILED'' (s, c)
                 | (s, Inr _) \<Rightarrow>
                     (case start_worker plan r deadline s of (t, w) \<Rightarrow>
                      case send protocol (accept_job job) (t, c) of (l', x) \<Rightarrow> (l', Some w, x)))))"

text \<open>A job of a plan of the active state, from the check of its times on.\<close>

definition admit_job ::
    "string \<Rightarrow> job_dispatch \<Rightarrow> nat \<Rightarrow> plan_schedule \<Rightarrow> uuid \<Rightarrow> uuid \<Rightarrow> uuid \<Rightarrow> link \<Rightarrow> dispatched" where
  "admit_job protocol job maximum plan operationID parentID rootID l =
     (case (jd_Deadline job, jd_NotBefore job) of
        (Some (Valid deadline), Some (Valid notBefore)) \<Rightarrow>
          (case read_now (snd l) of (now, c) \<Rightarrow>
           if \<not> now < deadline then reject_job protocol job ''DEADLINE_EXCEEDED'' (fst l, c)
           else
             (case read_now c of (now', c') \<Rightarrow>
              if now' < notBefore then ((fst l, c'), None, Inr ())
              else
                (case ConsumeCancel operationID (fst l) of
                   (s, True) \<Rightarrow> cancel_job protocol job operationID (ps_PlanID plan) notBefore (s, c')
                 | (s, False) \<Rightarrow> start_job protocol job maximum plan operationID parentID rootID notBefore deadline (s, c'))))
      | _ \<Rightarrow> reject_job protocol job ''DEADLINE_INVALID'' l)"

definition handleJobDispatch :: "env \<Rightarrow> string \<Rightarrow> job_dispatch \<Rightarrow> link \<Rightarrow> dispatched" where
  "handleJobDispatch env protocol job l =
     (case dispatch_ids env job of
        Inl e \<Rightarrow> (l, None, Inl e)
      | Inr (operationID, plan_id, parentID, rootID) \<Rightarrow>
          if jd_Type job \<noteq> ''BACKUP'' then reject_job protocol job ''TYPE_UNSUPPORTED'' l
          else
            (case Operation operationID (fst l) of
               Inl _ \<Rightarrow> reject_job protocol job ''PERSIST_FAILED'' l
             | Inr (Some existing) \<Rightarrow> replay_job protocol job plan_id existing l
             | Inr None \<Rightarrow>
                 (case ActiveDesiredState (fst l) of
                    Inr (Some desired) \<Rightarrow>
                      (case find (\<lambda>p. ps_PlanID p = plan_id) (ds_Plans desired) of
                         None \<Rightarrow> reject_job protocol job ''PLAN_UNAVAILABLE'' l
                       | Some plan \<Rightarrow>
                           if jd_PlanRevision job \<noteq> ps_Revision plan \<or> jd_ConfigHash job \<noteq> ps_ConfigHash plan
                           then reject_job protocol job ''CONFIG_REVISION_MISMATCH'' l
                           else admit_job protocol job (MaxParallelIOJobs (ds_RuntimePolicy desired)) plan operationID parentID rootID l)
                  | _ \<Rightarrow> reject_job protocol job ''PLAN_UNAVAILABLE'' l)))"

subsection \<open>One connection\<close>

definition validateServerEnvelope :: "env \<Rightarrow> server_message \<Rightarrow> string \<Rightarrow> bool" where
  "validateServerEnvelope env m protocol \<longleftrightarrow> sm_ProtocolVersion m = protocol \<and> (case sm_SentAt m of Some (Valid _) \<Rightarrow> True | _ \<Rightarrow> False) \<and>
     (case uuid_parse env (sm_MessageId m) of None \<Rightarrow> False | Some i \<Rightarrow> uuid_version i = 7)"

definition validateWelcome :: "env \<Rightarrow> server_message \<Rightarrow> int \<Rightarrow> (welcome_message \<times> time) option" where
  "validateWelcome env m acceptedRevision =
     (case sm_Payload m of
        Welcome w \<Rightarrow>
          (case wc_ServerTime w of
             Some (Valid serverTime) \<Rightarrow>
               if wc_HeartbeatIntervalSeconds w < 5 \<or> wc_HeartbeatIntervalSeconds w > 300 \<or> wc_DesiredConfigRevision w < acceptedRevision \<or>
                  (sm_ProtocolVersion m \<noteq> ''1.0'' \<and> sm_ProtocolVersion m \<noteq> ''0.9'') \<or>
                  wc_SelectedProtocolVersion w \<noteq> sm_ProtocolVersion m \<or> sm_Sequence m \<noteq> 1 \<or>
                  \<not> validateServerEnvelope env m (wc_SelectedProtocolVersion w)
               then None else Some (w, serverTime)
           | _ \<Rightarrow> None)
      | _ \<Rightarrow> None)"

definition InstallID :: "env \<Rightarrow> uuid option \<Rightarrow> string option \<Rightarrow> agent \<Rightarrow> agent \<times> (store_error + (string \<times> uuid))" where
  "InstallID env generated value s = db_update (\<lambda>s.
     case value of
       Some v \<Rightarrow> (case uuid_parse env v of None \<Rightarrow> Inl (OtherError ''stored install identity is invalid'') | Some i \<Rightarrow> Inr (s, (v, i)))
     | None \<Rightarrow> (case generated of None \<Rightarrow> Inl (OtherError ''uuid'') | Some i \<Rightarrow> Inr (s, (uuid_string i, i)))) s"

text \<open>What a connection fixes when it is welcomed, and what it changes; \<open>ss_install\<close> is the stored install identity.\<close>

record control =
  ct_identity :: identity
  ct_protocol :: string
  ct_resultAck :: bool
  ct_logAck :: bool
  ct_bootID :: string
  ct_clockOffset :: duration

record stream_state =
  ss_agent :: agent
  ss_conn :: connection
  ss_vault :: vault
  ss_install :: "string option"
  ss_serverSequence :: "64 word"
  ss_rotationPending :: bool
  ss_workers :: "worker list"

record connect_input =
  ci_machine :: machine
  ci_version :: string
  ci_new_install :: "uuid option"
  ci_dial :: bool
  ci_welcome :: "server_message option"

text \<open>The events of the \<open>select\<close>; the timer comes with the signing request, if one could be made, and a message is absent when \<open>Recv\<close> failed.\<close>

datatype stream_event = Stopped | HeartbeatTick | ReportTick | RotationTimer "string option" | Received "server_message option"

definition on_link :: "(link \<Rightarrow> link \<times> (stream_error + unit)) \<Rightarrow> stream_state \<Rightarrow> stream_state \<times> (stream_error + unit)" where
  "on_link f st = (case f (ss_agent st, ss_conn st) of ((s, c), r) \<Rightarrow> (st\<lparr>ss_agent := s, ss_conn := c\<rparr>, r))"

definition send_heartbeat :: "machine \<Rightarrow> control \<Rightarrow> link \<Rightarrow> link \<times> (stream_error + unit)" where
  "send_heartbeat m ct l =
     (case AcceptedRevision (fst l) of
        Inl e \<Rightarrow> (l, Inl (StoreFailed e))
      | Inr revision \<Rightarrow>
          (case read_now (snd l) of (now, c) \<Rightarrow>
           send (ct_protocol ct) (Heartbeat (heartbeatSnapshot m (fst l) (ct_bootID ct) revision (ct_clockOffset ct) now)) (fst l, c)))"

definition send_inventory :: "machine \<Rightarrow> string \<Rightarrow> control \<Rightarrow> link \<Rightarrow> link \<times> (stream_error + unit)" where
  "send_inventory m version ct l =
     (case read_now (snd l) of (now, c) \<Rightarrow>
      send (ct_protocol ct) (InventoryReport (inventorySnapshot m version (ct_clockOffset ct) now)) (fst l, c))"

definition replay_active :: "control \<Rightarrow> link \<Rightarrow> link \<times> (stream_error + unit)" where
  "replay_active ct l =
     (case ActiveDesiredState (fst l) of
        Inl e \<Rightarrow> (l, Inl (StoreFailed e))
      | Inr None \<Rightarrow> (l, Inr ())
      | Inr (Some active) \<Rightarrow> sendConfigResult (ct_protocol ct) (acceptedConfigResult active) l)"

definition replay_pending :: "control \<Rightarrow> int \<Rightarrow> link \<Rightarrow> link \<times> (stream_error + unit)" where
  "replay_pending ct acceptedRevision l =
     (case PendingConfigResult (fst l) of
        Inl e \<Rightarrow> (l, Inl (StoreFailed e))
      | Inr None \<Rightarrow> (l, Inr ())
      | Inr (Some pending) \<Rightarrow>
          and_then (if \<not> cr_Accepted pending \<or> cr_Revision pending \<noteq> acceptedRevision
                    then sendConfigResult (ct_protocol ct) pending l else (l, Inr ()))
            (stored (ClearPendingConfigResult (cr_Revision pending))))"

definition report_all :: "control \<Rightarrow> duration \<Rightarrow> bool \<Rightarrow> link \<Rightarrow> link \<times> (stream_error + unit)" where
  "report_all ct progressInterval force l =
     and_then (reportOperations (ct_protocol ct) progressInterval (ct_resultAck ct) l) (\<lambda>l.
       if ct_logAck ct then reportLogs (ct_protocol ct) force l else (l, Inr ()))"

text \<open>What the Agent sends on its own after the Welcome.\<close>

definition greet :: "connect_input \<Rightarrow> control \<Rightarrow> int \<Rightarrow> link \<Rightarrow> link \<times> (stream_error + unit)" where
  "greet inp ct acceptedRevision l =
     and_then (replay_active ct l) (\<lambda>l.
     and_then (replay_pending ct acceptedRevision l) (\<lambda>l.
     and_then (send_inventory (ci_machine inp) (ci_version inp) ct l) (report_all ct 0 True)))"

definition hello_message :: "connect_input \<Rightarrow> uuid \<Rightarrow> int \<Rightarrow> string list \<Rightarrow> time \<Rightarrow> hello" where
  "hello_message inp installID acceptedRevision pending now = \<lparr>he_InstallId = uuid_string installID, he_BootId = readBootID (ci_machine inp),
     he_AgentVersion = ci_version inp, he_SupportedProtocolVersions = [''1.0'', ''0.9''], he_AcceptedConfigRevision = acceptedRevision,
     he_PendingResultIds = pending,
     he_Capabilities = [''certificate_rotation_v1'', ''desired_state_v1'', ''inventory_v1'', ''repository_credentials_v1'', ''repository_identity_v1'',
       ''job_result_ack_v1'', ''job_cancel_v1'', ''backup_execution_v1'', ''backup_logs_v1''],
     he_LocalTime = now\<rparr>"

text \<open>Up to the Hello: the identity and the accepted revision.\<close>

definition say_hello :: "env \<Rightarrow> crypto \<Rightarrow> connect_input \<Rightarrow> stream_state \<Rightarrow> stream_state \<times> (stream_error + (identity \<times> int))" where
  "say_hello env co inp st =
     (case LoadIdentity (ss_vault st) of
        None \<Rightarrow> (st, Inl (InvalidMessage ''identity''))
      | Some i \<Rightarrow>
     (case InstallID env (ci_new_install inp) (ss_install st) (ss_agent st) of
        (s, Inl e) \<Rightarrow> (st\<lparr>ss_agent := s\<rparr>, Inl (StoreFailed e))
      | (s, Inr (v, installID)) \<Rightarrow>
          (let st' = st\<lparr>ss_agent := s, ss_install := Some v\<rparr>
           in case AcceptedRevision s of
                Inl e \<Rightarrow> (st', Inl (StoreFailed e))
              | Inr revision \<Rightarrow>
                  if TLSIdentity co (ss_vault st) i = None \<or> \<not> ci_dial inp then (st', Inl (InvalidMessage ''dial''))
                  else
                    (case PendingResultIDs 100 s of
                       Inl e \<Rightarrow> (st', Inl (StoreFailed e))
                     | Inr pending \<Rightarrow>
                         (case read_now (ss_conn st) of (now, c) \<Rightarrow>
                          case sendAgentMessage ''1.0'' (Hello (hello_message inp installID revision pending now)) c of
                            (c', Inl e) \<Rightarrow> (st'\<lparr>ss_conn := c'\<rparr>, Inl e)
                          | (c', Inr _) \<Rightarrow> (st'\<lparr>ss_conn := c'\<rparr>, Inr (i, revision)))))))"

text \<open>Up to the loop: the way \<open>connectOnce\<close> returned, with whether it was welcomed, or the connection.\<close>

definition connect_start ::
    "env \<Rightarrow> crypto \<Rightarrow> connect_input \<Rightarrow> stream_state \<Rightarrow> stream_state \<times> ((bool \<times> stream_error option) + control)" where
  "connect_start env co inp st =
     (case say_hello env co inp st of
        (st', Inl e) \<Rightarrow> (st', Inl (False, Some e))
      | (st', Inr (i, revision)) \<Rightarrow>
     (case ci_welcome inp of
        None \<Rightarrow> (st', Inl (False, Some SendFailed))
      | Some m \<Rightarrow>
     (case validateWelcome env m revision of
        None \<Rightarrow> (st', Inl (False, Some (InvalidMessage ''invalid Welcome'')))
      | Some (w, serverTime) \<Rightarrow>
          (case read_now (ss_conn st') of (now, c) \<Rightarrow>
           (let ct = \<lparr>ct_identity = i, ct_protocol = wc_SelectedProtocolVersion w,
                  ct_resultAck = (''job_result_ack_v1'' \<in> set (wc_ServerCapabilities w)),
                  ct_logAck = (''backup_logs_v1'' \<in> set (wc_ServerCapabilities w)), ct_bootID = readBootID (ci_machine inp),
                  ct_clockOffset = time_sub serverTime now\<rparr>
            in case on_link (greet inp ct revision) (st'\<lparr>ss_conn := c, ss_serverSequence := sm_Sequence m, ss_rotationPending := False\<rparr>) of
                 (t, Inl e) \<Rightarrow> (t, Inl (True, Some e))
               | (t, Inr _) \<Rightarrow> (t, Inr ct))))))"

definition receive_credential :: "crypto \<Rightarrow> control \<Rightarrow> credential_message \<Rightarrow> stream_state \<Rightarrow> stream_state \<times> (stream_error + unit)" where
  "receive_credential co ct m st =
     (case ApplyRepositoryCredential co (ct_identity ct) (Some m) (ss_vault st) of
        (v, None) \<Rightarrow> (st\<lparr>ss_vault := v\<rparr>, Inl (InvalidMessage ''repository credential''))
      | (v, Some (delivery, revision)) \<Rightarrow>
          on_link (send (ct_protocol ct) (CredentialRevisionAccepted delivery revision)) (st\<lparr>ss_vault := v\<rparr>))"

definition receive_snapshot :: "env \<Rightarrow> control \<Rightarrow> snapshot \<Rightarrow> link \<Rightarrow> link \<times> (stream_error + unit)" where
  "receive_snapshot env ct sn l =
     (case read_now (snd l) of (now, c) \<Rightarrow>
      case ApplyDesiredState env now (id_AgentID (ct_identity ct)) (Some sn) (fst l) of
        (s, Inl e) \<Rightarrow> ((s, c), Inl (ApplyFailed e))
      | (s, Inr result) \<Rightarrow>
          and_then (sendConfigResult (ct_protocol ct) result (s, c)) (stored (ClearPendingConfigResult (cr_Revision result))))"

definition receive_dispatch :: "env \<Rightarrow> control \<Rightarrow> job_dispatch \<Rightarrow> stream_state \<Rightarrow> stream_state \<times> (stream_error + unit)" where
  "receive_dispatch env ct job st =
     (case handleJobDispatch env (ct_protocol ct) job (ss_agent st, ss_conn st) of
        ((s, c), w, r) \<Rightarrow>
          (st\<lparr>ss_agent := s, ss_conn := c, ss_workers := ss_workers st @ (case w of None \<Rightarrow> [] | Some x \<Rightarrow> [x])\<rparr>, r))"

definition receive_cancel :: "env \<Rightarrow> control \<Rightarrow> string \<Rightarrow> link \<Rightarrow> link \<times> (stream_error + unit)" where
  "receive_cancel env ct text l =
     (case uuid_parse env text of
        None \<Rightarrow> (l, Inl (InvalidMessage ''job cancel has an invalid operation id''))
      | Some i \<Rightarrow> send (ct_protocol ct) (JobCancelAccepted (uuid_string i)) (fst (CancelOperation i (fst l)), snd l))"

definition receive_result_ack :: "env \<Rightarrow> string \<Rightarrow> link \<Rightarrow> link \<times> (stream_error + unit)" where
  "receive_result_ack env text l =
     (case uuid_parse env text of
        None \<Rightarrow> (l, Inl (InvalidMessage ''job result ack has an invalid operation id''))
      | Some i \<Rightarrow> stored (MarkOperationUploaded i) l)"

definition receive_log_ack :: "env \<Rightarrow> sweep \<Rightarrow> control \<Rightarrow> string \<Rightarrow> nat \<Rightarrow> link \<Rightarrow> link \<times> (stream_error + unit)" where
  "receive_log_ack env sweep ct text through l =
     (case uuid_parse env text of
        None \<Rightarrow> (l, Inl (InvalidMessage ''invalid log acknowledgement''))
      | Some i \<Rightarrow>
          if \<not> ct_logAck ct then (l, Inl (InvalidMessage ''invalid log acknowledgement''))
          else stored (acknowledgeLogs sweep i through) l)"

definition receive_payload ::
    "env \<Rightarrow> crypto \<Rightarrow> sweep \<Rightarrow> control \<Rightarrow> server_payload \<Rightarrow> stream_state \<Rightarrow> stream_state \<times> (stream_error + unit)" where
  "receive_payload env co sweep ct p st =
     (case p of
        CredentialRevision m \<Rightarrow> receive_credential co ct m st
      | DesiredStateSnapshot sn \<Rightarrow> on_link (receive_snapshot env ct sn) st
      | JobDispatch job \<Rightarrow> receive_dispatch env ct job st
      | JobCancel text \<Rightarrow> on_link (receive_cancel env ct text) st
      | JobResultAccepted text \<Rightarrow> on_link (receive_result_ack env text) st
      | JobLogAccepted text through \<Rightarrow> on_link (receive_log_ack env sweep ct text through) st
      | _ \<Rightarrow> (st, Inr ()))"

text \<open>
  An event of the loop: \<open>None\<close> when the loop goes on, otherwise the error \<open>connectOnce\<close> returns, if any. A rotation response that was asked
  for ends the connection, so that the next one uses the new certificate.
\<close>

definition goes_on :: "stream_state \<times> (stream_error + unit) \<Rightarrow> stream_state \<times> stream_error option option" where
  "goes_on r = (case r of (st, Inl e) \<Rightarrow> (st, Some (Some e)) | (st, Inr _) \<Rightarrow> (st, None))"

definition receive_message ::
    "env \<Rightarrow> crypto \<Rightarrow> sweep \<Rightarrow> control \<Rightarrow> server_message \<Rightarrow> stream_state \<Rightarrow> stream_state \<times> stream_error option option" where
  "receive_message env co sweep ct m st =
     (if \<not> validateServerEnvelope env m (ct_protocol ct) then (st, Some (Some (InvalidMessage ''envelope'')))
      else if sm_Sequence m \<le> ss_serverSequence st then (st, None)
      else if sm_Sequence m \<noteq> ss_serverSequence st + 1 then (st, Some (Some (InvalidMessage ''server message sequence gap'')))
      else
        (let st' = st\<lparr>ss_serverSequence := sm_Sequence m\<rparr>
         in case sm_Payload m of
              CertificateRotationResponse rotated \<Rightarrow>
                if ss_rotationPending st
                then (case saveRotation co (ct_identity ct) rotated (ss_vault st') of
                        (v, ok) \<Rightarrow> (st'\<lparr>ss_vault := v\<rparr>, Some (if ok then None else Some (InvalidMessage ''rotation''))))
                else (st', None)
            | p \<Rightarrow> goes_on (receive_payload env co sweep ct p st')))"

definition event_step ::
    "env \<Rightarrow> crypto \<Rightarrow> sweep \<Rightarrow> machine \<Rightarrow> control \<Rightarrow> stream_event \<Rightarrow> stream_state \<Rightarrow> stream_state \<times> stream_error option option" where
  "event_step env co sweep m ct ev st =
     (case ev of
        Stopped \<Rightarrow> (st, Some None)
      | HeartbeatTick \<Rightarrow> goes_on (on_link (send_heartbeat m ct) st)
      | ReportTick \<Rightarrow> goes_on (on_link (report_all ct (seconds 5) False) st)
      | RotationTimer csr \<Rightarrow>
          (case csr of
             None \<Rightarrow> (st, Some (Some (InvalidMessage ''key'')))
           | Some text \<Rightarrow>
               (case on_link (send (ct_protocol ct) (CertificateRotationRequest text)) st of
                  (t, Inl e) \<Rightarrow> (t, Some (Some e))
                | (t, Inr _) \<Rightarrow> (t\<lparr>ss_rotationPending := True\<rparr>, None)))
      | Received None \<Rightarrow> (st, Some (Some SendFailed))
      | Received (Some msg) \<Rightarrow> receive_message env co sweep ct msg st)"

text \<open>The loop over the events taken; \<open>None\<close> while the connection lasts.\<close>

fun stream_loop ::
    "env \<Rightarrow> crypto \<Rightarrow> sweep \<Rightarrow> machine \<Rightarrow> control \<Rightarrow> stream_event list \<Rightarrow> stream_state \<Rightarrow> stream_state \<times> stream_error option option" where
  "stream_loop env co sweep m ct [] st = (st, None)"
| "stream_loop env co sweep m ct (ev # evs) st =
     (case event_step env co sweep m ct ev st of
        (t, Some e) \<Rightarrow> (t, Some e)
      | (t, None) \<Rightarrow> stream_loop env co sweep m ct evs t)"

definition connectOnce ::
    "env \<Rightarrow> crypto \<Rightarrow> sweep \<Rightarrow> connect_input \<Rightarrow> stream_event list \<Rightarrow> stream_state \<Rightarrow> stream_state \<times> (bool \<times> stream_error option) option" where
  "connectOnce env co sweep inp evs st =
     (case connect_start env co inp st of
        (t, Inl r) \<Rightarrow> (t, Some r)
      | (t, Inr ct) \<Rightarrow>
          (case stream_loop env co sweep (ci_machine inp) ct evs t of (u, e) \<Rightarrow> (u, map_option (Pair True) e)))"

subsection \<open>Reconnecting\<close>

definition stableConnection :: duration where
  "stableConnection = minute"

text \<open>The delay after a connection of the given length, and before the next one.\<close>

definition delay_after :: "bool \<Rightarrow> duration \<Rightarrow> duration \<Rightarrow> duration" where
  "delay_after welcomed elapsed delay = (if welcomed \<and> elapsed \<ge> stableConnection then second else delay)"

definition next_delay :: "duration \<Rightarrow> duration" where
  "next_delay delay =
     (if delay < 5 * minute then (if delay * 2 > 5 * minute then 5 * minute else delay * 2) else delay)"

end
