(* ===== verification/Stream_Contract.thy ===== *)
theory Stream_Contract
  imports Agent_Stream
begin

text \<open>
  What the control stream promises. Every action of a connection sends messages and changes the store in a few ways only; the locale
  \<open>link_contract\<close> states what an invariant has to stand (a message, a reading of the clock, a new operation, the marks of a report), and
  shows that then every action of \<open>client_stream.go\<close> and \<open>report.go\<close> keeps it. Three invariants are interpreted: the numbering of the
  messages, the results that wait for their acknowledgement, and the jobs that were accepted.
\<close>

section \<open>What the actions leave alone\<close>

text \<open>Operations of the store that leave the operation records alone.\<close>

named_theorems keeps_operations

lemma updateLogState_operations [keeps_operations]: "operations (fst (updateLogState i f s)) = operations s"
  unfolding updateLogState_def by (rule db_update_inv[where P = "\<lambda>t. operations t = operations s"]) (auto split: option.splits cell.splits sum.splits)

lemma markLogsSent_operations [keeps_operations]: "operations (fst (markLogsSent i n now s)) = operations s"
  by (simp add: markLogsSent_def keeps_operations)

lemma acknowledgeLogs_operations [keeps_operations]: "operations (fst (acknowledgeLogs sweep i n s)) = operations s"
  by (simp add: acknowledgeLogs_def keeps_operations)

lemma ClearPending_operations [keeps_operations]: "operations (fst (ClearPendingConfigResult n s)) = operations s"
  unfolding ClearPendingConfigResult_def
  by (rule db_update_inv[where P = "\<lambda>t. operations t = operations s"]) (auto split: option.splits cell.splits if_splits)

lemma InstallID_operations [keeps_operations]: "operations (fst (InstallID env g v s)) = operations s"
  unfolding InstallID_def by (rule db_update_inv[where P = "\<lambda>t. operations t = operations s"]) (auto split: option.splits)

lemma CancelOperation_operations [keeps_operations]: "operations (fst (CancelOperation i s)) = operations s"
  by (simp add: CancelOperation_def)

lemma ConsumeCancel_operations [keeps_operations]: "operations (fst (ConsumeCancel i s)) = operations s"
  by (simp add: ConsumeCancel_def)

lemma BeginOperation_operations [keeps_operations]: "operations (BeginOperation i s) = operations s"
  by (simp add: BeginOperation_def)

lemma ApplyDesiredState_operations [keeps_operations]: "operations (fst (ApplyDesiredState env now i sn s)) = operations s"
  using Apply_cases[of env now i sn s] by (cases "ApplyDesiredState env now i sn s") (auto simp: unchanged_def activated_def)

section \<open>Running a chain of calls\<close>

definition settled :: "('s \<Rightarrow> bool) \<Rightarrow> ('s \<Rightarrow> bool) \<Rightarrow> 's \<times> ('e + unit) \<Rightarrow> bool" where
  "settled I J m \<longleftrightarrow> (case m of (s, Inl _) \<Rightarrow> J s | (s, Inr _) \<Rightarrow> I s)"

lemma settled_simps [simp]: "settled I J (s, Inl e) = J s" "settled I J (s, Inr u) = I s"
  by (simp_all add: settled_def)

lemma settled_then: "settled I J m \<Longrightarrow> (\<And>s. I s \<Longrightarrow> settled I J (k s)) \<Longrightarrow> settled I J (and_then m k)"
  by (cases m; cases "snd m") (auto simp: and_then_def)

lemma settled_cases:
  assumes "settled I J m"
  obtains (stopped) s e where "m = (s, Inl e)" "J s" | (finished) s where "m = (s, Inr ())" "I s"
  using assms by (cases m; cases "snd m") auto

lemma settled_out: "settled I J m \<Longrightarrow> (\<And>s. I s \<Longrightarrow> J s) \<Longrightarrow> J (fst m)"
  by (auto simp: settled_def split: prod.splits sum.splits)

text \<open>The messages that may be sent at any time: the Hello opens a connection, and an acceptance needs a stored operation.\<close>

definition routine :: "payload \<Rightarrow> bool" where
  "routine p = (case p of Hello _ \<Rightarrow> False | JobAccepted _ _ \<Rightarrow> False | _ \<Rightarrow> True)"

lemma routine_simps [simp]:
  "routine (CertificateRotationRequest a)" "routine (Heartbeat h)" "routine (InventoryReport v)" "routine (ConfigAccepted n a)"
  "routine (ConfigRejected n a b)" "routine (CredentialRevisionAccepted i n)" "routine (JobRejected a b d)" "routine (JobLogChunk a x y b)"
  "routine (JobProgress p)" "routine (JobResult r)" "routine (JobCancelAccepted a)" "\<not> routine (Hello e)" "\<not> routine (JobAccepted a b)"
  by (simp_all add: routine_def)

text \<open>The acknowledgements of results that are allowed to arrive.\<close>

definition acks_within :: "env \<Rightarrow> (uuid \<Rightarrow> bool) \<Rightarrow> stream_event \<Rightarrow> bool" where
  "acks_within env may ev =
     (case ev of
        Received (Some m) \<Rightarrow>
          (case sm_Payload m of
             JobResultAccepted text \<Rightarrow> (case uuid_parse env text of None \<Rightarrow> True | Some i \<Rightarrow> may i)
           | _ \<Rightarrow> True)
      | _ \<Rightarrow> True)"

definition link_of :: "stream_state \<Rightarrow> link" where
  "link_of st = (ss_agent st, ss_conn st)"

lemma link_of_simps [simp]:
  "link_of (st\<lparr>ss_vault := v\<rparr>) = link_of st" "link_of (st\<lparr>ss_serverSequence := n\<rparr>) = link_of st"
  "link_of (st\<lparr>ss_rotationPending := b\<rparr>) = link_of st" "link_of (st\<lparr>ss_workers := ws\<rparr>) = link_of st"
  "link_of (st\<lparr>ss_agent := s, ss_conn := c\<rparr>) = (s, c)"
  by (simp_all add: link_of_def)

section \<open>The contract of an invariant\<close>

locale link_contract =
  fixes env :: env
    and ct :: control
    and may :: "uuid \<Rightarrow> bool"
    and Inv :: "link \<Rightarrow> bool"
    and Out :: "link \<Rightarrow> bool"
  assumes inv_out: "Inv l \<Longrightarrow> Out l"
    and clock: "Inv (s, c) \<Longrightarrow> Inv (s, snd (read_now c))"
    and sends: "Inv l \<Longrightarrow> routine p \<Longrightarrow> settled Inv Out (send (ct_protocol ct) p l)"
    and accepts: "Inv l \<Longrightarrow> uuid_parse env text = Some i \<Longrightarrow> bget (operations (fst l)) i \<noteq> None \<Longrightarrow>
      settled Inv Out (send (ct_protocol ct) (JobAccepted job text) l)"
    and keeps: "Inv (s, c) \<Longrightarrow> operations t = operations s \<Longrightarrow> Inv (t, c)"
    and adds: "Inv (s, c) \<Longrightarrow> bget (operations s) (op_ID r) = None \<Longrightarrow>
      operations t = bput (operations s) (op_ID r) (Valid r) \<Longrightarrow> Inv (t, c)"
    and reported: "Inv (s, c) \<Longrightarrow> Inv (fst (markOperationReported i now s), c)"
    and acknowledged: "ct_resultAck ct \<or> may i"
    and uploaded: "Inv (s, c) \<Longrightarrow> may i \<Longrightarrow> Inv (fst (MarkOperationUploaded i s), c)"
begin

lemma clock_link: "Inv l \<Longrightarrow> read_now (snd l) = (now, c) \<Longrightarrow> Inv (fst l, c)"
  using clock[of "fst l" "snd l"] by simp

lemma clock_pair: "Inv (s, c) \<Longrightarrow> read_now c = (now, d) \<Longrightarrow> Inv (s, d)"
  using clock[of s c] by simp

lemma stored_settled: "Inv (fst (f (fst l)), snd l) \<Longrightarrow> settled Inv Out (stored f l)"
  using inv_out by (auto simp: stored_def settled_def split: prod.splits sum.splits)

lemma stored_keeps: "Inv l \<Longrightarrow> operations (fst (f (fst l))) = operations (fst l) \<Longrightarrow> settled Inv Out (stored f l)"
  by (rule stored_settled) (metis keeps prod.collapse)

lemma nothing [simp]: "Inv l \<Longrightarrow> settled Inv Out (l, x)"
  using inv_out by (cases x) auto

lemma config_result: "Inv l \<Longrightarrow> settled Inv Out (sendConfigResult (ct_protocol ct) r l)"
  by (simp add: sendConfigResult_def sends inv_out)

lemma operation_result: "Inv l \<Longrightarrow> settled Inv Out (sendOperationResult (ct_protocol ct) r l)"
  by (simp add: sendOperationResult_def sends inv_out)

lemma mark_reported: "Inv l \<Longrightarrow> settled Inv Out (mark_reported i l)"
  using reported by (auto simp: mark_reported_def split: prod.splits intro!: stored_settled dest: clock_link)

lemma report_record:
  assumes "Inv l"
  shows "settled Inv Out (report_record (ct_protocol ct) (ct_resultAck ct) r l)"
proof (cases "Terminal r")
  case True
  have "settled Inv Out (if ct_resultAck ct then (k, Inr ()) else stored (MarkOperationUploaded (op_ID r)) k)" if "Inv k" for k
    using that acknowledged[of "op_ID r"] uploaded[of "fst k" "snd k"] by (auto intro: stored_settled)
  with True assms(1) show ?thesis
    by (auto simp: report_record_def intro!: settled_then operation_result mark_reported)
next
  case False
  obtain now c observed d where c: "read_now (snd l) = (now, c)" "read_now c = (observed, d)" by fastforce
  with clock_link[OF assms(1)] clock_pair have "Inv (fst l, d)" by blast
  with False c show ?thesis
    by (auto simp: report_record_def intro!: settled_then sends mark_reported)
qed

lemma report_records: "Inv l \<Longrightarrow> settled Inv Out (report_records (ct_protocol ct) (ct_resultAck ct) rs l)"
  by (induction rs arbitrary: l) (auto intro!: settled_then report_record)

lemma reports: "Inv l \<Longrightarrow> settled Inv Out (reportOperations (ct_protocol ct) interval (ct_resultAck ct) l)"
  by (auto simp: reportOperations_def inv_out split: prod.splits sum.splits intro!: report_records nothing dest: clock_link)

lemma chunk: "Inv l \<Longrightarrow> settled Inv Out (report_chunk (ct_protocol ct) k l)"
  unfolding report_chunk_def
  by (rule settled_then, simp add: sends) (auto split: prod.splits simp: keeps_operations intro!: stored_keeps dest: clock_pair)

lemma chunks: "Inv l \<Longrightarrow> settled Inv Out (report_chunks (ct_protocol ct) ks l)"
  by (induction ks arbitrary: l) (auto intro!: settled_then chunk)

lemma logs: "Inv l \<Longrightarrow> settled Inv Out (reportLogs (ct_protocol ct) force l)"
  by (auto simp: reportLogs_def inv_out split: prod.splits sum.splits intro!: chunks nothing dest: clock_link)

text \<open>What a connection sends on its own.\<close>

lemma heartbeat: "Inv l \<Longrightarrow> settled Inv Out (send_heartbeat m ct l)"
  by (auto simp: send_heartbeat_def inv_out split: prod.splits sum.splits intro!: sends dest: clock_link)

lemma inventory: "Inv l \<Longrightarrow> settled Inv Out (send_inventory m v ct l)"
  by (auto simp: send_inventory_def split: prod.splits intro!: sends dest: clock_link)

lemma active: "Inv l \<Longrightarrow> settled Inv Out (replay_active ct l)"
  by (auto simp: replay_active_def inv_out split: sum.splits option.splits intro!: config_result)

lemma clear_pending: "Inv l \<Longrightarrow> settled Inv Out (stored (ClearPendingConfigResult n) l)"
  by (rule stored_keeps) (simp_all add: keeps_operations)

lemma pending: "Inv l \<Longrightarrow> settled Inv Out (replay_pending ct n l)"
  by (auto simp: replay_pending_def inv_out split: sum.splits option.splits intro!: settled_then config_result clear_pending)

lemma all_reports: "Inv l \<Longrightarrow> settled Inv Out (report_all ct interval force l)"
  by (auto simp: report_all_def intro!: settled_then reports logs)

lemma greeting: "Inv l \<Longrightarrow> settled Inv Out (greet inp ct n l)"
  unfolding greet_def by (intro settled_then active pending inventory all_reports)

text \<open>A dispatched job: the settled link, whether or not a worker was started.\<close>

lemma answered:
  "settled Inv Out (fst (answer (ct_protocol ct) p l), snd (snd (answer (ct_protocol ct) p l))) = settled Inv Out (send (ct_protocol ct) p l)"
  by (simp add: answer_def split: prod.splits)

lemma rejected: "Inv l \<Longrightarrow> reject_job (ct_protocol ct) job code l = (l', w, x) \<Longrightarrow> settled Inv Out (l', x)"
  using answered[of "JobRejected (jd_JobId job) (jd_OperationId job) code" l] by (simp add: reject_job_def sends)

lemma replayed:
  assumes "Inv l" "replay_job (ct_protocol ct) job plan_id r l = (l', w, x)"
    and "uuid_parse env (jd_OperationId job) = Some i" "bget (operations (fst l)) i \<noteq> None"
  shows "settled Inv Out (l', x)"
  using assms operation_result[OF assms(1), of r] answered[of "accept_job job" l] accepts[OF assms(1,3,4), of "jd_JobId job"]
  by (auto simp: replay_job_def accept_job_def rejected split: if_splits prod.splits)

lemma canceled_before:
  assumes "Inv l" "cancel_job (ct_protocol ct) job i plan_id notBefore l = (l', w, x)" "bget (operations (fst l)) i = None"
  shows "settled Inv Out (l', x)"
proof -
  obtain now c where c: "read_now (snd l) = (now, c)" by fastforce
  let ?r = "canceled_job job i plan_id notBefore now"
  have i: "op_ID ?r = i" by (simp add: canceled_job_def)
  obtain s y where p: "PutOperation ?r (fst l) = (s, y)" by fastforce
  from PutOperation_cases[OF p] adds[OF clock_link[OF assms(1) c], of ?r s] keeps[OF clock_link[OF assms(1) c], of s] assms(3) i
  have "Inv (s, c)" by (cases y) auto
  with assms(2) c p operation_result[of "(s, c)" ?r] show ?thesis
    by (cases y) (auto simp: cancel_job_def rejected split: prod.splits)
qed

lemma started:
  assumes "Inv l" "start_job (ct_protocol ct) job maximum plan i parent root notBefore deadline l = (l', w, x)" "bget (operations (fst l)) i = None"
    and "uuid_parse env (jd_OperationId job) = Some i"
  shows "settled Inv Out (l', x)"
proof -
  obtain now c where c: "read_now (snd l) = (now, c)" by fastforce
  let ?r = "job_record job plan i parent root notBefore now"
  have i: "op_ID ?r = i" by (simp add: job_record_def)
  obtain s y where p: "PutOperation ?r (fst l) = (s, y)" by fastforce
  show ?thesis
  proof (cases y)
    case (Inl e)
    with PutOperation_cases[OF p] keeps[OF clock_link[OF assms(1) c], of s] have "Inv (s, c)" by simp
    with assms(1,2) c p Inl show ?thesis
      by (auto simp: start_job_def Let_def rejected split: prod.splits sum.splits if_splits)
  next
    case (Inr u)
    with PutOperation_cases[OF p] adds[OF clock_link[OF assms(1) c], of ?r s] assms(3) i
    have v: "Inv (s, c)" "bget (operations s) i \<noteq> None" using bget_bput_same[of "operations (fst l)" i] by auto
    have "Inv (BeginOperation i s, c)" by (rule keeps[OF v(1)]) (simp add: keeps_operations)
    with v(2) have "settled Inv Out (send (ct_protocol ct) (accept_job job) (BeginOperation i s, c))"
      using accepts[OF _ assms(4)] by (auto simp: accept_job_def keeps_operations)
    with assms(1,2) c p Inr i show ?thesis
      by (auto simp: start_job_def Let_def rejected start_worker_def split: prod.splits sum.splits if_splits)
  qed
qed

lemma admitted:
  assumes "Inv l" "admit_job (ct_protocol ct) job maximum plan i parent root l = (l', w, x)" "bget (operations (fst l)) i = None"
    and "uuid_parse env (jd_OperationId job) = Some i"
  shows "settled Inv Out (l', x)"
proof -
  obtain now c now' d where c: "read_now (snd l) = (now, c)" "read_now c = (now', d)" by fastforce
  note ic = clock_link[OF assms(1) c(1)] and id = clock_pair[OF clock_link[OF assms(1) c(1)] c(2)]
  obtain s b where s: "ConsumeCancel i (fst l) = (s, b)" by fastforce
  have os: "operations s = operations (fst l)" using ConsumeCancel_operations[of i "fst l"] s by simp
  have "Inv (s, d)" by (rule keeps[OF id os])
  with assms os s c ic id show ?thesis
    by (auto simp: admit_job_def split: if_splits option.splits cell.splits bool.splits intro: rejected canceled_before[of "(s, d)"] started[of "(s, d)"])
qed

lemma dispatched:
  assumes "Inv l" "handleJobDispatch env (ct_protocol ct) job l = (l', w, x)"
  shows "settled Inv Out (l', x)"
proof (cases "dispatch_ids env job")
  case (Inl e)
  with assms show ?thesis by (simp add: handleJobDispatch_def inv_out)
next
  case (Inr ids)
  obtain i plan_id parent root where ids: "ids = (i, plan_id, parent, root)" by (cases ids)
  from Inr ids have p: "uuid_parse env (jd_OperationId job) = Some i"
    by (auto simp: dispatch_ids_def parse_operation_def split: option.splits if_splits)
  show ?thesis
  proof (cases "Operation i (fst l)")
    case (Inr o)
    with assms p \<open>dispatch_ids env job = Inr ids\<close> ids show ?thesis
      by (auto simp: handleJobDispatch_def Operation_def split: if_splits option.splits sum.splits cell.splits
          intro: rejected replayed admitted)
  qed (use assms \<open>dispatch_ids env job = Inr ids\<close> ids in \<open>auto simp: handleJobDispatch_def split: if_splits intro: rejected\<close>)
qed

text \<open>The events of the loop.\<close>

lemma linked:
  assumes "settled Inv Out (f (link_of st))"
  shows "settled (\<lambda>st. Inv (link_of st)) (\<lambda>st. Out (link_of st)) (on_link f st)"
  using assms by (auto simp: on_link_def link_of_def settled_def split: prod.splits sum.splits)

lemma snapshot: "Inv l \<Longrightarrow> settled Inv Out (receive_snapshot env ct sn l)"
proof -
  assume l: "Inv l"
  obtain now c where c: "read_now (snd l) = (now, c)" by fastforce
  obtain s x where a: "ApplyDesiredState env now (id_AgentID (ct_identity ct)) (Some sn) (fst l) = (s, x)" by fastforce
  have "operations s = operations (fst l)"
    using ApplyDesiredState_operations[of env now "id_AgentID (ct_identity ct)" "Some sn" "fst l"] a by simp
  with keeps[OF clock_link[OF l c]] have "Inv (s, c)" by blast
  with a c show ?thesis
    by (cases x) (auto simp: receive_snapshot_def inv_out intro!: settled_then config_result clear_pending)
qed

lemma cancel: "Inv l \<Longrightarrow> settled Inv Out (receive_cancel env ct text l)"
  using keeps[of "fst l" "snd l"] by (auto simp: receive_cancel_def keeps_operations inv_out intro!: sends split: option.splits)

lemma result_ack:
  "Inv l \<Longrightarrow> (\<And>i. uuid_parse env text = Some i \<Longrightarrow> may i) \<Longrightarrow> settled Inv Out (receive_result_ack env text l)"
  using uploaded[of "fst l" "snd l"] by (auto simp: receive_result_ack_def inv_out intro!: stored_settled split: option.splits)

lemma log_ack: "Inv l \<Longrightarrow> settled Inv Out (receive_log_ack env sweep ct text n l)"
  by (auto simp: receive_log_ack_def keeps_operations inv_out intro!: stored_keeps split: option.splits)

lemma payload:
  assumes "Inv (link_of st)" "\<And>text i. p = JobResultAccepted text \<Longrightarrow> uuid_parse env text = Some i \<Longrightarrow> may i"
  shows "settled (\<lambda>st. Inv (link_of st)) (\<lambda>st. Out (link_of st)) (receive_payload env co sweep ct p st)"
proof (cases p)
  case (CredentialRevision m)
  obtain v x where v: "ApplyRepositoryCredential co (ct_identity ct) (Some m) (ss_vault st) = (v, x)" by fastforce
  with assms(1) show ?thesis
    by (cases x) (auto simp: receive_payload_def CredentialRevision receive_credential_def inv_out intro!: linked sends)
next
  case (JobDispatch job)
  obtain s c w x where d: "handleJobDispatch env (ct_protocol ct) job (link_of st) = ((s, c), w, x)" by (metis prod.exhaust)
  with dispatched[OF assms(1) d] show ?thesis
    by (cases x) (simp_all add: receive_payload_def JobDispatch receive_dispatch_def flip: link_of_def)
next
  case (JobResultAccepted t)
  with assms show ?thesis by (auto simp: receive_payload_def intro!: linked result_ack)
qed (use assms(1) in \<open>auto simp: receive_payload_def intro!: linked snapshot cancel log_ack\<close>)

text \<open>After a step the loop goes on with the invariant, or has ended.\<close>

definition outcome_settled :: "stream_state \<times> 'r option \<Rightarrow> bool" where
  "outcome_settled r \<longleftrightarrow> (case r of (t, None) \<Rightarrow> Inv (link_of t) | (t, Some _) \<Rightarrow> Out (link_of t))"

lemma outcome_settled_simps [simp]:
  "outcome_settled (t, None) = Inv (link_of t)" "outcome_settled (t, Some e) = Out (link_of t)"
  by (simp_all add: outcome_settled_def)

lemma continued: "settled (\<lambda>st. Inv (link_of st)) (\<lambda>st. Out (link_of st)) r \<Longrightarrow> outcome_settled (goes_on r)"
  by (auto simp: outcome_settled_def goes_on_def settled_def split: prod.splits sum.splits)

lemma message:
  assumes i: "Inv (link_of st)" and m: "acks_within env may (Received (Some m))"
  shows "outcome_settled (receive_message env co sweep ct m st)"
proof -
  let ?st = "st\<lparr>ss_serverSequence := sm_Sequence m\<rparr>"
  have "outcome_settled (goes_on (receive_payload env co sweep ct (sm_Payload m) ?st))"
    using i m by (intro continued payload) (auto simp: acks_within_def)
  with i show ?thesis
    by (auto simp: receive_message_def outcome_settled_def Let_def inv_out split: server_payload.splits prod.splits if_splits)
qed

lemma step:
  assumes i: "Inv (link_of st)" and m: "acks_within env may ev"
  shows "outcome_settled (event_step env co sweep m ct ev st)"
proof (cases ev)
  case (RotationTimer csr)
  show ?thesis
  proof (cases csr)
    case (Some t)
    have "settled (\<lambda>st. Inv (link_of st)) (\<lambda>st. Out (link_of st)) (on_link (send (ct_protocol ct) (CertificateRotationRequest t)) st)"
      using i by (intro linked sends) auto
    then show ?thesis
      by (cases rule: settled_cases) (simp_all add: RotationTimer Some event_step_def outcome_settled_def)
  qed (use i in \<open>simp add: RotationTimer event_step_def outcome_settled_def inv_out\<close>)
next
  case (Received msg)
  show ?thesis
  proof (cases msg)
    case (Some x)
    with assms Received message[OF i, of x] show ?thesis by (simp add: event_step_def)
  qed (use i Received in \<open>simp add: event_step_def outcome_settled_def inv_out\<close>)
qed (use i in \<open>auto simp: event_step_def inv_out intro!: continued linked heartbeat all_reports\<close>)

lemma loop:
  "Inv (link_of st) \<Longrightarrow> list_all (acks_within env may) evs \<Longrightarrow> outcome_settled (stream_loop env co sweep m ct evs st)"
proof (induction evs arbitrary: st)
  case (Cons ev evs)
  then have o: "outcome_settled (event_step env co sweep m ct ev st)" by (intro step) auto
  obtain t x where t: "event_step env co sweep m ct ev st = (t, x)" by fastforce
  show ?case
  proof (cases x)
    case None
    with o t have "Inv (link_of t)" by (simp add: outcome_settled_def)
    from Cons.IH[OF this] Cons.prems t None show ?thesis by simp
  next
    case (Some e)
    with o t show ?thesis by (simp add: outcome_settled_def)
  qed
qed (simp add: outcome_settled_def)

end

end
