(* ===== verification/Stream_Properties.thy ===== *)
theory Stream_Properties
  imports Stream_Contract
begin

text \<open>
  The properties of a connection of the Agent: the interpretations of \<open>link_contract\<close> and the theorems they give for \<open>connectOnce\<close>, and what
  \<open>handleJobDispatch\<close> admits.
\<close>

section \<open>A whole connection\<close>

definition wants_ack :: "connect_input \<Rightarrow> bool" where
  "wants_ack inp = (case ci_welcome inp of
     Some m \<Rightarrow> (case sm_Payload m of Welcome w \<Rightarrow> ''job_result_ack_v1'' \<in> set (wc_ServerCapabilities w) | _ \<Rightarrow> False) | None \<Rightarrow> False)"

text \<open>The server's Welcome selected the version.\<close>

definition selected :: "connect_input \<Rightarrow> string \<Rightarrow> bool" where
  "selected inp protocol \<longleftrightarrow> (\<exists>m w. ci_welcome inp = Some m \<and> sm_Payload m = Welcome w \<and> protocol = wc_SelectedProtocolVersion w \<and>
     sm_ProtocolVersion m = protocol \<and> (protocol = ''1.0'' \<or> protocol = ''0.9''))"

lemma validateWelcome_payload:
  "validateWelcome env m n = Some (w, t) \<Longrightarrow> sm_Payload m = Welcome w \<and> sm_ProtocolVersion m = wc_SelectedProtocolVersion w \<and>
     (wc_SelectedProtocolVersion w = ''1.0'' \<or> wc_SelectedProtocolVersion w = ''0.9'')"
  by (auto simp: validateWelcome_def split: server_payload.splits option.splits cell.splits if_splits)

text \<open>An invariant that holds after the Hello, and stands the contract for whatever the server selected, holds at the end.\<close>

lemma connectOnce_settled:
  assumes run: "connectOnce env co sweep inp evs st = (t, r)"
    and con: "\<And>ct. ct_resultAck ct = wants_ack inp \<Longrightarrow> link_contract env ct may (Inv ct) (Out ct)"
    and hello: "\<And>u x ct. say_hello env co inp st = (u, x) \<Longrightarrow> Final (link_of u) \<and> (\<forall>y. x = Inr y \<longrightarrow> Inv ct (link_of u))"
    and final: "\<And>ct l. selected inp (ct_protocol ct) \<Longrightarrow> Out ct l \<Longrightarrow> Final l"
    and acks: "list_all (acks_within env may) evs"
  shows "Final (link_of t)"
proof -
  obtain u x where u: "say_hello env co inp st = (u, x)" by fastforce
  show ?thesis
  proof (cases "\<exists>i n m w serverTime. x = Inr (i, n) \<and> ci_welcome inp = Some m \<and> validateWelcome env m n = Some (w, serverTime)")
    case False
    then have "t = u"
      using run u by (auto simp: connectOnce_def connect_start_def split: sum.splits option.splits prod.splits)
    with hello[OF u] show ?thesis by simp
  next
    case True
    then obtain i n m w serverTime where x: "x = Inr (i, n)" "ci_welcome inp = Some m" "validateWelcome env m n = Some (w, serverTime)" by blast
    obtain now c where c: "read_now (ss_conn u) = (now, c)" by fastforce
    define ct where "ct = \<lparr>ct_identity = i, ct_protocol = wc_SelectedProtocolVersion w, ct_resultAck = (''job_result_ack_v1'' \<in> set (wc_ServerCapabilities w)),
      ct_logAck = (''backup_logs_v1'' \<in> set (wc_ServerCapabilities w)), ct_bootID = readBootID (ci_machine inp), ct_clockOffset = time_sub serverTime now\<rparr>"
    define v where "v = u\<lparr>ss_conn := c, ss_serverSequence := sm_Sequence m, ss_rotationPending := False\<rparr>"
    have "ct_resultAck ct = wants_ack inp"
      using x validateWelcome_payload[OF x(3)] by (simp add: ct_def wants_ack_def)
    note con = con[OF this]
    have "selected inp (ct_protocol ct)"
      using x(2) validateWelcome_payload[OF x(3)] by (auto simp: ct_def selected_def)
    note final = final[OF this]
    have "Inv ct (link_of v)"
      using link_contract.clock_link[OF con, of "link_of u" now c] hello[OF u] x c by (simp add: v_def link_of_def)
    then have g: "settled (\<lambda>st. Inv ct (link_of st)) (\<lambda>st. Out ct (link_of st)) (on_link (greet inp ct n) v)"
      by (intro link_contract.linked[OF con] link_contract.greeting[OF con])
    have run': "connectOnce env co sweep inp evs st =
        (case on_link (greet inp ct n) v of (s, Inl e) \<Rightarrow> (s, Some (True, Some e))
         | (s, Inr _) \<Rightarrow> (case stream_loop env co sweep (ci_machine inp) ct evs s of (z, e) \<Rightarrow> (z, map_option (Pair True) e)))"
      using u x c by (simp add: connectOnce_def connect_start_def Let_def flip: ct_def v_def split: prod.splits sum.splits)
    from g show ?thesis
    proof (cases rule: settled_cases)
      case (stopped s e)
      with run run' final show ?thesis by simp
    next
      case (finished s)
      obtain z y where z: "stream_loop env co sweep (ci_machine inp) ct evs s = (z, y)" by fastforce
      with link_contract.loop[OF con finished(2) acks, of co sweep "ci_machine inp"] have "Out ct (link_of z)"
        by (cases y) (simp_all add: link_contract.outcome_settled_simps[OF con] link_contract.inv_out[OF con])
      with run run' finished z final show ?thesis by simp
    qed
  qed
qed

section \<open>Numbering\<close>

definition is_hello :: "payload \<Rightarrow> bool" where
  "is_hello p = (case p of Hello _ \<Rightarrow> True | _ \<Rightarrow> False)"

definition numbered :: "string \<Rightarrow> envelope list \<Rightarrow> bool" where
  "numbered protocol es \<longleftrightarrow> (\<forall>k < length es. en_Sequence (es ! k) = of_nat (Suc k) \<and>
     is_hello (en_Payload (es ! k)) = (k = 0) \<and> en_ProtocolVersion (es ! k) = (if k = 0 then ''1.0'' else protocol))"

definition in_step :: "string \<Rightarrow> connection \<Rightarrow> bool" where
  "in_step protocol c \<longleftrightarrow> cn_sent c \<noteq> [] \<and> numbered protocol (cn_sent c) \<and> cn_sequence c = of_nat (length (cn_sent c))"

lemma numbered_snoc:
  "numbered protocol es \<Longrightarrow> en_Sequence e = of_nat (Suc (length es)) \<Longrightarrow> is_hello (en_Payload e) = (es = []) \<Longrightarrow>
     en_ProtocolVersion e = (if es = [] then ''1.0'' else protocol) \<Longrightarrow> numbered protocol (es @ [e])"
  by (auto simp: numbered_def nth_append less_Suc_eq)

lemma send_numbered:
  assumes "in_step protocol (snd l)" "\<not> is_hello p"
  shows "settled (\<lambda>l. in_step protocol (snd l)) (\<lambda>l. numbered protocol (cn_sent (snd l))) (send protocol p l)"
  using assms
  by (auto simp: send_def sendAgentMessage_def Let_def in_step_def add.commute intro!: numbered_snoc split: option.splits)

lemma routine_no_hello: "routine p \<Longrightarrow> \<not> is_hello p"
  by (auto simp: routine_def is_hello_def split: payload.splits)

interpretation numbers: link_contract env ct "\<lambda>_. True" "\<lambda>l. in_step (ct_protocol ct) (snd l)" "\<lambda>l. numbered (ct_protocol ct) (cn_sent (snd l))"
  for env ct
proof unfold_locales
  show "in_step (ct_protocol ct) (snd (s, snd (read_now c)))" if "in_step (ct_protocol ct) (snd (s, c))" for s c
    using that by (simp add: in_step_def read_now_def)
  show "numbered (ct_protocol ct) (cn_sent (snd l))" if "in_step (ct_protocol ct) (snd l)" for l
    using that by (simp add: in_step_def)
qed (simp_all add: send_numbered routine_no_hello, simp add: send_numbered is_hello_def)

lemma say_hello_numbered:
  assumes "say_hello env co inp st = (u, x)" "cn_sent (ss_conn st) = []" "cn_sequence (ss_conn st) = 0"
  shows "numbered protocol (cn_sent (ss_conn u)) \<and> length (cn_sent (ss_conn u)) \<le> 1 \<and> (\<forall>y. x = Inr y \<longrightarrow> in_step protocol (ss_conn u))"
  using assms
  by (auto simp: say_hello_def Let_def sendAgentMessage_def read_now_def in_step_def numbered_def is_hello_def split: option.splits prod.splits sum.splits if_splits)

section \<open>Results that wait for their acknowledgement\<close>

lemma updateOperation_cases:
  assumes "updateOperation i f s = (t, x)"
  shows "operations t = operations s \<or>
    (\<exists>r. bget (operations s) i = Some (Valid r) \<and> operations t = bput (operations s) i (Valid (f r)))"
proof (cases x)
  case (Inl e)
  with assms show ?thesis by (auto simp: updateOperation_def dest!: db_update_Inl)
next
  case (Inr u)
  with assms show ?thesis by (auto simp: updateOperation_def dest!: db_update_Inr split: option.splits cell.splits)
qed

definition waits :: "uuid \<Rightarrow> operation_record \<Rightarrow> link \<Rightarrow> bool" where
  "waits i r l \<longleftrightarrow> bsorted (operations (fst l)) \<and> Terminal r \<and> \<not> op_Uploaded r \<and>
     (\<exists>x. bget (operations (fst l)) i = Some (Valid (r\<lparr>op_LastReportedAt := x\<rparr>)))"

lemma waits_update:
  assumes w: "waits i r (s, c)"
    and f: "j = i \<Longrightarrow> \<exists>y. \<forall>x. f (r\<lparr>op_LastReportedAt := x\<rparr>) = r\<lparr>op_LastReportedAt := y\<rparr>"
  shows "waits i r (fst (updateOperation j f s), c)"
proof -
  obtain t x where t: "updateOperation j f s = (t, x)" by fastforce
  from updateOperation_cases[OF t] have "waits i r (t, c)"
  proof (elim disjE exE conjE)
    fix r' assume r': "bget (operations s) j = Some (Valid r')" "operations t = bput (operations s) j (Valid (f r'))"
    from w obtain x where x: "bsorted (operations s)" "bget (operations s) i = Some (Valid (r\<lparr>op_LastReportedAt := x\<rparr>))"
      by (auto simp: waits_def)
    show ?thesis
    proof (cases "j = i")
      case True
      with f obtain y where "f (r\<lparr>op_LastReportedAt := x\<rparr>) = r\<lparr>op_LastReportedAt := y\<rparr>" by blast
      with True r' x w show ?thesis by (auto simp: waits_def bucket_simps)
    next
      case False
      then have "bget (operations t) i = bget (operations s) i" using r' x(1) by (simp add: bucket_simps)
      with x r' w show ?thesis by (simp add: waits_def bucket_simps)
    qed
  qed (use w in \<open>simp add: waits_def\<close>)
  then show ?thesis by (simp add: t)
qed

lemma send_agent: "(\<And>c. I (fst l, c) \<and> J (fst l, c)) \<Longrightarrow> settled I J (send protocol p l)"
  by (auto simp: send_def settled_def split: prod.splits sum.splits)

lemma waits_agent: "waits i r (s, c) = waits i r (s, d)"
  by (simp add: waits_def)

interpretation waiting: link_contract env ct "\<lambda>j. \<not> ct_resultAck ct \<or> j \<noteq> i"
    "\<lambda>l. ct_resultAck ct \<longrightarrow> waits i r l" "\<lambda>l. ct_resultAck ct \<longrightarrow> waits i r l"
  for env ct i r
proof unfold_locales
  fix s c j now
  assume "ct_resultAck ct \<longrightarrow> waits i r (s, c)"
  then show "ct_resultAck ct \<longrightarrow> waits i r (fst (markOperationReported j now s), c)"
    unfolding markOperationReported_def by (auto intro!: waits_update)
next
  fix s c j
  assume "ct_resultAck ct \<longrightarrow> waits i r (s, c)" "\<not> ct_resultAck ct \<or> j \<noteq> i"
  then show "ct_resultAck ct \<longrightarrow> waits i r (fst (MarkOperationUploaded j s), c)"
    unfolding MarkOperationUploaded_def by (auto intro!: waits_update)
qed (auto simp: waits_def bucket_simps intro!: send_agent)

section \<open>Jobs that were accepted\<close>

definition accepted_stored :: "env \<Rightarrow> link \<Rightarrow> bool" where
  "accepted_stored env l \<longleftrightarrow> bsorted (operations (fst l)) \<and>
     (\<forall>e \<in> set (cn_sent (snd l)). \<forall>job text. en_Payload e = JobAccepted job text \<longrightarrow>
        (\<exists>i. uuid_parse env text = Some i \<and> bget (operations (fst l)) i \<noteq> None))"

lemma accepted_stored_mono:
  assumes "accepted_stored env (s, c)" "bsorted (operations t)" "\<And>i. bget (operations s) i \<noteq> None \<Longrightarrow> bget (operations t) i \<noteq> None"
  shows "accepted_stored env (t, c)"
  using assms by (fastforce simp: accepted_stored_def)

lemma accepted_stored_update:
  assumes "accepted_stored env (s, c)"
  shows "accepted_stored env (fst (updateOperation i f s), c)"
proof (rule accepted_stored_mono[OF assms])
  obtain t x where t: "updateOperation i f s = (t, x)" by fastforce
  from assms have "bsorted (operations s)" by (simp add: accepted_stored_def)
  with updateOperation_cases[OF t] t show "bsorted (operations (fst (updateOperation i f s)))"
    and "bget (operations s) j \<noteq> None \<Longrightarrow> bget (operations (fst (updateOperation i f s))) j \<noteq> None" for j
    by (auto simp: bucket_simps)
qed

lemma send_accepted:
  assumes "accepted_stored env l"
    and "\<And>job text. p = JobAccepted job text \<Longrightarrow> \<exists>i. uuid_parse env text = Some i \<and> bget (operations (fst l)) i \<noteq> None"
  shows "settled (accepted_stored env) (accepted_stored env) (send protocol p l)"
  using assms by (auto simp: send_def sendAgentMessage_def Let_def accepted_stored_def split: option.splits)

interpretation accepted: link_contract env ct "\<lambda>_. True" "accepted_stored env" "accepted_stored env"
  for env ct
proof unfold_locales
  fix s c r and t :: agent
  assume a: "accepted_stored env (s, c)" "bget (operations s) (op_ID r) = None"
    and t: "operations t = bput (operations s) (op_ID r) (Valid r)"
  from a have "bsorted (operations s)" by (simp add: accepted_stored_def)
  with accepted_stored_mono[OF a(1), of t] t show "accepted_stored env (t, c)"
    by (auto simp: bucket_simps)
next
  show "accepted_stored env (s, snd (read_now c))" if "accepted_stored env (s, c)" for s c
    using that by (simp add: accepted_stored_def read_now_def)
  show "accepted_stored env (t, c)" if "accepted_stored env (s, c)" "operations t = operations s" for s t c
    using that by (simp add: accepted_stored_def)
  show "settled (accepted_stored env) (accepted_stored env) (send (ct_protocol ct) p l)" if "accepted_stored env l" "routine p" for p l
    using that by (intro send_accepted) auto
  show "settled (accepted_stored env) (accepted_stored env) (send (ct_protocol ct) (JobAccepted job oid) l)"
    if "accepted_stored env l" "uuid_parse env oid = Some i" "bget (operations (fst l)) i \<noteq> None" for l oid i job
    using that(2,3) by (intro send_accepted that(1)) auto
  show "accepted_stored env (fst (markOperationReported i now s), c)" if "accepted_stored env (s, c)" for s c i now
    unfolding markOperationReported_def using that by (rule accepted_stored_update)
  show "accepted_stored env (fst (MarkOperationUploaded i s), c)" if "accepted_stored env (s, c)" for s c i
    unfolding MarkOperationUploaded_def using that by (rule accepted_stored_update)
qed simp_all

section \<open>What a dispatch admits\<close>

text \<open>The worker that goes with an admitted job, and the record it is for.\<close>

definition job_admitted :: "agent \<Rightarrow> agent \<Rightarrow> worker \<Rightarrow> bool" where
  "job_admitted s t w \<longleftrightarrow> (\<exists>desired rs. ActiveDesiredState s = Inr (Some desired) \<and> wk_plan w \<in> set (ds_Plans desired) \<and>
     RunningOperations s = Inr rs \<and> \<not> no_capacity (MaxParallelIOJobs (ds_RuntimePolicy desired)) (wk_plan w) rs) \<and>
     op_ID (wk_record w) \<notin> set (canceled s) \<and> bget (operations s) (op_ID (wk_record w)) = None \<and> is_running (wk_record w) \<and>
     op_PlanID (wk_record w) = ps_PlanID (wk_plan w) \<and> wk_runs w = [op_ID (wk_record w)] \<and> wk_phase w = Starting \<and>
     operations t = bput (operations s) (op_ID (wk_record w)) (Valid (wk_record w))"

definition job_closed :: "agent \<Rightarrow> agent \<Rightarrow> bool" where
  "job_closed s t \<longleftrightarrow> operations t = operations s \<or>
     (\<exists>r. bget (operations s) (op_ID r) = None \<and> op_ID r \<in> set (canceled s) \<and> op_Status r = ''CANCELED'' \<and>
        operations t = bput (operations s) (op_ID r) (Valid r))"

lemma reject_closed: "reject_job protocol job code (s, c) = ((t, d), w, x) \<Longrightarrow> t = s \<and> w = None"
  by (auto simp: reject_job_def answer_def send_def split: prod.splits)

lemma answer_closed: "answer protocol p (s, c) = ((t, d), w, x) \<Longrightarrow> t = s \<and> w = None"
  by (auto simp: answer_def send_def split: prod.splits)

lemma result_closed: "sendOperationResult protocol r (s, c) = ((t, d), x) \<Longrightarrow> t = s"
  by (auto simp: sendOperationResult_def send_def split: prod.splits if_splits)

lemma replay_closed: "replay_job protocol job i r (s, c) = ((t, d), w, x) \<Longrightarrow> t = s \<and> w = None"
  by (auto simp: replay_job_def dest: reject_closed answer_closed result_closed split: if_splits prod.splits)

lemma cancel_job_cases:
  assumes "cancel_job protocol job i plan_id notBefore (s, c) = ((t, d), w, x)"
  shows "w = None \<and> desired_active t = desired_active s \<and> plan_runtimes t = plan_runtimes s \<and>
    (operations t = operations s \<or> (\<exists>r. op_ID r = i \<and> op_Status r = ''CANCELED'' \<and> operations t = bput (operations s) i (Valid r)))"
proof -
  obtain now e where e: "read_now c = (now, e)" by fastforce
  let ?r = "canceled_job job i plan_id notBefore now"
  have r: "op_ID ?r = i" "op_Status ?r = ''CANCELED''" by (simp_all add: canceled_job_def)
  obtain u y where p: "PutOperation ?r s = (u, y)" by fastforce
  from assms e p have "w = None \<and> t = u"
    by (cases y) (auto simp: cancel_job_def dest: reject_closed result_closed split: prod.splits)
  with PutOperation_cases[OF p] r show ?thesis by (cases y) auto
qed

lemma start_job_cases:
  assumes "start_job protocol job maximum plan i parent root notBefore deadline (s, c) = ((t, d), w, x)"
  shows "desired_active t = desired_active s \<and> plan_runtimes t = plan_runtimes s \<and>
    (w = None \<and> operations t = operations s \<or>
     (\<exists>wk rs. w = Some wk \<and> RunningOperations s = Inr rs \<and> \<not> no_capacity maximum plan rs \<and> wk_plan wk = plan \<and> op_ID (wk_record wk) = i \<and>
        is_running (wk_record wk) \<and> op_PlanID (wk_record wk) = ps_PlanID plan \<and> wk_runs wk = [i] \<and> wk_phase wk = Starting \<and>
        operations t = bput (operations s) i (Valid (wk_record wk))))"
proof -
  obtain now e where e: "read_now c = (now, e)" by fastforce
  let ?r = "job_record job plan i parent root notBefore now"
  have r: "op_ID ?r = i" "is_running ?r" "op_PlanID ?r = ps_PlanID plan" by (simp_all add: job_record_def is_running_def)
  obtain u y where p: "PutOperation ?r s = (u, y)" by fastforce
  show ?thesis
  proof (cases "\<exists>rs. RunningOperations s = Inr rs \<and> \<not> no_capacity maximum plan rs")
    case False
    with assms show ?thesis
      by (auto simp: start_job_def dest: reject_closed split: sum.splits if_splits)
  next
    case True
    with assms e p have "case y of Inl _ \<Rightarrow> w = None \<and> t = u
      | Inr _ \<Rightarrow> (\<exists>wk. start_worker plan ?r deadline u = (t, wk) \<and> w = Some wk)"
      by (auto simp: start_job_def Let_def send_def dest: reject_closed split: sum.splits prod.splits)
    with PutOperation_cases[OF p] r True show ?thesis
      by (cases y) (auto simp: start_worker_def BeginOperation_def)
  qed
qed

lemma handleJobDispatch_cases:
  assumes "handleJobDispatch env protocol job (s, c) = ((t, d), w, x)"
  shows "desired_active t = desired_active s \<and> plan_runtimes t = plan_runtimes s \<and>
    (case w of None \<Rightarrow> job_closed s t | Some wk \<Rightarrow> job_admitted s t wk)"
proof (cases "\<exists>i plan_id parent root desired plan deadline notBefore. dispatch_ids env job = Inr (i, plan_id, parent, root) \<and>
    Operation i s = Inr None \<and> ActiveDesiredState s = Inr (Some desired) \<and> find (\<lambda>p. ps_PlanID p = plan_id) (ds_Plans desired) = Some plan \<and>
    jd_Deadline job = Some (Valid deadline) \<and> jd_NotBefore job = Some (Valid notBefore) \<and>
    handleJobDispatch env protocol job (s, c) =
      admit_job protocol job (MaxParallelIOJobs (ds_RuntimePolicy desired)) plan i parent root (s, c)")
  case False
  with assms have "t = s \<and> w = None"
    by (auto simp: handleJobDispatch_def admit_job_def dest: reject_closed replay_closed split: sum.splits option.splits cell.splits if_splits)
  then show ?thesis by (simp add: job_closed_def)
next
  case True
  then obtain i plan_id parent root desired plan deadline notBefore where
    o: "Operation i s = Inr None" "ActiveDesiredState s = Inr (Some desired)" "find (\<lambda>p. ps_PlanID p = plan_id) (ds_Plans desired) = Some plan"
    and a: "jd_Deadline job = Some (Valid deadline)" "jd_NotBefore job = Some (Valid notBefore)"
      "admit_job protocol job (MaxParallelIOJobs (ds_RuntimePolicy desired)) plan i parent root (s, c) = ((t, d), w, x)"
    using assms by (metis (no_types, lifting))
  have fresh: "bget (operations s) i = None" and plan: "plan \<in> set (ds_Plans desired)"
    using o by (auto simp: Operation_def find_Some_iff split: option.splits cell.splits)
  obtain u b where u: "ConsumeCancel i s = (u, b)" by fastforce
  then have us: "operations u = operations s" "desired_active u = desired_active s" "plan_runtimes u = plan_runtimes s" "b = (i \<in> set (canceled s))"
    by (auto simp: ConsumeCancel_def split: if_splits)
  have ru: "RunningOperations u = RunningOperations s" by (simp add: RunningOperations_def us)
  from a u consider "t = s" "w = None"
    | d' where "b" "cancel_job protocol job i (ps_PlanID plan) notBefore (u, d') = ((t, d), w, x)"
    | d' where "\<not> b" "start_job protocol job (MaxParallelIOJobs (ds_RuntimePolicy desired)) plan i parent root notBefore deadline (u, d') = ((t, d), w, x)"
    by (auto simp: admit_job_def dest: reject_closed split: prod.splits if_splits bool.splits)
  then show ?thesis
  proof cases
    case 2
    from cancel_job_cases[OF 2(2)] 2(1) us fresh show ?thesis by (auto simp: job_closed_def)
  next
    case 3
    from start_job_cases[OF 3(2)] 3(1) us ru fresh plan o show ?thesis
      by (auto simp: job_closed_def job_admitted_def split: option.splits)
  qed (simp add: job_closed_def)
qed

section \<open>A concrete connection, for the witnesses\<close>

definition demo_connection :: connection where
  "demo_connection = \<lparr>cn_readings = (\<lambda>_. \<lparr>rg_now = 20, rg_id = Some 528914269453437118709777, rg_sent = True\<rparr>), cn_reads = 0, cn_sequence = 0, cn_sent = []\<rparr>"

definition demo_job_record :: "string \<Rightarrow> operation_record" where
  "demo_job_record status = zero_operation\<lparr>op_ID := demo_operation, op_PlanID := ps_PlanID demo_plan, op_PlanRevision := 1, op_ConfigHash := ''c1'',
     op_Status := status, op_LastReportedAt := 1000\<rparr>"

definition demo_stream :: "string \<Rightarrow> stream_state" where
  "demo_stream status = \<lparr>ss_agent = demo_agent\<lparr>operations := [(demo_operation, Valid (demo_job_record status))]\<rparr>, ss_conn = demo_connection,
     ss_vault = demo_vault, ss_install = None, ss_serverSequence = 0, ss_rotationPending = False, ss_workers = []\<rparr>"

definition demo_message :: "64 word \<Rightarrow> server_payload \<Rightarrow> server_message" where
  "demo_message n p = \<lparr>sm_MessageId = uuid_string 528914269453437118709778, sm_ProtocolVersion = ''1.0'', sm_SentAt = Some (Valid 20),
     sm_Sequence = n, sm_Payload = p\<rparr>"

definition demo_connect :: connect_input where
  "demo_connect = \<lparr>ci_machine = \<lparr>mc_file = (\<lambda>_. None), mc_exists = (\<lambda>_. False), mc_free = Some 1, mc_arch = ''amd64'', mc_parse_float = (\<lambda>_. None),
     mc_uint64 = (\<lambda>_. 0)\<rparr>, ci_version = ''1'', ci_new_install = Some 528914269453437118709779, ci_dial = True,
     ci_welcome = Some (demo_message 1 (Welcome \<lparr>wc_SelectedProtocolVersion = ''1.0'', wc_ServerTime = Some (Valid 20), wc_HeartbeatIntervalSeconds = 30,
       wc_DesiredConfigRevision = 0, wc_ServerCapabilities = [''job_result_ack_v1'']\<rparr>))\<rparr>"

definition demo_dispatch :: job_dispatch where
  "demo_dispatch = \<lparr>jd_JobId = ''job'', jd_OperationId = uuid_string demo_operation, jd_PlanId = uuid_string (ps_PlanID demo_plan), jd_Type = ''BACKUP'',
     jd_PlanRevision = 1, jd_ConfigHash = ''c1'', jd_NotBefore = None, jd_Deadline = None, jd_ParentOperationId = [], jd_RootOperationId = [], jd_Attempt = 0\<rparr>"

definition demo_control :: control where
  "demo_control = \<lparr>ct_identity = demo_identity, ct_protocol = ''1.0'', ct_resultAck = True, ct_logAck = False, ct_bootID = [], ct_clockOffset = 0\<rparr>"

lemma demo_valid: "uuid_parse demo_env (uuid_string u) = Some u" "uuid_version 528914269453437118709778 = 7" "uuid_v7 demo_operation"
  "uuid_v7 (ps_PlanID demo_plan)"
  by (simp_all add: demo_env_def demo_parse_back uuid_version_def uuid_v7_def uuid_rfc4122_def demo_operation_def demo_plan_def)

lemma demo_sends: "cn_readings c = cn_readings demo_connection \<Longrightarrow>
    sendAgentMessage protocol p c = (c\<lparr>cn_reads := Suc (cn_reads c), cn_sequence := cn_sequence c + 1,
      cn_sent := cn_sent c @ [\<lparr>en_MessageId = uuid_string 528914269453437118709777, en_ProtocolVersion = protocol, en_SentAt = 20,
        en_Sequence = cn_sequence c + 1, en_Payload = p\<rparr>]\<rparr>, Inr ())"
  by (simp add: sendAgentMessage_def Let_def demo_connection_def)

lemma demo_reads: "cn_readings c = cn_readings demo_connection \<Longrightarrow> read_now c = (20, c\<lparr>cn_reads := Suc (cn_reads c)\<rparr>)"
  by (simp add: read_now_def demo_connection_def)

text \<open>Up to the loop: the Hello and the inventory.\<close>

lemma demo_start:
  obtains t where "connect_start demo_env demo_crypto demo_connect (demo_stream ''RUNNING'') = (t, Inr demo_control)"
    "operations (ss_agent t) = [(demo_operation, Valid (demo_job_record ''RUNNING''))]"
    "cn_readings (ss_conn t) = cn_readings demo_connection" "ss_serverSequence t = 1"
proof -
  have l: "LoadIdentity demo_vault = Some demo_identity"
    by (simp add: LoadIdentity_def demo_vault_def demo_identity_def uuid_nil_def)
  have i: "InstallID demo_env (ci_new_install demo_connect) None s = (s, Inr (uuid_string 528914269453437118709779, 528914269453437118709779))"
    if "faults s = []" for s
    using that by (simp add: InstallID_def db_update_def Let_def demo_connect_def)
  have p: "PendingResultIDs 100 (ss_agent (demo_stream ''RUNNING'')) = Inr []"
    by (simp add: PendingResultIDs_def demo_stream_def bitems_def demo_job_record_def Terminal_def sort_slice_def bounded_def)
  have a: "ActiveDesiredState (ss_agent (demo_stream ''RUNNING'')) = Inr None" "AcceptedRevision (ss_agent (demo_stream ''RUNNING'')) = Inr 0"
    "PendingConfigResult (ss_agent (demo_stream ''RUNNING'')) = Inr None" "faults (ss_agent (demo_stream ''RUNNING'')) = []"
    by (simp_all add: ActiveDesiredState_def AcceptedRevision_def PendingConfigResult_def demo_stream_def demo_agent_def)
  have r: "ReportableOperations 20 0 (ss_agent (demo_stream ''RUNNING'')) = Inr []"
    by (simp add: ReportableOperations_def demo_stream_def bitems_def report_step_def demo_job_record_def reportable_def Terminal_def is_running_def
        parent_uploaded_def zero_operation_def time_sub_def sort_slice_def max_int64_def min_int64_def)
  have k: "TLSIdentity demo_crypto demo_vault demo_identity \<noteq> None" "ci_dial demo_connect"
    by (simp_all add: TLSIdentity_def demo_crypto_def demo_vault_def demo_connect_def)
  define s where "s = ss_agent (demo_stream ''RUNNING'')"
  define v where "v = uuid_string 528914269453437118709779"
  note facts = i[OF a(4)] p a r
  have f: "ss_vault (demo_stream ''RUNNING'') = demo_vault" "ss_install (demo_stream ''RUNNING'') = None" "ss_conn (demo_stream ''RUNNING'') = demo_connection"
    by (simp_all add: demo_stream_def)
  obtain c where h: "say_hello demo_env demo_crypto demo_connect (demo_stream ''RUNNING'') =
      ((demo_stream ''RUNNING'')\<lparr>ss_agent := s, ss_install := Some v, ss_conn := c\<rparr>, Inr (demo_identity, 0))"
    and c: "cn_readings c = cn_readings demo_connection"
  proof (rule that)
    let ?c = "demo_connection\<lparr>cn_reads := Suc (cn_reads demo_connection)\<rparr>"
    let ?p = "Hello (hello_message demo_connect 528914269453437118709779 0 [] 20)"
    show "cn_readings (fst (sendAgentMessage ''1.0'' ?p ?c)) = cn_readings demo_connection"
      by (simp add: demo_sends)
    show "say_hello demo_env demo_crypto demo_connect (demo_stream ''RUNNING'') =
      ((demo_stream ''RUNNING'')\<lparr>ss_agent := s, ss_install := Some v, ss_conn := fst (sendAgentMessage ''1.0'' ?p ?c)\<rparr>, Inr (demo_identity, 0))"
      using k by (simp add: say_hello_def Let_def f l facts[folded s_def v_def] demo_reads demo_sends flip: s_def)
  qed
  let ?v = "(demo_stream ''RUNNING'')\<lparr>ss_agent := s, ss_install := Some v, ss_conn := c\<lparr>cn_reads := Suc (cn_reads c)\<rparr>,
    ss_serverSequence := 1, ss_rotationPending := False\<rparr>"
  obtain d where g: "greet demo_connect demo_control 0 (s, c\<lparr>cn_reads := Suc (cn_reads c)\<rparr>) = ((s, d), Inr ())"
    and d: "cn_readings d = cn_readings demo_connection"
    using facts[folded s_def v_def] c
    by (simp add: greet_def and_then_def replay_active_def replay_pending_def send_inventory_def report_all_def reportOperations_def send_def
        demo_reads demo_sends demo_control_def)
  have w: "ci_welcome demo_connect = Some (demo_message 1 (Welcome \<lparr>wc_SelectedProtocolVersion = ''1.0'', wc_ServerTime = Some (Valid 20),
      wc_HeartbeatIntervalSeconds = 30, wc_DesiredConfigRevision = 0, wc_ServerCapabilities = [''job_result_ack_v1'']\<rparr>))"
    "readBootID (ci_machine demo_connect) = []"
    by (simp_all add: demo_connect_def readBootID_def)
  have "connect_start demo_env demo_crypto demo_connect (demo_stream ''RUNNING'') = (?v\<lparr>ss_agent := s, ss_conn := d\<rparr>, Inr demo_control)"
    using h c g w by (simp add: connect_start_def validateWelcome_def validateServerEnvelope_def demo_message_def demo_valid demo_reads on_link_def
        demo_parse_back time_sub_def max_int64_def min_int64_def demo_control_def Let_def)
  moreover have "operations s = [(demo_operation, Valid (demo_job_record ''RUNNING''))]"
    by (simp add: s_def demo_stream_def)
  ultimately show thesis
    using d by (intro that[of "?v\<lparr>ss_agent := s, ss_conn := d\<rparr>"]) simp_all
qed

lemma word_two_not_less: "\<not> (2 :: 64 word) \<le> 1"
  by (simp add: word_le_nat_alt)

lemma demo_accepts:
  obtains t e where "connectOnce demo_env demo_crypto sweep demo_connect [Received (Some (demo_message 2 (JobDispatch demo_dispatch)))]
      (demo_stream ''RUNNING'') = (t, None)"
    "e \<in> set (cn_sent (ss_conn t))" "en_Payload e = JobAccepted ''job'' (uuid_string demo_operation)"
proof -
  obtain u where u: "connect_start demo_env demo_crypto demo_connect (demo_stream ''RUNNING'') = (u, Inr demo_control)"
    "operations (ss_agent u) = [(demo_operation, Valid (demo_job_record ''RUNNING''))]"
    "cn_readings (ss_conn u) = cn_readings demo_connection" "ss_serverSequence u = 1"
    by (rule demo_start)
  have o: "Operation demo_operation (ss_agent u) = Inr (Some (demo_job_record ''RUNNING''))"
    using u(2) by (simp add: Operation_def bget_def)
  let ?m = "demo_message 2 (JobDispatch demo_dispatch)"
  have v: "validateServerEnvelope demo_env ?m ''1.0''" "sm_Sequence ?m = 2" "sm_Payload ?m = JobDispatch demo_dispatch"
    by (simp_all add: validateServerEnvelope_def demo_message_def demo_valid demo_parse_back)
  have d: "dispatch_ids demo_env demo_dispatch = Inr (demo_operation, ps_PlanID demo_plan, uuid_nil, uuid_nil)"
    using demo_valid by (simp add: dispatch_ids_def parse_operation_def demo_dispatch_def demo_parse_back)
  have r: "op_PlanID (demo_job_record ''RUNNING'') = ps_PlanID demo_plan" "op_PlanRevision (demo_job_record ''RUNNING'') = 1"
    "op_ConfigHash (demo_job_record ''RUNNING'') = ''c1''" "\<not> Terminal (demo_job_record ''RUNNING'')"
    by (simp_all add: demo_job_record_def Terminal_def)
  have j: "jd_Type demo_dispatch = ''BACKUP''" "jd_PlanRevision demo_dispatch = 1" "jd_ConfigHash demo_dispatch = ''c1''"
    "accept_job demo_dispatch = JobAccepted ''job'' (uuid_string demo_operation)"
    by (simp_all add: demo_dispatch_def accept_job_def)
  have "\<exists>t. connectOnce demo_env demo_crypto sweep demo_connect [Received (Some ?m)] (demo_stream ''RUNNING'') = (t, None) \<and>
      (\<exists>e \<in> set (cn_sent (ss_conn t)). en_Payload e = JobAccepted ''job'' (uuid_string demo_operation))"
    using u v o d r j word_two_not_less
    by (simp add: connectOnce_def event_step_def receive_message_def goes_on_def receive_payload_def receive_dispatch_def handleJobDispatch_def
        replay_job_def answer_def send_def demo_sends demo_control_def Let_def)
  with that show thesis by blast
qed

text \<open>A job that starts a run.\<close>

definition demo_ready :: agent where
  "demo_ready = demo_agent\<lparr>operations := [], desired_active := Some (Valid (demo_state [demo_plan2, demo_plan]))\<rparr>"

definition demo_job :: job_dispatch where
  "demo_job = demo_dispatch\<lparr>jd_NotBefore := Some (Valid 10), jd_Deadline := Some (Valid 1000)\<rparr>"

lemma demo_dispatched: "\<exists>t d wk. handleJobDispatch demo_env ''1.0'' demo_job (demo_ready, demo_connection) = ((t, d), Some wk, Inr ())"
proof -
  have d: "dispatch_ids demo_env demo_job = Inr (demo_operation, ps_PlanID demo_plan, uuid_nil, uuid_nil)"
    using demo_valid by (simp add: demo_job_def dispatch_ids_def parse_operation_def demo_dispatch_def demo_parse_back)
  have j: "jd_Type demo_job = ''BACKUP''" "jd_PlanRevision demo_job = ps_Revision demo_plan" "jd_ConfigHash demo_job = ps_ConfigHash demo_plan"
    "jd_NotBefore demo_job = Some (Valid 10)" "jd_Deadline demo_job = Some (Valid 1000)"
    by (simp_all add: demo_job_def demo_dispatch_def demo_plan_def)
  have s: "Operation demo_operation demo_ready = Inr None" "ActiveDesiredState demo_ready = Inr (Some (demo_state [demo_plan2, demo_plan]))"
    "ConsumeCancel demo_operation demo_ready = (demo_ready, False)" "RunningOperations demo_ready = Inr []" "faults demo_ready = []"
    by (simp_all add: demo_ready_def demo_agent_def Operation_def bget_def ActiveDesiredState_def ConsumeCancel_def RunningOperations_def bitems_def)
  have p: "find (\<lambda>p. ps_PlanID p = ps_PlanID demo_plan) [demo_plan2, demo_plan] = Some demo_plan"
    by (simp add: demo_plan2_def) (simp add: demo_plan_def)
  show ?thesis
    using d j s p
    by (simp add: handleJobDispatch_def admit_job_def start_job_def no_capacity_def demo_state_def uint32_of_def demo_reads PutOperation_def
        db_update_def Let_def put_operation_tx_def start_worker_def send_def demo_sends del: find.simps)
qed

section \<open>Properties\<close>

text \<open>C37: On every connection the Agent's messages carry the numbers 1, 2, 3 and so on without a gap, the first and only the first of them is the
  Hello in version 1.0, and all later ones, which are only sent after a Welcome, are in the version that the Welcome selected, which is 1.0 or
  0.9, whatever the server sends, whichever of the Agent's events happen, and wherever the connection breaks.\<close>

theorem message_numbers:
  assumes "connectOnce env co sweep inp evs st = (t, r)" and "cn_sent (ss_conn st) = []" "cn_sequence (ss_conn st) = 0"
  shows "\<exists>protocol. numbered protocol (cn_sent (ss_conn t)) \<and>
    (1 < length (cn_sent (ss_conn t)) \<longrightarrow> (\<exists>m w. ci_welcome inp = Some m \<and> sm_Payload m = Welcome w \<and>
       protocol = wc_SelectedProtocolVersion w \<and> sm_ProtocolVersion m = protocol \<and> (protocol = ''1.0'' \<or> protocol = ''0.9'')))"
proof -
  have "(\<lambda>l. \<exists>protocol. numbered protocol (cn_sent (snd l)) \<and> (1 < length (cn_sent (snd l)) \<longrightarrow> selected inp protocol)) (link_of t)"
  proof (rule connectOnce_settled[OF assms(1), where may = "\<lambda>_. True"])
    show "link_contract env ct (\<lambda>_. True) (\<lambda>l. in_step (ct_protocol ct) (snd l)) (\<lambda>l. numbered (ct_protocol ct) (cn_sent (snd l)))" for ct
      by (rule numbers.link_contract_axioms)
  next
    fix u x and ct :: control assume "say_hello env co inp st = (u, x)"
    from say_hello_numbered[OF this assms(2,3), of "ct_protocol ct"]
    show "(\<exists>protocol. numbered protocol (cn_sent (snd (link_of u))) \<and> (1 < length (cn_sent (snd (link_of u))) \<longrightarrow> selected inp protocol)) \<and>
        (\<forall>y. x = Inr y \<longrightarrow> in_step (ct_protocol ct) (snd (link_of u)))"
      by (auto simp: link_of_def)
  qed (auto simp: acks_within_def list_all_iff split: stream_event.splits option.splits server_payload.splits)
  then show ?thesis by (simp add: link_of_def selected_def)
qed

theorem message_numbers_witness:
  "\<exists>t e. connectOnce demo_env demo_crypto demo_sweep demo_connect [Received (Some (demo_message 2 (JobDispatch demo_dispatch)))]
      (demo_stream ''RUNNING'') = (t, None) \<and> e \<in> set (cn_sent (ss_conn t)) \<and> \<not> is_hello (en_Payload e) \<and>
     1 < length (cn_sent (ss_conn t)) \<and> numbered ''1.0'' (cn_sent (ss_conn t))"
proof -
  obtain t e where t: "connectOnce demo_env demo_crypto demo_sweep demo_connect [Received (Some (demo_message 2 (JobDispatch demo_dispatch)))]
      (demo_stream ''RUNNING'') = (t, None)" "e \<in> set (cn_sent (ss_conn t))" "en_Payload e = JobAccepted ''job'' (uuid_string demo_operation)"
    by (rule demo_accepts)
  from message_numbers[OF t(1)] obtain protocol where n: "numbered protocol (cn_sent (ss_conn t))"
    "1 < length (cn_sent (ss_conn t)) \<longrightarrow> protocol = ''1.0''"
    by (auto simp: demo_stream_def demo_connection_def demo_connect_def demo_message_def)
  have h: "\<not> is_hello (en_Payload e)"
    using t(3) by (simp add: is_hello_def)
  obtain k where k: "k < length (cn_sent (ss_conn t))" "cn_sent (ss_conn t) ! k = e"
    using t(2) by (auto simp: in_set_conv_nth)
  with n(1) h have "k \<noteq> 0"
    by (auto simp: numbered_def)
  with k n h t show ?thesis by (intro exI[of _ t] exI[of _ e]) auto
qed

text \<open>C38: A result is not lost: with a server that acknowledges results, a final result that was not yet uploaded is still stored and waiting at the end of
  every connection on which no acknowledgement for it arrived; only the time of its last report may have changed.\<close>

theorem results_wait:
  assumes "connectOnce env co sweep inp evs st = (t, x)" and "wants_ack inp" and "list_all (acks_within env (\<lambda>j. j \<noteq> i)) evs"
    and "bsorted (operations (ss_agent st))" "bget (operations (ss_agent st)) i = Some (Valid r)" "Terminal r" "\<not> op_Uploaded r"
  shows "\<exists>reported. bget (operations (ss_agent t)) i = Some (Valid (r\<lparr>op_LastReportedAt := reported\<rparr>))"
proof -
  have w: "waits i r (ss_agent st, c)" for c
    using assms(4-7) by (auto simp: waits_def intro!: exI[of _ "op_LastReportedAt r"])
  have "waits i r (link_of t)"
  proof (rule connectOnce_settled[OF assms(1), where may = "\<lambda>j. j \<noteq> i" and Inv = "\<lambda>_. waits i r" and Out = "\<lambda>_. waits i r"])
    fix ct :: control assume "ct_resultAck ct = wants_ack inp"
    with waiting.link_contract_axioms[where ct = ct and i = i and env = env and r = r] assms(2) show "link_contract env ct (\<lambda>j. j \<noteq> i) (waits i r) (waits i r)" by simp
  next
    fix u y and ct :: control assume "say_hello env co inp st = (u, y)"
    then have "operations (ss_agent u) = operations (ss_agent st)"
      using InstallID_operations[of env "ci_new_install inp" "ss_install st" "ss_agent st"]
      by (auto simp: say_hello_def Let_def split: option.splits prod.splits sum.splits if_splits)
    then have "waits i r (link_of u)" using w[of "ss_conn u"] by (simp add: waits_def link_of_def)
    then show "waits i r (link_of u) \<and> (\<forall>z. y = Inr z \<longrightarrow> waits i r (link_of u))" by simp
  qed (use assms(3) in auto)
  then show ?thesis by (simp add: waits_def link_of_def)
qed

theorem results_wait_witness:
  "\<exists>reported. bget (operations (ss_agent (fst (connectOnce demo_env demo_crypto demo_sweep demo_connect [ReportTick] (demo_stream ''FAILED''))))) demo_operation =
     Some (Valid ((demo_job_record ''FAILED'')\<lparr>op_LastReportedAt := reported\<rparr>))"
proof -
  obtain t x where t: "connectOnce demo_env demo_crypto demo_sweep demo_connect [ReportTick] (demo_stream ''FAILED'') = (t, x)" by fastforce
  have "wants_ack demo_connect" by (simp add: wants_ack_def demo_connect_def demo_message_def)
  from results_wait[OF t this, of demo_operation "demo_job_record ''FAILED''"] t show ?thesis
    by (simp add: acks_within_def demo_stream_def bsorted_def bget_def) (simp add: demo_job_record_def Terminal_def zero_operation_def)
qed

text \<open>C39: An accepted job is durable: whenever the Agent has sent a JobAccepted on a connection, the operation it names is in the store, at the
  moment and until the end of the connection.\<close>

theorem accepted_durable:
  assumes "connectOnce env co sweep inp evs st = (t, x)" and "cn_sent (ss_conn st) = []" "bsorted (operations (ss_agent st))"
    and "e \<in> set (cn_sent (ss_conn t))" "en_Payload e = JobAccepted job operation"
  shows "\<exists>i. uuid_parse env operation = Some i \<and> bget (operations (ss_agent t)) i \<noteq> None"
proof -
  have "accepted_stored env (link_of t)"
  proof (rule connectOnce_settled[OF assms(1), where may = "\<lambda>_. True" and Inv = "\<lambda>_. accepted_stored env" and Out = "\<lambda>_. accepted_stored env"])
    show "link_contract env ct (\<lambda>_. True) (accepted_stored env) (accepted_stored env)" for ct
      by (rule accepted.link_contract_axioms)
  next
    fix u y and ct :: control assume h: "say_hello env co inp st = (u, y)"
    have "operations (ss_agent u) = operations (ss_agent st)"
      using h InstallID_operations[of env "ci_new_install inp" "ss_install st" "ss_agent st"]
      by (auto simp: say_hello_def Let_def split: option.splits prod.splits sum.splits if_splits)
    moreover have "\<forall>e \<in> set (cn_sent (ss_conn u)). is_hello (en_Payload e)"
      using h assms(2) by (auto simp: say_hello_def Let_def sendAgentMessage_def read_now_def is_hello_def split: option.splits prod.splits sum.splits if_splits)
    ultimately have "accepted_stored env (link_of u)"
      using assms(3) by (auto simp: accepted_stored_def link_of_def is_hello_def split: payload.splits)
    then show "accepted_stored env (link_of u) \<and> (\<forall>z. y = Inr z \<longrightarrow> accepted_stored env (link_of u))" by simp
  qed (auto simp: acks_within_def list_all_iff split: stream_event.splits option.splits server_payload.splits)
  with assms(4,5) show ?thesis by (auto simp: accepted_stored_def link_of_def)
qed

theorem accepted_durable_witness:
  "\<exists>t i. connectOnce demo_env demo_crypto demo_sweep demo_connect [Received (Some (demo_message 2 (JobDispatch demo_dispatch)))]
      (demo_stream ''RUNNING'') = (t, None) \<and> uuid_parse demo_env (uuid_string demo_operation) = Some i \<and> bget (operations (ss_agent t)) i \<noteq> None"
proof -
  obtain t e where t: "connectOnce demo_env demo_crypto demo_sweep demo_connect [Received (Some (demo_message 2 (JobDispatch demo_dispatch)))]
      (demo_stream ''RUNNING'') = (t, None)" "e \<in> set (cn_sent (ss_conn t))" "en_Payload e = JobAccepted ''job'' (uuid_string demo_operation)"
    by (rule demo_accepts)
  from accepted_durable[OF t(1) _ _ t(2,3)] t(1) show ?thesis
    by (auto simp: demo_stream_def demo_connection_def bsorted_def)
qed

text \<open>C40: A dispatched job starts a run only for an operation that has no record and was not canceled, of a plan of the active state, while fewer than
  MaxParallelIOJobs operations are running and none of the same plan unless it allows that; its RUNNING record is stored and is the only change
  to the records. A dispatch that starts no run changes the records at most by a CANCELED one of an operation that was canceled before.\<close>

theorem dispatch_admission:
  assumes "handleJobDispatch env protocol job (s, c) = ((t, d), w, x)"
  shows "desired_active t = desired_active s \<and> (case w of None \<Rightarrow> job_closed s t | Some wk \<Rightarrow> job_admitted s t wk)"
  using handleJobDispatch_cases[OF assms] by simp

theorem dispatch_admission_witness:
  "\<exists>t d wk. handleJobDispatch demo_env ''1.0'' demo_job (demo_ready, demo_connection) = ((t, d), Some wk, Inr ()) \<and> job_admitted demo_ready t wk"
proof -
  obtain t d wk where t: "handleJobDispatch demo_env ''1.0'' demo_job (demo_ready, demo_connection) = ((t, d), Some wk, Inr ())"
    using demo_dispatched by blast
  from dispatch_admission[OF t] t show ?thesis by auto
qed

end
