(* ===== verification/Agent_System.thy ===== *)
theory Agent_System
  imports Stream_Properties
begin

text \<open>
  The running Agent: the shared state, the goroutines of its operations and the tick of the scheduler, as one step relation. A tick holds
  \<open>schedulerMu\<close>, which jobs of the control stream and new desired states take too, but the goroutines, the reports and the
  acknowledgements go on between two plans of a tick. A crash can happen anywhere: the process starts again with what is stored.
  The abstract specification is a ledger of the running and the closed operations; \<open>sys_refines_ledger\<close> shows that every step of the Agent is a step
  of the ledger, and the limits are proved there.
\<close>

section \<open>The step relation\<close>

record tick =
  tk_now :: time
  tk_max :: nat
  tk_plans :: "plan_schedule list"
  tk_running :: "uuid list"

record system =
  sy_agent :: agent
  sy_workers :: "worker list"
  sy_tick :: "tick option"

definition joined :: "worker list \<Rightarrow> worker option \<Rightarrow> worker list" where
  "joined ws w = ws @ (case w of None \<Rightarrow> [] | Some x \<Rightarrow> [x])"

text \<open>
  What the goroutine of an operation gets from outside: an outcome is one that \<open>Execute\<close> can return, and a new identifier is one no
  stored operation has.
\<close>

definition input_ok :: "worker_input \<Rightarrow> agent \<Rightarrow> bool" where
  "input_ok inp s \<longleftrightarrow> outcome_ok (wi_outcome inp) \<and> (\<forall>i. wi_new_id inp = Some i \<longrightarrow> bget (operations s) i = None)"

text \<open>The memory of a new process.\<close>

definition rebooted :: "agent \<Rightarrow> agent" where
  "rebooted s = s\<lparr>running := [], canceled := [], schedulerTickAt := 0, schedulerInterval := 0\<rparr>"

inductive sys_step :: "env \<Rightarrow> system \<Rightarrow> system \<Rightarrow> bool" for env where
  tick_begins: "sy_tick y = None \<Longrightarrow> ActiveDesiredState (sy_agent y) = Inr (Some d) \<Longrightarrow> RunningOperations (sy_agent y) = Inr rs \<Longrightarrow>
    sys_step env y (y\<lparr>sy_tick := Some \<lparr>tk_now = now, tk_max = MaxParallelIOJobs (ds_RuntimePolicy d), tk_plans = ds_Plans d,
      tk_running = map op_PlanID rs\<rparr>\<rparr>)"
| tick_plan: "sy_tick y = Some k \<Longrightarrow> tk_plans k = p # ps \<Longrightarrow>
    tick_plan env (tk_now k) (tk_max k) p (tk_running k) (sy_agent y) = Inr (t, w, x) \<Longrightarrow>
    sys_step env y \<lparr>sy_agent = t, sy_workers = joined (sy_workers y) w,
      sy_tick = Some (k\<lparr>tk_plans := ps, tk_running := now_running p w (tk_running k)\<rparr>)\<rparr>"
| tick_ends: "sy_tick y = Some k \<Longrightarrow>
    (case tk_plans k of [] \<Rightarrow> True | p # _ \<Rightarrow> isl (tick_plan env (tk_now k) (tk_max k) p (tk_running k) (sy_agent y))) \<Longrightarrow>
    sys_step env y (y\<lparr>sy_agent := (sy_agent y)\<lparr>schedulerTickAt := tk_now k\<rparr>, sy_tick := None\<rparr>)"
| works: "sy_workers y = ws1 @ w # ws2 \<Longrightarrow> input_ok inp (sy_agent y) \<Longrightarrow> worker_step inp w (sy_agent y) = (t, w') \<Longrightarrow>
    sys_step env y (y\<lparr>sy_agent := t, sy_workers := joined ws1 w' @ ws2\<rparr>)"
| progress: "w \<in> set (sy_workers y) \<Longrightarrow> updateOperation (op_ID (wk_record w)) (persisted_record p) (sy_agent y) = (t, x) \<Longrightarrow>
    sys_step env y (y\<lparr>sy_agent := t\<rparr>)"
| logs: "operationLog now i sect level code files bytes (sy_agent y) = (t, x) \<Longrightarrow> sys_step env y (y\<lparr>sy_agent := t\<rparr>)"
| dispatch: "sy_tick y = None \<Longrightarrow> handleJobDispatch env protocol job (sy_agent y, c) = ((t, c'), w, x) \<Longrightarrow>
    sys_step env y (y\<lparr>sy_agent := t, sy_workers := joined (sy_workers y) w\<rparr>)"
| cancel: "sys_step env y (y\<lparr>sy_agent := fst (CancelOperation i (sy_agent y))\<rparr>)"
| configure: "sy_tick y = None \<Longrightarrow> ApplyDesiredState env now agentID snapshot (sy_agent y) = (t, x) \<Longrightarrow> sys_step env y (y\<lparr>sy_agent := t\<rparr>)"
| configured: "ClearPendingConfigResult n (sy_agent y) = (t, x) \<Longrightarrow> sys_step env y (y\<lparr>sy_agent := t\<rparr>)"
| reported: "markOperationReported i now (sy_agent y) = (t, x) \<Longrightarrow> sys_step env y (y\<lparr>sy_agent := t\<rparr>)"
| uploaded: "MarkOperationUploaded i (sy_agent y) = (t, x) \<Longrightarrow> sys_step env y (y\<lparr>sy_agent := t\<rparr>)"
| logs_sent: "markLogsSent i n now (sy_agent y) = (t, x) \<Longrightarrow> sys_step env y (y\<lparr>sy_agent := t\<rparr>)"
| logs_acked: "acknowledgeLogs sweep i n (sy_agent y) = (t, x) \<Longrightarrow> sys_step env y (y\<lparr>sy_agent := t\<rparr>)"
| restart: "RecoverRunningOperations now (rebooted (sy_agent y)) = (t, Inr n) \<Longrightarrow>
    sys_step env y \<lparr>sy_agent = start_scheduler later interval t, sy_workers = [], sy_tick = None\<rparr>"

section \<open>The ledger\<close>

record ledger =
  ld_running :: "uuid \<Rightarrow> uuid option"
  ld_closed :: "uuid set"
  ld_cap :: nat
  ld_forbid :: "uuid set"

definition ld_fresh :: "ledger \<Rightarrow> uuid \<Rightarrow> bool" where
  "ld_fresh l i \<longleftrightarrow> i \<notin> dom (ld_running l) \<and> i \<notin> ld_closed l"

inductive ledger_step :: "ledger \<Rightarrow> ledger \<Rightarrow> bool" where
  idle: "ledger_step l l"
| set_limits: "ledger_step l (l\<lparr>ld_cap := n, ld_forbid := F\<rparr>)"
| admit: "ld_fresh l i \<Longrightarrow> card (dom (ld_running l)) < ld_cap l \<Longrightarrow> p \<in> ld_forbid l \<longrightarrow> p \<notin> Map.ran (ld_running l) \<Longrightarrow>
    ledger_step l (l\<lparr>ld_running := (ld_running l)(i \<mapsto> p)\<rparr>)"
| skip: "ld_fresh l i \<Longrightarrow> ledger_step l (l\<lparr>ld_closed := insert i (ld_closed l)\<rparr>)"
| close: "ld_running l i = Some p \<Longrightarrow> ledger_step l (l\<lparr>ld_running := (ld_running l)(i := None), ld_closed := insert i (ld_closed l)\<rparr>)"
| again: "ld_running l i = Some p \<Longrightarrow> ld_fresh l j \<Longrightarrow>
    ledger_step l (l\<lparr>ld_running := (ld_running l)(i := None, j \<mapsto> p), ld_closed := insert i (ld_closed l)\<rparr>)"
| lose: "ledger_step l (l\<lparr>ld_running := Map.empty, ld_closed := ld_closed l \<union> dom (ld_running l)\<rparr>)"

text \<open>The ledger of the stored records, and the limits of the active state.\<close>

definition held :: "(uuid \<times> operation_record cell) list \<Rightarrow> uuid \<Rightarrow> uuid option" where
  "held b i = (case bget b i of Some (Valid r) \<Rightarrow> if is_running r then Some (op_PlanID r) else None | _ \<Rightarrow> None)"

definition finished_ids :: "(uuid \<times> operation_record cell) list \<Rightarrow> uuid set" where
  "finished_ids b = {i. case bget b i of Some (Valid r) \<Rightarrow> \<not> is_running r | _ \<Rightarrow> False}"

definition forbidding :: "desired_state \<Rightarrow> uuid set" where
  "forbidding d = {i. \<forall>p \<in> set (ds_Plans d). ps_PlanID p = i \<longrightarrow> equal_fold (ps_ConcurrencyPolicy p) ''FORBID''}"

definition ledger_of :: "agent \<Rightarrow> ledger" where
  "ledger_of s = \<lparr>ld_running = held (operations s), ld_closed = finished_ids (operations s),
     ld_cap = (case desired_active s of Some (Valid d) \<Rightarrow> MaxParallelIOJobs (ds_RuntimePolicy d) | _ \<Rightarrow> 0),
     ld_forbid = (case desired_active s of Some (Valid d) \<Rightarrow> forbidding d | _ \<Rightarrow> UNIV)\<rparr>"

lemma held_put: "bsorted b \<Longrightarrow> held (bput b i (Valid r)) = (held b)(i := if is_running r then Some (op_PlanID r) else None)"
  by (auto simp: held_def bucket_simps fun_eq_iff)

lemma finished_put:
  "bsorted b \<Longrightarrow> finished_ids (bput b i (Valid r)) = (if is_running r then finished_ids b - {i} else insert i (finished_ids b))"
  by (auto simp: finished_ids_def bucket_simps)

lemma held_fresh: "bget b i = None \<Longrightarrow> held b i = None \<and> i \<notin> finished_ids b"
  by (simp add: held_def finished_ids_def)

lemma held_Some: "held b i = Some p \<longleftrightarrow> (\<exists>r. bget b i = Some (Valid r) \<and> is_running r \<and> op_PlanID r = p)"
  by (auto simp: held_def split: option.splits cell.splits)

definition keyed :: "(uuid \<times> operation_record cell) list \<Rightarrow> bool" where
  "keyed b \<longleftrightarrow> bsorted b \<and> (\<forall>k r. bget b k = Some (Valid r) \<longrightarrow> op_ID r = k)"

text \<open>The running operations, counted and by plan.\<close>

lemma filter_cells:
  "map snd xs = map Valid rs \<Longrightarrow>
     map snd (filter (\<lambda>kv. case snd kv of Valid r \<Rightarrow> is_running r | Malformed \<Rightarrow> False) xs) = map Valid (filter is_running rs)"
  by (induction xs arbitrary: rs) (auto simp: Cons_eq_map_conv)

lemma RunningOperations_held:
  assumes "RunningOperations s = Inr rs" "bsorted (operations s)"
  shows "length rs = card (dom (held (operations s)))" "set (map op_PlanID rs) = Map.ran (held (operations s))"
proof -
  let ?b = "operations s"
  define xs where "xs = filter (\<lambda>kv. case snd kv of Valid r \<Rightarrow> is_running r | Malformed \<Rightarrow> False) (bitems ?b)"
  from assms(1) obtain rs' where rs': "decode_all (bitems ?b) = Inr rs'" "rs = filter is_running rs'"
    by (auto simp: RunningOperations_def split: sum.splits)
  then have v: "map snd xs = map Valid rs"
    using filter_cells[of "bitems ?b" rs'] by (simp add: decode_all_Inr xs_def)
  have in_xs: "(i, c) \<in> set xs \<longleftrightarrow> (\<exists>r. c = Valid r \<and> bget ?b i = Some (Valid r) \<and> is_running r)" for i c
    using bkt.in_items[OF assms(2), of i c] by (cases c) (auto simp: xs_def)
  have "distinct (map fst xs)"
    using bkt.distinct_keys[OF assms(2)] unfolding xs_def by (rule distinct_map_filter)
  moreover have "dom (held ?b) = set (map fst xs)"
  proof (rule set_eqI)
    fix i
    have "i \<in> dom (held ?b) \<longleftrightarrow> (\<exists>r. bget ?b i = Some (Valid r) \<and> is_running r)"
      by (auto simp: dom_def held_Some)
    also have "\<dots> \<longleftrightarrow> (\<exists>c. (i, c) \<in> set xs)" by (auto simp: in_xs)
    finally show "i \<in> dom (held ?b) \<longleftrightarrow> i \<in> set (map fst xs)" by force
  qed
  ultimately have "card (dom (held ?b)) = length xs"
    using distinct_card[of "map fst xs"] by simp
  with v show "length rs = card (dom (held ?b))" by (metis length_map)
  have "r \<in> set rs \<longleftrightarrow> (\<exists>i. (i, Valid r) \<in> set xs)" for r
  proof -
    have "r \<in> set rs \<longleftrightarrow> Valid r \<in> set (map snd xs)" using v by auto
    then show ?thesis by force
  qed
  then have "r \<in> set rs \<longleftrightarrow> (\<exists>i. bget ?b i = Some (Valid r) \<and> is_running r)" for r by (simp add: in_xs)
  then show "set (map op_PlanID rs) = Map.ran (held ?b)"
    by (simp add: Map.ran_def held_Some set_eq_iff image_iff) blast
qed

lemma RunningOperations_ids:
  assumes "RunningOperations s = Inr rs" "keyed (operations s)"
  shows "distinct (map op_ID rs)" "\<And>r. r \<in> set rs \<Longrightarrow> held (operations s) (op_ID r) = Some (op_PlanID r)"
proof -
  let ?b = "operations s"
  have b: "bsorted ?b" using assms(2) by (simp add: keyed_def)
  define xs where "xs = filter (\<lambda>kv. case snd kv of Valid r \<Rightarrow> is_running r | Malformed \<Rightarrow> False) (bitems ?b)"
  from assms(1) obtain rs' where "decode_all (bitems ?b) = Inr rs'" "rs = filter is_running rs'"
    by (auto simp: RunningOperations_def split: sum.splits)
  then have v: "map snd xs = map Valid rs"
    using filter_cells[of "bitems ?b" rs'] by (simp add: decode_all_Inr xs_def)
  have x: "bget ?b k = Some (Valid r) \<and> is_running r \<and> op_ID r = k" if "(k, Valid r) \<in> set xs" for k r
    using that assms(2) bkt.in_items[OF b, of k "Valid r"] by (auto simp: xs_def keyed_def)
  have "map fst xs = map (\<lambda>c. case c of Valid r \<Rightarrow> op_ID r | Malformed \<Rightarrow> 0) (map snd xs)"
  proof -
    have "k = (case c of Valid r \<Rightarrow> op_ID r | Malformed \<Rightarrow> 0)" if "(k, c) \<in> set xs" for k c
      using that x by (cases c) (auto simp: xs_def)
    then show ?thesis by auto
  qed
  then have "map fst xs = map op_ID rs" using v by simp
  moreover have "distinct (map fst xs)"
    using bkt.distinct_keys[OF b] unfolding xs_def by (rule distinct_map_filter)
  ultimately show "distinct (map op_ID rs)" by simp
  fix r assume "r \<in> set rs"
  then have "Valid r \<in> set (map snd xs)" using v by simp
  then obtain k where "(k, Valid r) \<in> set xs" by auto
  from x[OF this] show "held ?b (op_ID r) = Some (op_PlanID r)" by (auto simp: held_Some)
qed

lemma held_finite: "finite (dom (held b))"
proof -
  have "dom (held b) \<subseteq> set (map fst b)"
    by (auto simp: held_Some bget_def dom_def dest!: map_of_SomeD) force
  then show ?thesis by (rule finite_subset) simp
qed

lemma RunningOperations_plan:
  assumes "RunningOperations s = Inr rs" "keyed (operations s)"
  shows "length (filter (\<lambda>r. op_PlanID r = p) rs) = card {i. held (operations s) i = Some p}"
proof -
  let ?h = "held (operations s)" and ?rs = "filter (\<lambda>r. op_PlanID r = p) rs"
  note ids = RunningOperations_ids[OF assms]
  have sub: "op_ID ` set rs \<subseteq> dom ?h" using ids(2) by auto
  have "card (op_ID ` set rs) = card (dom ?h)"
    using distinct_card[OF ids(1)] RunningOperations_held(1)[OF assms(1)] assms(2) by (simp add: keyed_def)
  then have all: "op_ID ` set rs = dom ?h"
    by (rule card_subset_eq[OF held_finite sub])
  have "op_ID ` set ?rs = {i. ?h i = Some p}"
  proof (intro equalityI subsetI)
    fix i assume "i \<in> {i. ?h i = Some p}"
    then have "?h i = Some p" "i \<in> op_ID ` set rs" using all by auto
    then obtain r where "r \<in> set rs" "i = op_ID r" "?h (op_ID r) = Some p" by blast
    with ids(2)[of r] show "i \<in> op_ID ` set ?rs" by auto
  qed (use ids(2) in auto)
  moreover have "distinct (map op_ID ?rs)" using ids(1) by (rule distinct_map_filter)
  ultimately show ?thesis using distinct_card[of "map op_ID ?rs"] by simp
qed

section \<open>What a step does to the records\<close>

text \<open>The operations of the store that leave the active state alone.\<close>

named_theorems keeps_active

lemma updateLogState_active [keeps_active]: "desired_active (fst (updateLogState i f s)) = desired_active s"
  unfolding updateLogState_def by (rule db_update_inv[where P = "\<lambda>t. desired_active t = desired_active s"]) (auto split: option.splits cell.splits sum.splits)

lemma markLogsSent_active [keeps_active]: "desired_active (fst (markLogsSent i n now s)) = desired_active s"
  by (simp add: markLogsSent_def keeps_active)

lemma acknowledgeLogs_active [keeps_active]: "desired_active (fst (acknowledgeLogs sweep i n s)) = desired_active s"
  by (simp add: acknowledgeLogs_def keeps_active)

lemma ClearPending_active [keeps_active]: "desired_active (fst (ClearPendingConfigResult n s)) = desired_active s"
  unfolding ClearPendingConfigResult_def
  by (rule db_update_inv[where P = "\<lambda>t. desired_active t = desired_active s"]) (auto split: option.splits cell.splits if_splits)

lemma updateOperation_active [keeps_active]: "desired_active (fst (updateOperation i f s)) = desired_active s"
  unfolding updateOperation_def
  by (rule db_update_inv[where P = "\<lambda>t. desired_active t = desired_active s"]) (auto split: option.splits cell.splits)

lemma CancelOperation_active [keeps_active]: "desired_active (fst (CancelOperation i s)) = desired_active s"
  by (simp add: CancelOperation_def)

lemma Recover_active [keeps_active]: "desired_active (fst (RecoverRunningOperations now s)) = desired_active s"
  unfolding RecoverRunningOperations_def
  by (rule db_update_inv[where P = "\<lambda>t. desired_active t = desired_active s"]) (auto simp: Let_def split: sum.splits)

text \<open>
  The ways a step changes the records: the marks and the progress of a stored one, a new one, the end of a running one, and the end of a running
  one together with its next attempt. A record that has ended only gets marks.
\<close>

definition marked :: "operation_record \<Rightarrow> operation_record \<Rightarrow> bool" where
  "marked r r' \<longleftrightarrow> op_ID r' = op_ID r \<and> op_PlanID r' = op_PlanID r \<and> is_running r' = is_running r \<and>
     (\<not> is_running r \<longrightarrow> (\<exists>u x. r' = r\<lparr>op_Uploaded := u, op_LastReportedAt := x\<rparr>))"

inductive record_change :: "(uuid \<times> operation_record cell) list \<Rightarrow> (uuid \<times> operation_record cell) list \<Rightarrow> bool" where
  same: "record_change b b"
| mark: "bget b (op_ID r) = Some (Valid r) \<Longrightarrow> marked r r' \<Longrightarrow> record_change b (bput b (op_ID r) (Valid r'))"
| new: "bget b (op_ID r) = None \<Longrightarrow> record_change b (bput b (op_ID r) (Valid r))"
| ended: "held b (op_ID r) = Some (op_PlanID r) \<Longrightarrow> \<not> is_running r \<Longrightarrow> record_change b (bput b (op_ID r) (Valid r))"
| again: "held b (op_ID r) = Some (op_PlanID r) \<Longrightarrow> \<not> is_running r \<Longrightarrow> bget b (op_ID n) = None \<Longrightarrow> is_running n \<Longrightarrow> op_PlanID n = op_PlanID r \<Longrightarrow>
    record_change b (bput (bput b (op_ID r) (Valid r)) (op_ID n) (Valid n))"

lemma keyed_put: "keyed b \<Longrightarrow> keyed (bput b (op_ID r) (Valid r))"
  by (auto simp: keyed_def bucket_simps)

lemma record_change_keyed: "record_change b b' \<Longrightarrow> keyed b \<Longrightarrow> keyed b'"
proof (induction rule: record_change.induct)
  case (mark b r r')
  then have "op_ID r' = op_ID r" by (simp add: marked_def)
  with keyed_put[OF mark(3), of r'] show ?case by simp
qed (simp_all add: keyed_put)

lemma updateOperation_change:
  assumes "updateOperation i f s = (t, x)" "keyed (operations s)" "\<And>r. bget (operations s) i = Some (Valid r) \<Longrightarrow> marked r (f r)"
  shows "record_change (operations s) (operations t)"
  using updateOperation_cases[OF assms(1)]
proof (elim disjE exE conjE)
  fix r assume r: "bget (operations s) i = Some (Valid r)" "operations t = bput (operations s) i (Valid (f r))"
  with assms(2) have "op_ID r = i" by (simp add: keyed_def)
  with r record_change.mark[of "operations s" r "f r"] assms(3) show ?thesis by simp
qed (simp add: record_change.same)

lemma markedI: "marked r (r\<lparr>op_Uploaded := u, op_LastReportedAt := x\<rparr>)"
  unfolding marked_def by (auto simp: is_running_def)

lemma marked_simps [simp]:
  "marked r (r\<lparr>op_LastReportedAt := now\<rparr>)" "marked r (if Terminal r then r\<lparr>op_Uploaded := True\<rparr> else r)"
proof -
  have "r\<lparr>op_LastReportedAt := now\<rparr> = r\<lparr>op_Uploaded := op_Uploaded r, op_LastReportedAt := now\<rparr>"
    "r\<lparr>op_Uploaded := True\<rparr> = r\<lparr>op_Uploaded := True, op_LastReportedAt := op_LastReportedAt r\<rparr>"
    "r = r\<lparr>op_Uploaded := op_Uploaded r, op_LastReportedAt := op_LastReportedAt r\<rparr>"
    by simp_all
  then show "marked r (r\<lparr>op_LastReportedAt := now\<rparr>)" "marked r (if Terminal r then r\<lparr>op_Uploaded := True\<rparr> else r)"
    using markedI[of r] by metis+
qed

lemma persisted_marked: "is_running r \<Longrightarrow> marked r (persisted_record p r)"
  by (auto simp: marked_def persisted_record_def Let_def is_running_def)

text \<open>
  A step of a goroutine: it keeps its record and the store, or it ends with its record closed, or it goes on with the next attempt.
\<close>

definition worker_effect :: "worker \<Rightarrow> agent \<Rightarrow> agent \<Rightarrow> worker option \<Rightarrow> bool" where
  "worker_effect w s t w' \<longleftrightarrow> desired_active t = desired_active s \<and>
     (operations t = operations s \<and> (\<forall>x. w' = Some x \<longrightarrow> wk_record x = wk_record w) \<or>
      (\<exists>r. op_ID r = op_ID (wk_record w) \<and> op_PlanID r = op_PlanID (wk_record w) \<and> \<not> is_running r \<and>
        (w' = None \<and> operations t = bput (operations s) (op_ID r) (Valid r) \<or>
         (\<exists>x. w' = Some x \<and> bget (operations s) (op_ID (wk_record x)) = None \<and> is_running (wk_record x) \<and> op_PlanID (wk_record x) = op_PlanID r \<and>
           operations t = bput (bput (operations s) (op_ID r) (Valid r)) (op_ID (wk_record x)) (Valid (wk_record x))))))"

lemma outcome_not_running:
  assumes "oc_Status oc \<noteq> ''RUNNING''"
  shows "\<not> is_running (outcome_record oc now r)" "op_ID (outcome_record oc now r) = op_ID r" "op_PlanID (outcome_record oc now r) = op_PlanID r"
  using assms by (simp_all add: outcome_record_def is_running_def)

lemma finish_attempt_effect:
  assumes fin: "finish_attempt inp oc w s = (t, w')" and inp: "input_ok inp s" and oc: "oc_Status oc \<noteq> ''RUNNING''"
  shows "worker_effect w s t w'"
proof -
  obtain code level where c: "outcome_log oc = (code, level)" by fastforce
  obtain u logged where l: "operationLog (wi_log_at inp) (op_ID (wk_record w)) ''backup'' level code (oc_FilesDone oc) (oc_BytesDone oc) s = (u, logged)"
    by fastforce
  define oc' where "oc' = (case logged of Inr _ \<Rightarrow> oc | Inl _ \<Rightarrow> oc\<lparr>oc_Status := ''FAILED'', oc_ErrorCode := ''STATE_STORAGE_UNAVAILABLE''\<rparr>)"
  define r where "r = outcome_record oc' (wi_finish_at inp) (wk_record w)"
  have "oc_Status oc' \<noteq> ''RUNNING''" using oc by (simp add: oc'_def split: sum.splits)
  note r = outcome_not_running[OF this, of "wi_finish_at inp" "wk_record w", folded r_def]
  have u: "operations u = operations s" "desired_active u = desired_active s"
    using operationLog_keeps[OF l] by (simp_all add: same_store_def)
  obtain v x where f: "finishWithRetry (wi_retry_at inp) (wi_start_at inp) (wi_new_id inp) (wk_plan w) r (wk_deadline w)
      (\<not> run_canceled (wi_ctx_done inp) (wk_runs w) u) u = (v, x)"
    by fastforce
  have e: "operations (end_worker w v) = operations v" "desired_active (end_worker w v) = desired_active v"
    using end_worker_keeps[of v w] by (simp_all add: same_store_def)
  note cases = finishWithRetry_cases[OF f]
  show ?thesis
  proof (cases "\<exists>n. x = Inr (Some n)")
    case False
    with fin c l f have "t = end_worker w v" "w' = None"
      by (auto simp: finish_attempt_def Let_def oc'_def r_def split: sum.splits option.splits)
    with cases False e r u show ?thesis
      by (auto simp: worker_effect_def split: sum.splits option.splits)
  next
    case True
    then obtain n where n: "x = Inr (Some n)" by blast
    with fin c l f have "t = BeginOperation (op_ID n) v"
      "w' = Some (w\<lparr>wk_record := n, wk_deadline := op_Deadline n, wk_runs := wk_runs w @ [op_ID n], wk_phase := Waiting\<rparr>)"
      by (auto simp: finish_attempt_def Let_def oc'_def r_def)
    moreover have "bget (operations s) (op_ID n) = None"
      using cases n inp by (simp add: input_ok_def)
    ultimately show ?thesis
      using cases n r u by (auto simp: worker_effect_def BeginOperation_def retry_of_def is_running_def)
  qed
qed

lemma give_up_effect: "worker_effect w s (give_up code inp w s) None"
proof -
  let ?r = "(wk_record w)\<lparr>op_Status := ''CANCELED'', op_ErrorCode := code, op_FinishedAt := wi_finish_at inp\<rparr>"
  obtain u x where l: "operationLog (wi_log_at inp) (op_ID ?r) ''backup'' ''ERROR'' code 0 0 s = (u, x)" by fastforce
  obtain v y where p: "PutOperation ?r u = (v, y)" by fastforce
  have g: "give_up code inp w s = end_worker w v" using l p by (simp add: give_up_def)
  have "\<not> is_running ?r" by (simp add: is_running_def)
  with operationLog_keeps[OF l] PutOperation_cases[OF p] end_worker_keeps[of v w] show ?thesis
    unfolding g worker_effect_def same_store_def
    by (cases y) (simp_all, (intro disjI2 exI[of _ ?r], simp))
qed

lemma worker_step_effect:
  assumes "worker_step inp w s = (t, w')" "input_ok inp s"
  shows "worker_effect w s t w'"
proof (cases "wk_phase w")
  case Starting
  obtain u x where l: "operationLog (wi_log_at inp) (op_ID (wk_record w)) ''backup'' ''INFO'' ''BACKUP_STARTED'' 0 0 s = (u, x)" by fastforce
  with assms Starting operationLog_keeps[OF l] show ?thesis
    by (cases x) (auto simp: worker_step_def begin_attempt_def worker_effect_def same_store_def)
next
  case Executing
  with assms show ?thesis
    by (auto simp: worker_step_def input_ok_def outcome_ok_def intro!: finish_attempt_effect)
next
  case Unlogged
  with assms show ?thesis
    by (auto simp: worker_step_def unlogged_outcome_def intro!: finish_attempt_effect)
next
  case Waiting
  with assms show ?thesis
    by (auto simp: worker_step_def wake_attempt_def give_up_effect split: if_splits) (simp add: worker_effect_def)
qed

section \<open>The invariant\<close>

definition worker_ids :: "worker list \<Rightarrow> uuid list" where
  "worker_ids ws = map (\<lambda>w. op_ID (wk_record w)) ws"

definition workers_ok :: "(uuid \<times> operation_record cell) list \<Rightarrow> worker list \<Rightarrow> bool" where
  "workers_ok b ws \<longleftrightarrow> distinct (worker_ids ws) \<and>
     (\<forall>w \<in> set ws. is_running (wk_record w) \<and> held b (op_ID (wk_record w)) = Some (op_PlanID (wk_record w)))"

definition tick_ok :: "agent \<Rightarrow> tick \<Rightarrow> bool" where
  "tick_ok s k \<longleftrightarrow> (\<exists>d. desired_active s = Some (Valid d) \<and> tk_max k = MaxParallelIOJobs (ds_RuntimePolicy d) \<and>
     set (tk_plans k) \<subseteq> set (ds_Plans d) \<and> Map.ran (held (operations s)) \<subseteq> set (tk_running k))"

definition sys_ok :: "env \<Rightarrow> system \<Rightarrow> bool" where
  "sys_ok env y \<longleftrightarrow> keyed (operations (sy_agent y)) \<and> active_ok env (sy_agent y) \<and> card (dom (held (operations (sy_agent y)))) \<le> 16 \<and>
     workers_ok (operations (sy_agent y)) (sy_workers y) \<and> (\<forall>k. sy_tick y = Some k \<longrightarrow> tick_ok (sy_agent y) k)"

lemma workers_ok_append [simp]:
  "workers_ok b (ws1 @ ws2) \<longleftrightarrow> workers_ok b ws1 \<and> workers_ok b ws2 \<and> set (worker_ids ws1) \<inter> set (worker_ids ws2) = {}"
  by (auto simp: workers_ok_def worker_ids_def)

lemma workers_ok_Nil [simp]: "workers_ok b []"
  by (simp add: workers_ok_def worker_ids_def)

lemma workers_ok_Cons [simp]:
  "workers_ok b (w # ws) \<longleftrightarrow> is_running (wk_record w) \<and> held b (op_ID (wk_record w)) = Some (op_PlanID (wk_record w)) \<and>
     op_ID (wk_record w) \<notin> set (worker_ids ws) \<and> workers_ok b ws"
  by (auto simp: workers_ok_def worker_ids_def)

lemma workers_ok_cong: "workers_ok b ws \<Longrightarrow> (\<And>i. i \<in> set (worker_ids ws) \<Longrightarrow> held b' i = held b i) \<Longrightarrow> workers_ok b' ws"
  by (auto simp: workers_ok_def worker_ids_def)

lemma workers_held: "workers_ok b ws \<Longrightarrow> i \<in> set (worker_ids ws) \<Longrightarrow> i \<in> dom (held b)"
  by (auto simp: workers_ok_def worker_ids_def)

text \<open>A step that the ledger does not see.\<close>

definition quiet :: "agent \<Rightarrow> agent \<Rightarrow> bool" where
  "quiet s t \<longleftrightarrow> desired_active t = desired_active s \<and> held (operations t) = held (operations s) \<and>
     finished_ids (operations t) = finished_ids (operations s) \<and> keyed (operations t)"

lemma quiet_ledger: "quiet s t \<Longrightarrow> ledger_of t = ledger_of s"
  by (simp add: quiet_def ledger_of_def)

lemma quiet_ok: "sys_ok env y \<Longrightarrow> quiet (sy_agent y) t \<Longrightarrow> sys_ok env (y\<lparr>sy_agent := t\<rparr>)"
  by (auto simp: sys_ok_def quiet_def active_ok_def workers_ok_def tick_ok_def)

lemma quiet_same: "keyed (operations s) \<Longrightarrow> operations t = operations s \<Longrightarrow> desired_active t = desired_active s \<Longrightarrow> quiet s t"
  by (simp add: quiet_def)

lemma quiet_mark:
  assumes "keyed (operations s)" "updateOperation i f s = (t, x)" "\<And>r. bget (operations s) i = Some (Valid r) \<Longrightarrow> marked r (f r)"
  shows "quiet s t"
  using updateOperation_cases[OF assms(2)]
proof (elim disjE exE conjE)
  fix r assume r: "bget (operations s) i = Some (Valid r)" "operations t = bput (operations s) i (Valid (f r))"
  have b: "bsorted (operations s)" using assms(1) by (simp add: keyed_def)
  have m: "marked r (f r)" by (rule assms(3)[OF r(1)])
  have h: "held (operations s) i = (if is_running r then Some (op_PlanID r) else None)" "i \<in> finished_ids (operations s) \<longleftrightarrow> \<not> is_running r"
    using r(1) by (simp_all add: held_def finished_ids_def)
  have "desired_active t = desired_active s" using updateOperation_active[of i f s] assms(2) by simp
  moreover have "keyed (operations t)"
    using record_change_keyed[OF updateOperation_change[OF assms(2,1,3)] assms(1)] .
  ultimately show ?thesis
    using h m r b by (auto simp: quiet_def held_put finished_put marked_def fun_eq_iff)
next
  assume "operations t = operations s"
  moreover have "desired_active t = desired_active s" using updateOperation_active[of i f s] assms(2) by simp
  ultimately show ?thesis using assms(1) by (intro quiet_same)
qed

section \<open>Every step is a step of the ledger\<close>

lemma keyed_sorted: "keyed b \<Longrightarrow> bsorted b"
  by (simp add: keyed_def)

lemma active_cap:
  assumes "active_ok env s" "desired_active s = Some (Valid d)"
  shows "MaxParallelIOJobs (ds_RuntimePolicy d) \<le> 16" "ld_cap (ledger_of s) = MaxParallelIOJobs (ds_RuntimePolicy d)"
    "ld_forbid (ledger_of s) = forbidding d"
  using assms state_Validate_policy[of "load_location env" "sha256 env" d] by (auto simp: active_ok_def ledger_of_def)

text \<open>A new record: a running one with its goroutine, or a closed one.\<close>

definition store_step :: "env \<Rightarrow> worker list \<Rightarrow> worker list \<Rightarrow> agent \<Rightarrow> agent \<Rightarrow> bool" where
  "store_step env ws ws' s t \<longleftrightarrow> ledger_step (ledger_of s) (ledger_of t) \<and> keyed (operations t) \<and> active_ok env t \<and>
     card (dom (held (operations t))) \<le> 16 \<and> workers_ok (operations t) ws'"

lemma run_added:
  assumes k: "keyed (operations s)" "active_ok env s" "workers_ok (operations s) ws" "desired_active s = Some (Valid d)"
    and t: "desired_active t = desired_active s" "operations t = bput (operations s) (op_ID r) (Valid r)"
    and r: "bget (operations s) (op_ID r) = None" "is_running r" "wk_record w = r"
    and c: "card (dom (held (operations s))) < MaxParallelIOJobs (ds_RuntimePolicy d)"
    and f: "op_PlanID r \<in> forbidding d \<Longrightarrow> op_PlanID r \<notin> Map.ran (held (operations s))"
  shows "store_step env ws (ws @ [w]) s t" "Map.ran (held (operations t)) = insert (op_PlanID r) (Map.ran (held (operations s)))"
proof -
  note b = keyed_sorted[OF k(1)] and h = held_fresh[OF r(1)]
  have ht: "held (operations t) = (held (operations s))(op_ID r \<mapsto> op_PlanID r)"
    and ft: "finished_ids (operations t) = finished_ids (operations s)"
    using b t(2) r(2) h by (auto simp: held_put finished_put)
  have "ledger_of t = (ledger_of s)\<lparr>ld_running := (ld_running (ledger_of s))(op_ID r \<mapsto> op_PlanID r)\<rparr>"
    using ht ft t(1) by (simp add: ledger_of_def)
  moreover have "ld_fresh (ledger_of s) (op_ID r)"
    using h by (simp add: ld_fresh_def ledger_of_def domIff)
  ultimately have l: "ledger_step (ledger_of s) (ledger_of t)"
    using c f active_cap[OF k(2,4)] ledger_step.admit[of "ledger_of s" "op_ID r" "op_PlanID r"] by (auto simp: ledger_of_def)
  have "card (dom (held (operations t))) \<le> 16"
    using c active_cap(1)[OF k(2,4)] held_finite[of "operations s"] ht by (simp add: card_insert_if)
  moreover have "workers_ok (operations t) (ws @ [w])"
  proof -
    have "op_ID r \<notin> set (worker_ids ws)" using workers_held[OF k(3), of "op_ID r"] h by (auto simp: domIff)
    moreover from this have "workers_ok (operations t) ws" by (intro workers_ok_cong[OF k(3)]) (auto simp: ht)
    ultimately show ?thesis using ht r(2,3) by (simp add: worker_ids_def)
  qed
  ultimately show "store_step env ws (ws @ [w]) s t"
    using l keyed_put[OF k(1), of r] t k(2) by (simp add: store_step_def active_ok_def)
  show "Map.ran (held (operations t)) = insert (op_PlanID r) (Map.ran (held (operations s)))"
    using ht h by simp
qed

lemma closed_added:
  assumes k: "keyed (operations s)" "active_ok env s" "workers_ok (operations s) ws" "card (dom (held (operations s))) \<le> 16"
    and t: "desired_active t = desired_active s" "operations t = bput (operations s) (op_ID r) (Valid r)"
    and r: "bget (operations s) (op_ID r) = None" "\<not> is_running r"
  shows "store_step env ws ws s t" "held (operations t) = held (operations s)"
proof -
  note b = keyed_sorted[OF k(1)] and h = held_fresh[OF r(1)]
  have ht: "held (operations t) = held (operations s)" and ft: "finished_ids (operations t) = insert (op_ID r) (finished_ids (operations s))"
    using b t(2) r(2) h by (auto simp: held_put finished_put)
  have "ledger_of t = (ledger_of s)\<lparr>ld_closed := insert (op_ID r) (ld_closed (ledger_of s))\<rparr>"
    using ht ft t(1) by (simp add: ledger_of_def)
  moreover have "ld_fresh (ledger_of s) (op_ID r)"
    using h by (simp add: ld_fresh_def ledger_of_def domIff)
  ultimately have "ledger_step (ledger_of s) (ledger_of t)"
    using ledger_step.skip[of "ledger_of s" "op_ID r"] by simp
  then show "store_step env ws ws s t"
    using keyed_put[OF k(1), of r] t k ht by (simp add: store_step_def active_ok_def workers_ok_def)
  show "held (operations t) = held (operations s)" by (rule ht)
qed

lemma same_step:
  assumes "keyed (operations s)" "active_ok env s" "workers_ok (operations s) ws" "card (dom (held (operations s))) \<le> 16"
    and "desired_active t = desired_active s" "operations t = operations s"
  shows "store_step env ws ws s t"
  using assms ledger_step.idle[of "ledger_of s"] by (simp add: store_step_def ledger_of_def active_ok_def)

text \<open>One plan of a tick.\<close>

lemma tick_plan_step:
  assumes k: "keyed (operations s)" "active_ok env s" "workers_ok (operations s) ws" "card (dom (held (operations s))) \<le> 16"
    and d: "desired_active s = Some (Valid d)" "p \<in> set (ds_Plans d)" "Map.ran (held (operations s)) \<subseteq> set rb"
    and run: "tick_plan env now (MaxParallelIOJobs (ds_RuntimePolicy d)) p rb s = Inr (t, w, x)"
  shows "store_step env ws (joined ws w) s t \<and> desired_active t = desired_active s \<and>
    Map.ran (held (operations t)) \<subseteq> set (now_running p w rb)"
proof (cases "t = s \<and> w = None")
  case True
  with same_step[OF k, of s] d show ?thesis by (simp add: joined_def now_running_def)
next
  case False
  with run obtain rs where rs: "RunningOperations s = Inr rs"
    and room: "uint32_of (length rs) < MaxParallelIOJobs (ds_RuntimePolicy d) \<or> ConcurrencySkip (ps_ConcurrencyPolicy p) (ps_PlanID p \<in> set rb)"
    and adv: "advancePlan env p now rb s = (t, w, x)"
    by (cases "RunningOperations s") (simp_all add: tick_plan_def split: if_splits, force+)
  have n: "uint32_of (length rs) = card (dom (held (operations s)))"
    using RunningOperations_held(1)[OF rs keyed_sorted[OF k(1)]] k(4) by (simp add: uint32_of_def)
  from advancePlan_cases[OF adv] have act: "desired_active t = desired_active s" by simp
  from advancePlan_cases[OF adv] consider "operations t = operations s" "w = None" | "slot_added p rb s t w" by blast
  then show ?thesis
  proof cases
    case 1
    with same_step[OF k act] d act show ?thesis by (simp add: joined_def now_running_def)
  next
    case 2
    then obtain r where r: "bget (operations s) (op_ID r) = None" "op_PlanID r = ps_PlanID p" "operations t = bput (operations s) (op_ID r) (Valid r)"
      "case w of None \<Rightarrow> Terminal r \<and> \<not> is_running r | Some w \<Rightarrow> is_running r \<and> wk_record w = r \<and>
         \<not> ConcurrencySkip (ps_ConcurrencyPolicy p) (ps_PlanID p \<in> set rb)"
      by (cases w) (simp_all add: slot_added_def, blast+)
    show ?thesis
    proof (cases w)
      case None
      with closed_added[OF k act r(3,1)] r(4) d act show ?thesis by (simp add: joined_def now_running_def)
    next
      case (Some v)
      with r have v: "is_running r" "wk_record v = r" "\<not> ConcurrencySkip (ps_ConcurrencyPolicy p) (ps_PlanID p \<in> set rb)" by auto
      have "card (dom (held (operations s))) < MaxParallelIOJobs (ds_RuntimePolicy d)" using room v(3) n by simp
      moreover have "op_PlanID r \<notin> Map.ran (held (operations s))" if "op_PlanID r \<in> forbidding d"
        using that d v(3) r(2) by (auto simp: forbidding_def ConcurrencySkip_def)
      ultimately have "store_step env ws (ws @ [v]) s t" "Map.ran (held (operations t)) = insert (op_PlanID r) (Map.ran (held (operations s)))"
        using run_added[OF k(1,2,3) d(1) act r(3,1) v(1,2)] by auto
      with d act r(2) Some show ?thesis by (auto simp: joined_def now_running_def)
    qed
  qed
qed

text \<open>A dispatched job.\<close>

lemma dispatch_step:
  assumes k: "keyed (operations s)" "active_ok env s" "workers_ok (operations s) ws" "card (dom (held (operations s))) \<le> 16"
    and run: "handleJobDispatch env protocol job (s, c) = ((t, c'), w, x)"
  shows "store_step env ws (joined ws w) s t"
proof -
  from handleJobDispatch_cases[OF run] have act: "desired_active t = desired_active s" by simp
  show ?thesis
  proof (cases w)
    case None
    with handleJobDispatch_cases[OF run] have "job_closed s t" by simp
    with same_step[OF k act] closed_added(1)[OF k act] None show ?thesis
      by (auto simp: job_closed_def joined_def is_running_def)
  next
    case (Some v)
    with handleJobDispatch_cases[OF run] have "job_admitted s t v" by simp
    then obtain d rs where d: "ActiveDesiredState s = Inr (Some d)" "wk_plan v \<in> set (ds_Plans d)" "RunningOperations s = Inr rs"
      "\<not> no_capacity (MaxParallelIOJobs (ds_RuntimePolicy d)) (wk_plan v) rs"
      and v: "bget (operations s) (op_ID (wk_record v)) = None" "is_running (wk_record v)" "op_PlanID (wk_record v) = ps_PlanID (wk_plan v)"
        "operations t = bput (operations s) (op_ID (wk_record v)) (Valid (wk_record v))"
      by (auto simp: job_admitted_def)
    have a: "desired_active s = Some (Valid d)"
      using d(1) by (auto simp: ActiveDesiredState_def split: option.splits cell.splits)
    note rs = RunningOperations_held[OF d(3) keyed_sorted[OF k(1)]]
    have "card (dom (held (operations s))) < MaxParallelIOJobs (ds_RuntimePolicy d)"
      using d(4) rs(1) k(4) by (simp add: no_capacity_def uint32_of_def)
    moreover have "op_PlanID (wk_record v) \<notin> Map.ran (held (operations s))" if "op_PlanID (wk_record v) \<in> forbidding d"
    proof -
      have "equal_fold (ps_ConcurrencyPolicy (wk_plan v)) ''FORBID''" using that d(2) v(3) by (simp add: forbidding_def)
      moreover have "\<not> equal_fold ''ALLOW'' ''FORBID''" by code_simp
      ultimately have "ps_ConcurrencyPolicy (wk_plan v) \<noteq> ''ALLOW''" by metis
      with d(4) v(3) show ?thesis unfolding rs(2)[symmetric] by (auto simp: no_capacity_def list_ex_iff)
    qed
    ultimately show ?thesis
      using run_added(1)[OF k(1,2,3) a act v(4,1,2)] Some by (simp add: joined_def)
  qed
qed

text \<open>A step of a goroutine.\<close>

lemma worker_store_step:
  assumes k: "keyed (operations s)" "active_ok env s" "workers_ok (operations s) (ws1 @ w # ws2)" "card (dom (held (operations s))) \<le> 16"
    and eff: "worker_effect w s t w'"
  shows "store_step env (ws1 @ w # ws2) (joined ws1 w' @ ws2) s t \<and> Map.ran (held (operations t)) \<subseteq> Map.ran (held (operations s))"
proof -
  let ?i = "op_ID (wk_record w)" and ?p = "op_PlanID (wk_record w)"
  have b: "bsorted (operations s)" by (rule keyed_sorted[OF k(1)])
  have w: "workers_ok (operations s) ws1" "workers_ok (operations s) ws2" "is_running (wk_record w)" "held (operations s) ?i = Some ?p"
    "?i \<notin> set (worker_ids ws1)" "?i \<notin> set (worker_ids ws2)" "set (worker_ids ws1) \<inter> set (worker_ids ws2) = {}"
    using k(3) by (auto simp: workers_ok_def worker_ids_def)
  from eff have act: "desired_active t = desired_active s" by (simp add: worker_effect_def)
  then have a: "active_ok env t" using k(2) by (simp add: active_ok_def)
  consider (kept) "operations t = operations s" "\<forall>x. w' = Some x \<longrightarrow> wk_record x = wk_record w"
    | (closed) r where "op_ID r = ?i" "op_PlanID r = ?p" "\<not> is_running r" "w' = None" "operations t = bput (operations s) (op_ID r) (Valid r)"
    | (next_one) r x where "op_ID r = ?i" "op_PlanID r = ?p" "\<not> is_running r" "w' = Some x" "bget (operations s) (op_ID (wk_record x)) = None"
        "is_running (wk_record x)" "op_PlanID (wk_record x) = ?p"
        "operations t = bput (bput (operations s) (op_ID r) (Valid r)) (op_ID (wk_record x)) (Valid (wk_record x))"
    using eff unfolding worker_effect_def by metis
  then show ?thesis
  proof cases
    case kept
    have "ledger_of t = ledger_of s" using kept(1) act by (simp add: ledger_of_def)
    then have "ledger_step (ledger_of s) (ledger_of t)" by (simp add: ledger_step.idle)
    moreover have "workers_ok (operations s) (joined ws1 w' @ ws2)"
      using w kept(2) by (cases w') (auto simp: joined_def worker_ids_def)
    ultimately show ?thesis using kept(1) k a by (simp add: store_step_def)
  next
    case closed
    have ht: "held (operations t) = (held (operations s))(?i := None)" and ft: "finished_ids (operations t) = insert ?i (finished_ids (operations s))"
      using closed b by (simp_all add: held_put finished_put)
    have "ledger_of t = (ledger_of s)\<lparr>ld_running := (ld_running (ledger_of s))(?i := None), ld_closed := insert ?i (ld_closed (ledger_of s))\<rparr>"
      using ht ft act by (simp add: ledger_of_def)
    then have "ledger_step (ledger_of s) (ledger_of t)"
      using ledger_step.close[of "ledger_of s" ?i ?p] w(4) by (simp add: ledger_of_def)
    moreover have "workers_ok (operations t) ws1" "workers_ok (operations t) ws2"
      using w(5,6) by (auto intro!: workers_ok_cong[OF w(1)] workers_ok_cong[OF w(2)] simp: ht)
    moreover have "card (dom (held (operations t))) \<le> 16"
      using k(4) card_mono[OF held_finite[of "operations s"], of "dom (held (operations t))"] ht by auto
    moreover have "keyed (operations t)" using keyed_put[OF k(1), of r] closed by simp
    ultimately show ?thesis using a w(7) closed(4) ht by (auto simp: store_step_def joined_def Map.ran_def)
  next
    case next_one
    let ?j = "op_ID (wk_record x)"
    have j: "held (operations s) ?j = None" "?j \<notin> finished_ids (operations s)" "?j \<noteq> ?i"
      using held_fresh[OF next_one(5)] w(4) by auto
    have b': "bsorted (bput (operations s) (op_ID r) (Valid r))" using b by (simp add: bucket_simps)
    have ht: "held (operations t) = (held (operations s))(?i := None, ?j \<mapsto> ?p)" and ft: "finished_ids (operations t) = insert ?i (finished_ids (operations s))"
      using next_one b b' j by (auto simp: held_put finished_put)
    have "ledger_of t = (ledger_of s)\<lparr>ld_running := (ld_running (ledger_of s))(?i := None, ?j \<mapsto> ?p), ld_closed := insert ?i (ld_closed (ledger_of s))\<rparr>"
      using ht ft act by (simp add: ledger_of_def)
    then have "ledger_step (ledger_of s) (ledger_of t)"
      using ledger_step.again[of "ledger_of s" ?i ?p ?j] w(4) j by (simp add: ledger_of_def ld_fresh_def domIff)
    moreover have jw: "?j \<notin> set (worker_ids ws1)" "?j \<notin> set (worker_ids ws2)"
      using workers_held[OF w(1), of ?j] workers_held[OF w(2), of ?j] j(1) by (auto simp: domIff)
    moreover have "workers_ok (operations t) ws1" "workers_ok (operations t) ws2"
      using w(5,6) jw by (auto intro!: workers_ok_cong[OF w(1)] workers_ok_cong[OF w(2)] simp: ht)
    moreover have "card (dom (held (operations t))) \<le> 16"
    proof -
      have "dom (held (operations t)) = insert ?j (dom (held (operations s)) - {?i})"
        using ht j(3) by auto
      then have "card (dom (held (operations t))) \<le> Suc (card (dom (held (operations s)) - {?i}))"
        using held_finite[of "operations s"] by (simp add: card_insert_if)
      moreover have "?i \<in> dom (held (operations s))" using w(4) by blast
      ultimately show ?thesis
        using k(4) card_Suc_Diff1[OF held_finite[of "operations s"], of ?i] by simp
    qed
    moreover have "keyed (operations t)" using keyed_put[OF keyed_put[OF k(1), of r], of "wk_record x"] next_one by simp
    moreover have "Map.ran (held (operations t)) \<subseteq> Map.ran (held (operations s))"
      using ht w(4) by (auto simp: Map.ran_def split: if_splits)
    ultimately show ?thesis using a w(7) next_one(4,6,7) ht by (auto simp: store_step_def joined_def worker_ids_def)
  qed
qed

text \<open>A restart.\<close>

lemma recover_store_step:
  assumes k: "keyed (operations s)" "active_ok env s" and run: "RecoverRunningOperations now (rebooted s) = (t, Inr n)"
  shows "store_step env ws [] s (start_scheduler later interval t)"
proof -
  have b: "bsorted (operations s)" by (rule keyed_sorted[OF k(1)])
  have "bsorted (operations (rebooted s))" using b by (simp add: rebooted_def)
  note get = Recover_get[OF this run]
  have bget: "bget (operations t) i = map_option (map_cell (\<lambda>r. if is_running r then lost_record now r else r)) (bget (operations s) i)" for i
    using get(1)[of i] by (simp add: rebooted_def)
  have lost: "\<not> is_running (lost_record now r)" "op_ID (lost_record now r) = op_ID r" for r
    by (simp_all add: lost_record_def is_running_def)
  have ht: "held (operations t) = Map.empty"
    using bget lost by (auto simp: fun_eq_iff held_def split: option.splits cell.splits if_splits elim!: map_cell_Valid)
  have ft: "finished_ids (operations t) = finished_ids (operations s) \<union> dom (held (operations s))"
    using bget lost by (auto simp: finished_ids_def held_def set_eq_iff domIff split: option.splits cell.splits if_splits elim!: map_cell_Valid)
  have act: "desired_active t = desired_active s"
    using Recover_active[of now "rebooted s"] run by (simp add: rebooted_def)
  have "keyed (operations t)"
    using get(3) k(1) bget lost by (auto simp: keyed_def elim!: map_cell_Valid)
  moreover have "ledger_of t = (ledger_of s)\<lparr>ld_running := Map.empty, ld_closed := ld_closed (ledger_of s) \<union> dom (ld_running (ledger_of s))\<rparr>"
    using ht ft act by (simp add: ledger_of_def)
  then have "ledger_step (ledger_of s) (ledger_of t)" by (metis ledger_step.lose)
  moreover have "ledger_of (start_scheduler later interval t) = ledger_of t" by (simp add: ledger_of_def start_scheduler_def)
  ultimately show ?thesis
    using ht act k(2) by (simp add: store_step_def start_scheduler_def active_ok_def)
qed

lemma sys_simulates:
  assumes "sys_step env y y'" "sys_ok env y"
  shows "sys_ok env y' \<and> ledger_step (ledger_of (sy_agent y)) (ledger_of (sy_agent y'))"
proof -
  let ?s = "sy_agent y"
  have k: "keyed (operations ?s)" "active_ok env ?s" "workers_ok (operations ?s) (sy_workers y)" "card (dom (held (operations ?s))) \<le> 16"
    and tk: "\<And>k. sy_tick y = Some k \<Longrightarrow> tick_ok ?s k"
    using assms(2) by (auto simp: sys_ok_def)
  have q: "sys_ok env (y\<lparr>sy_agent := t\<rparr>) \<and> ledger_step (ledger_of ?s) (ledger_of t)" if "quiet ?s t" for t
    using quiet_ok[OF assms(2) that] quiet_ledger[OF that] ledger_step.idle by simp
  from assms(1) show ?thesis
  proof cases
    case (tick_begins d rs now)
    then have d: "desired_active ?s = Some (Valid d)" by (auto simp: ActiveDesiredState_def split: option.splits cell.splits)
    from RunningOperations_held(2)[OF tick_begins(4) keyed_sorted[OF k(1)]] assms(2) d show ?thesis
      unfolding tick_begins(1) by (simp add: sys_ok_def tick_ok_def ledger_step.idle)
  next
    case (tick_plan c p ps t w x)
    from tk[OF tick_plan(2)] tick_plan(3) obtain d where d: "desired_active ?s = Some (Valid d)" "tk_max c = MaxParallelIOJobs (ds_RuntimePolicy d)"
      "p \<in> set (ds_Plans d)" "set ps \<subseteq> set (ds_Plans d)" "Map.ran (held (operations ?s)) \<subseteq> set (tk_running c)"
      by (auto simp: tick_ok_def)
    from tick_plan_step[OF k d(1,3,5) tick_plan(4)[unfolded d(2)]] d show ?thesis
      unfolding tick_plan(1) by (simp add: sys_ok_def store_step_def tick_ok_def)
  next
    case (tick_ends c)
    with assms(2) show ?thesis
      by (auto simp: sys_ok_def active_ok_def ledger_of_def ledger_step.idle)
  next
    case (works ws1 w ws2 inp t w')
    from worker_store_step[OF k(1,2) k(3)[unfolded works(2)] k(4) worker_step_effect[OF works(4,3)]] 
      worker_step_effect[OF works(4,3)] tk show ?thesis
      unfolding works(1) by (auto simp: sys_ok_def store_step_def tick_ok_def worker_effect_def)
  next
    case (progress w p t x)
    then have "is_running r" if "bget (operations ?s) (op_ID (wk_record w)) = Some (Valid r)" for r
      using k(3) that by (auto simp: workers_ok_def held_def split: if_splits)
    with quiet_mark[OF k(1) progress(3)] persisted_marked q show ?thesis unfolding progress(1) by simp
  next
    case (logs now i sect level code files bytes t x)
    with operationLog_keeps[OF logs(2)] q quiet_same[OF k(1)] show ?thesis by (simp add: same_store_def)
  next
    case (dispatch protocol job c t c' w x)
    from dispatch_step[OF k dispatch(3)] dispatch(2) show ?thesis
      unfolding dispatch(1) by (simp add: sys_ok_def store_step_def)
  next
    case (cancel i)
    with q quiet_same[OF k(1)] show ?thesis by (simp add: keeps_operations keeps_active)
  next
    case (configure now agentID snapshot t x)
    have o: "operations t = operations ?s" "active_ok env t"
      using ApplyDesiredState_operations[of env now agentID snapshot ?s] Apply_active_ok[OF k(2), of now agentID snapshot] configure(3) by simp_all
    have "ledger_of t = (ledger_of ?s)\<lparr>ld_cap := ld_cap (ledger_of t), ld_forbid := ld_forbid (ledger_of t)\<rparr>"
      using o(1) by (simp add: ledger_of_def)
    then have "ledger_step (ledger_of ?s) (ledger_of t)" by (metis ledger_step.set_limits)
    with o configure k show ?thesis by (simp add: sys_ok_def)
  next
    case (configured n t x)
    with ClearPending_operations[of n ?s] ClearPending_active[of n ?s] q quiet_same[OF k(1)] show ?thesis by simp
  next
    case (reported i now t x)
    with quiet_mark[OF k(1) reported(2)[unfolded markOperationReported_def]] q show ?thesis by simp
  next
    case (uploaded i t x)
    with quiet_mark[OF k(1) uploaded(2)[unfolded MarkOperationUploaded_def]] q show ?thesis by simp
  next
    case (logs_sent i n now t x)
    with markLogsSent_operations[of i n now ?s] markLogsSent_active[of i n now ?s] q quiet_same[OF k(1)] show ?thesis by simp
  next
    case (logs_acked sweep i n t x)
    with acknowledgeLogs_operations[of sweep i n ?s] acknowledgeLogs_active[of sweep i n ?s] q quiet_same[OF k(1)] show ?thesis by simp
  next
    case (restart now t n later interval)
    with recover_store_step[OF k(1,2) restart(2), of "[]" later interval] show ?thesis
      by (simp add: sys_ok_def store_step_def)
  qed
qed

section \<open>Runs\<close>

text \<open>The runs in which every active state satisfies a condition, from a start without running operations.\<close>

definition within :: "(desired_state \<Rightarrow> bool) \<Rightarrow> agent \<Rightarrow> bool" where
  "within C s \<longleftrightarrow> (\<forall>d. desired_active s = Some (Valid d) \<longrightarrow> C d)"

definition sys_start :: "env \<Rightarrow> system \<Rightarrow> bool" where
  "sys_start env y \<longleftrightarrow> keyed (operations (sy_agent y)) \<and> active_ok env (sy_agent y) \<and> held (operations (sy_agent y)) = Map.empty \<and>
     sy_workers y = [] \<and> sy_tick y = None"

inductive sys_reach :: "env \<Rightarrow> (desired_state \<Rightarrow> bool) \<Rightarrow> system \<Rightarrow> bool" for env C where
  start: "sys_start env y \<Longrightarrow> within C (sy_agent y) \<Longrightarrow> sys_reach env C y"
| step: "sys_reach env C y \<Longrightarrow> sys_step env y y' \<Longrightarrow> within C (sy_agent y') \<Longrightarrow> sys_reach env C y'"

lemma sys_reach_ok: "sys_reach env C y \<Longrightarrow> sys_ok env y \<and> within C (sy_agent y)"
proof (induction rule: sys_reach.induct)
  case (start y)
  then show ?case by (simp add: sys_start_def sys_ok_def)
next
  case (step y y')
  with sys_simulates show ?case by blast
qed

text \<open>The limits of the ledger.\<close>

lemma ledger_bounded:
  assumes "ledger_step l l'" "finite (dom (ld_running l))" "card (dom (ld_running l)) \<le> m" "ld_cap l \<le> m"
  shows "card (dom (ld_running l')) \<le> m"
  using assms
proof cases
  case (admit i p)
  with assms show ?thesis by (simp add: card_insert_if)
next
  case (close i p)
  with assms(3) card_Diff1_le[of "dom (ld_running l)" i] show ?thesis by simp
next
  case (again i p j)
  have "dom (ld_running l') = insert j (dom (ld_running l) - {i})"
    using again by (auto simp: ld_fresh_def)
  then have "card (dom (ld_running l')) \<le> Suc (card (dom (ld_running l) - {i}))"
    using assms(2) by (simp add: card_insert_if)
  moreover have "i \<in> dom (ld_running l)" using again by blast
  ultimately show ?thesis using assms(2,3) card_Suc_Diff1[of "dom (ld_running l)" i] by simp
qed auto

text \<open>How many operations of a plan are running.\<close>

definition plan_count :: "uuid \<Rightarrow> (uuid \<Rightarrow> uuid option) \<Rightarrow> nat" where
  "plan_count p f = card {i. f i = Some p}"

lemma plan_finite: "finite (dom f) \<Longrightarrow> finite {i. f i = Some p}"
  by (rule finite_subset[of _ "dom f"]) auto

lemma ledger_plan_bounded:
  assumes "ledger_step l l'" "finite (dom (ld_running l))" "p \<in> ld_forbid l" "plan_count p (ld_running l) \<le> n" "1 \<le> n"
  shows "plan_count p (ld_running l') \<le> n"
  using assms(1)
proof cases
  case (admit i q)
  show ?thesis
  proof (cases "q = p")
    case True
    with admit assms(3) have "{k. ld_running l' k = Some p} = {i}"
      by (auto simp: Map.ran_def)
    with assms(5) show ?thesis by (simp add: plan_count_def)
  next
    case False
    with admit have "{k. ld_running l' k = Some p} = {k. ld_running l k = Some p}"
      by (auto simp: ld_fresh_def)
    with assms(4) show ?thesis by (simp add: plan_count_def)
  qed
next
  case (close i q)
  then have "{k. ld_running l' k = Some p} \<subseteq> {k. ld_running l k = Some p}" by (auto split: if_splits)
  from card_mono[OF plan_finite[OF assms(2)] this] assms(4) show ?thesis by (simp add: plan_count_def)
next
  case (again i q j)
  let ?S = "{k. ld_running l k = Some p}"
  show ?thesis
  proof (cases "q = p")
    case True
    with again have "{k. ld_running l' k = Some p} = insert j (?S - {i})" "i \<in> ?S"
      by (auto simp: ld_fresh_def split: if_splits)
    moreover have "card (insert j (?S - {i})) \<le> Suc (card (?S - {i}))"
      using plan_finite[OF assms(2)] by (simp add: card_insert_if)
    ultimately show ?thesis
      using assms(4) card_Suc_Diff1[OF plan_finite[OF assms(2)], of i p] by (simp add: plan_count_def)
  next
    case False
    with again have "{k. ld_running l' k = Some p} \<subseteq> ?S" by (auto split: if_splits)
    from card_mono[OF plan_finite[OF assms(2)] this] assms(4) show ?thesis by (simp add: plan_count_def)
  qed
qed (use assms(4) in \<open>auto simp: plan_count_def\<close>)

lemma reach_ledger:
  assumes "sys_reach env C y" "sys_step env y y'"
  shows "ledger_step (ledger_of (sy_agent y)) (ledger_of (sy_agent y'))" "finite (dom (ld_running (ledger_of (sy_agent y))))"
    "within C (sy_agent y)" "keyed (operations (sy_agent y'))"
  using sys_simulates[OF assms(2)] sys_reach_ok[OF assms(1)] held_finite by (auto simp: ledger_of_def sys_ok_def)

lemma reach_cap:
  assumes "sys_reach env C y" and cap: "\<And>d. C d \<Longrightarrow> MaxParallelIOJobs (ds_RuntimePolicy d) \<le> m"
  shows "card (dom (held (operations (sy_agent y)))) \<le> m"
  using assms(1)
proof (induction rule: sys_reach.induct)
  case (start y)
  then show ?case by (simp add: sys_start_def)
next
  case (step y y')
  note l = reach_ledger[OF step(1,2)]
  from l(3) have "ld_cap (ledger_of (sy_agent y)) \<le> m"
    using cap by (auto simp: within_def ledger_of_def split: option.splits cell.splits)
  with ledger_bounded[OF l(1,2)] step.IH show ?case by (simp add: ledger_of_def)
qed

lemma reach_single:
  assumes "sys_reach env C y" and forbid: "\<And>d. C d \<Longrightarrow> p \<in> forbidding d"
  shows "plan_count p (held (operations (sy_agent y))) \<le> 1"
  using assms(1)
proof (induction rule: sys_reach.induct)
  case (start y)
  then show ?case by (simp add: sys_start_def plan_count_def)
next
  case (step y y')
  note l = reach_ledger[OF step(1,2)]
  from l(3) have "p \<in> ld_forbid (ledger_of (sy_agent y))"
    using forbid by (auto simp: within_def ledger_of_def split: option.splits cell.splits)
  from ledger_plan_bounded[OF l(1,2) this, of 1] step.IH show ?case by (simp add: ledger_of_def)
qed

section \<open>What has ended stays as it is\<close>

lemma record_change_closed:
  assumes "record_change b b'" "keyed b" "bget b i = Some (Valid r)" "\<not> is_running r"
  shows "\<exists>u x. bget b' i = Some (Valid (r\<lparr>op_Uploaded := u, op_LastReportedAt := x\<rparr>))"
proof -
  have b: "bsorted b" "op_ID r = i" using assms(2,3) by (auto simp: keyed_def)
  have self: "\<exists>u x. bget b i = Some (Valid (r\<lparr>op_Uploaded := u, op_LastReportedAt := x\<rparr>))"
    using assms(3) by (intro exI[of _ "op_Uploaded r"] exI[of _ "op_LastReportedAt r"]) simp
  have h: "held b i = None" using assms(3,4) by (simp add: held_def)
  from assms(1) show ?thesis
  proof cases
    case same
    with self show ?thesis by simp
  next
    case (mark q q')
    show ?thesis
    proof (cases "op_ID q = i")
      case True
      with mark assms(3) have "q = r" by simp
      with mark(3) assms(4) obtain u x where "q' = r\<lparr>op_Uploaded := u, op_LastReportedAt := x\<rparr>" by (auto simp: marked_def)
      with mark(1) True show ?thesis by auto
    next
      case False
      with mark(1) b(1) self show ?thesis by (simp add: bucket_simps)
    qed
  next
    case (new q)
    then have "op_ID q \<noteq> i" using assms(3) by auto
    with new(1) b(1) self show ?thesis by (simp add: bucket_simps)
  next
    case (ended q)
    then have "op_ID q \<noteq> i" using h by auto
    with ended(1) b(1) self show ?thesis by (simp add: bucket_simps)
  next
    case (again q n)
    then have "op_ID q \<noteq> i" "op_ID n \<noteq> i" using h assms(3) by auto
    with again(1) b(1) self show ?thesis by (simp add: bucket_simps)
  qed
qed

lemma worker_effect_change:
  assumes "worker_effect w s t w'" "held (operations s) (op_ID (wk_record w)) = Some (op_PlanID (wk_record w))"
  shows "record_change (operations s) (operations t)"
  using assms unfolding worker_effect_def
  by (metis record_change.same record_change.ended record_change.again)

lemma sys_step_closed:
  assumes "sys_step env y y'" "sys_ok env y" "bget (operations (sy_agent y)) i = Some (Valid r)" "\<not> is_running r"
  shows "\<exists>u x. bget (operations (sy_agent y')) i = Some (Valid (r\<lparr>op_Uploaded := u, op_LastReportedAt := x\<rparr>))"
proof -
  let ?s = "sy_agent y"
  have k: "keyed (operations ?s)" "workers_ok (operations ?s) (sy_workers y)" using assms(2) by (auto simp: sys_ok_def)
  have kept: ?thesis if "record_change (operations ?s) (operations (sy_agent y'))"
    using record_change_closed[OF that k(1) assms(3,4)] .
  from assms(1) show ?thesis
  proof cases
    case (tick_plan c p ps t w x)
    then have "operations t = operations ?s \<or> slot_added p (tk_running c) ?s t w"
      using advancePlan_cases[of env p "tk_now c" "tk_running c" ?s t w x] by (auto simp: tick_plan_def split: sum.splits if_splits)
    then have "record_change (operations ?s) (operations t)"
      by (metis record_change.same record_change.new slot_added_def)
    with tick_plan(1) show ?thesis by (intro kept) simp
  next
    case (works ws1 w ws2 inp t w')
    with worker_effect_change[OF worker_step_effect[OF works(4,3)]] k(2) show ?thesis by (intro kept) auto
  next
    case (progress w p t x)
    then have "is_running q" if "bget (operations ?s) (op_ID (wk_record w)) = Some (Valid q)" for q
      using k(2) that by (auto simp: workers_ok_def held_def split: if_splits)
    with updateOperation_change[OF progress(3) k(1)] persisted_marked progress(1) show ?thesis by (intro kept) simp
  next
    case (logs now j sect level code files bytes t x)
    with operationLog_keeps[OF logs(2)] show ?thesis by (intro kept) (simp add: same_store_def record_change.same)
  next
    case (dispatch protocol job c t c' w x)
    have "record_change (operations ?s) (operations t)"
      using handleJobDispatch_cases[OF dispatch(3)] record_change.same[of "operations ?s"] record_change.new[of "operations ?s"]
      by (cases w) (auto simp: job_closed_def job_admitted_def)
    with dispatch(1) show ?thesis by (intro kept) simp
  next
    case (reported j now t x)
    with updateOperation_change[OF reported(2)[unfolded markOperationReported_def] k(1)] show ?thesis by (intro kept) simp
  next
    case (uploaded j t x)
    with updateOperation_change[OF uploaded(2)[unfolded MarkOperationUploaded_def] k(1)] show ?thesis by (intro kept) simp
  next
    case (configure now agentID snapshot t x)
    with ApplyDesiredState_operations[of env now agentID snapshot ?s] show ?thesis by (intro kept) (simp add: record_change.same)
  next
    case (configured n t x)
    with ClearPending_operations[of n ?s] show ?thesis by (intro kept) (simp add: record_change.same)
  next
    case (logs_sent j n now t x)
    with markLogsSent_operations[of j n now ?s] show ?thesis by (intro kept) (simp add: record_change.same)
  next
    case (logs_acked sweep j n t x)
    with acknowledgeLogs_operations[of sweep j n ?s] show ?thesis by (intro kept) (simp add: record_change.same)
  next
    case (restart now t n later interval)
    have "bsorted (operations (rebooted ?s))" using keyed_sorted[OF k(1)] by (simp add: rebooted_def)
    from Recover_get(1)[OF this restart(2), of i] assms(3,4) have "bget (operations t) i = Some (Valid r)"
      by (simp add: rebooted_def)
    with restart(1) show ?thesis
      by (intro exI[of _ "op_Uploaded r"] exI[of _ "op_LastReportedAt r"]) (simp add: start_scheduler_def)
  qed (rule kept, simp add: record_change.same keeps_operations)+
qed

section \<open>A concrete run, for the witnesses\<close>

definition demo_system :: system where
  "demo_system = \<lparr>sy_agent = demo_ready, sy_workers = [], sy_tick = None\<rparr>"

lemma demo_system_reached: "within C demo_ready \<Longrightarrow> sys_reach demo_env C demo_system"
proof (rule sys_reach.start)
  have "active_ok demo_env demo_ready"
    using demo_state_valid by (simp add: active_ok_def demo_ready_def demo_env_def)
  then show "sys_start demo_env demo_system"
    by (simp add: sys_start_def demo_system_def) (simp add: demo_ready_def keyed_def held_def bget_def fun_eq_iff)
qed (simp add: demo_system_def)

lemma demo_system_dispatch:
  obtains t wk where "sys_step demo_env demo_system \<lparr>sy_agent = t, sy_workers = [wk], sy_tick = None\<rparr>" "job_admitted demo_ready t wk"
    "desired_active t = desired_active demo_ready"
proof -
  obtain t d wk where t: "handleJobDispatch demo_env ''1.0'' demo_job (demo_ready, demo_connection) = ((t, d), Some wk, Inr ())"
    using demo_dispatched by blast
  have "sys_step demo_env demo_system (demo_system\<lparr>sy_agent := t, sy_workers := joined (sy_workers demo_system) (Some wk)\<rparr>)"
    using t by (intro sys_step.dispatch) (auto simp: demo_system_def)
  with handleJobDispatch_cases[OF t] show thesis
    by (intro that[of t wk]) (simp_all add: demo_system_def joined_def)
qed

section \<open>Properties\<close>

text \<open>C1: The running Agent implements the ledger: in every state that ticks, dispatched jobs, goroutines, new desired states, reports, cancellations
  and restarts lead to, in any order, the next step closes, starts or retries operations only as the ledger allows: a run starts under an
  unused identifier, below the capacity of the active state and not next to another run of a plan that forbids it; a retry takes the place of the
  attempt it follows; a restart closes everything that was running; what is closed is not opened again. The identifiers drawn for retries
  are ones that no stored operation has.\<close>

theorem sys_refines_ledger:
  assumes "sys_reach env C y" and "sys_step env y y'"
  shows "ledger_step (ledger_of (sy_agent y)) (ledger_of (sy_agent y'))"
  using sys_simulates[OF assms(2)] sys_reach_ok[OF assms(1)] by blast

theorem sys_refines_ledger_witness:
  "\<exists>y'. sys_step demo_env demo_system y' \<and> ledger_step (ledger_of demo_ready) (ledger_of (sy_agent y')) \<and> sy_workers y' \<noteq> []"
proof -
  obtain t wk where t: "sys_step demo_env demo_system \<lparr>sy_agent = t, sy_workers = [wk], sy_tick = None\<rparr>"
    by (rule demo_system_dispatch)
  have "sys_reach demo_env (\<lambda>_. True) demo_system" by (rule demo_system_reached) (simp add: within_def)
  from sys_refines_ledger[OF this t] t show ?thesis by (auto simp: demo_system_def)
qed

text \<open>C2: No operation is counted twice, and a step never takes the number of running operations, retries that wait included, above the limit
  of the state that is active before the step, unless it was above that limit already (a new state may lower the limit while operations
  run, which then run on); nor the number of running operations of a plan that this state forbids to overlap above one, unless it was above
  one already. So along every run in which all active states allow at most m parallel jobs at most m operations are running, and along
  every run in which all active states forbid a plan to overlap at most one operation of it is. The identifiers drawn for retries are unused.\<close>

theorem parallel_limits:
  assumes "sys_reach env C y" and "RunningOperations (sy_agent y) = Inr rs"
  shows "distinct (map op_ID rs) \<and>
    (\<forall>y' rs'. sys_step env y y' \<and> RunningOperations (sy_agent y') = Inr rs' \<longrightarrow>
       length rs' \<le> max (length rs) (case desired_active (sy_agent y) of Some (Valid d) \<Rightarrow> MaxParallelIOJobs (ds_RuntimePolicy d) | _ \<Rightarrow> 0) \<and>
       ((\<forall>d. desired_active (sy_agent y) = Some (Valid d) \<longrightarrow> p \<in> forbidding d) \<longrightarrow>
         length (filter (\<lambda>r. op_PlanID r = p) rs') \<le> max (length (filter (\<lambda>r. op_PlanID r = p) rs)) 1)) \<and>
    ((\<forall>d. C d \<longrightarrow> MaxParallelIOJobs (ds_RuntimePolicy d) \<le> m) \<longrightarrow> length rs \<le> m) \<and>
    ((\<forall>d. C d \<longrightarrow> p \<in> forbidding d) \<longrightarrow> length (filter (\<lambda>r. op_PlanID r = p) rs) \<le> 1)"
proof -
  have k: "keyed (operations (sy_agent y))" using sys_reach_ok[OF assms(1)] by (simp add: sys_ok_def)
  note rs = RunningOperations_held(1)[OF assms(2) keyed_sorted[OF k]] RunningOperations_ids(1)[OF assms(2) k]
    RunningOperations_plan[OF assms(2) k, of p, folded plan_count_def]
  have "length rs' \<le> max (length rs) (case desired_active (sy_agent y) of Some (Valid d) \<Rightarrow> MaxParallelIOJobs (ds_RuntimePolicy d) | _ \<Rightarrow> 0)"
    "(\<forall>d. desired_active (sy_agent y) = Some (Valid d) \<longrightarrow> p \<in> forbidding d) \<longrightarrow>
       length (filter (\<lambda>r. op_PlanID r = p) rs') \<le> max (length (filter (\<lambda>r. op_PlanID r = p) rs)) 1"
    if st: "sys_step env y y'" and r': "RunningOperations (sy_agent y') = Inr rs'" for y' rs'
  proof -
    note l = reach_ledger[OF assms(1) st]
    note rs' = RunningOperations_held(1)[OF r' keyed_sorted[OF l(4)]] RunningOperations_plan[OF r' l(4), of p, folded plan_count_def]
    show "length rs' \<le> max (length rs) (case desired_active (sy_agent y) of Some (Valid d) \<Rightarrow> MaxParallelIOJobs (ds_RuntimePolicy d) | _ \<Rightarrow> 0)"
      using ledger_bounded[OF l(1,2)] by (simp add: rs(1) rs'(1) ledger_of_def)
    show "(\<forall>d. desired_active (sy_agent y) = Some (Valid d) \<longrightarrow> p \<in> forbidding d) \<longrightarrow>
       length (filter (\<lambda>r. op_PlanID r = p) rs') \<le> max (length (filter (\<lambda>r. op_PlanID r = p) rs)) 1"
      unfolding rs(3) rs'(2) using ledger_plan_bounded[OF l(1,2), of p "max (plan_count p (held (operations (sy_agent y)))) 1"]
      by (auto simp: ledger_of_def split: option.splits cell.splits)
  qed
  moreover have "length rs \<le> m" if "\<forall>d. C d \<longrightarrow> MaxParallelIOJobs (ds_RuntimePolicy d) \<le> m"
    unfolding rs(1) by (rule reach_cap[OF assms(1)]) (use that in blast)
  moreover have "length (filter (\<lambda>r. op_PlanID r = p) rs) \<le> 1" if "\<forall>d. C d \<longrightarrow> p \<in> forbidding d"
    unfolding rs(3) by (rule reach_single[OF assms(1)]) (use that in blast)
  ultimately show ?thesis using rs(2) by blast
qed

theorem parallel_limits_witness:
  "\<exists>t wk rs. sys_step demo_env demo_system \<lparr>sy_agent = t, sy_workers = [wk], sy_tick = None\<rparr> \<and> RunningOperations t = Inr rs \<and> rs \<noteq> [] \<and>
     distinct (map op_ID rs) \<and> length rs \<le> 1 \<and> length (filter (\<lambda>r. op_PlanID r = ps_PlanID demo_plan) rs) \<le> 1"
proof -
  let ?C = "\<lambda>d. d = demo_state [demo_plan2, demo_plan]"
  obtain t wk where t: "sys_step demo_env demo_system \<lparr>sy_agent = t, sy_workers = [wk], sy_tick = None\<rparr>" "job_admitted demo_ready t wk"
    "desired_active t = desired_active demo_ready"
    by (rule demo_system_dispatch)
  have w: "within ?C demo_ready" by (simp add: within_def demo_ready_def)
  then have "within ?C t" using t(3) by (simp add: within_def)
  with sys_reach.step[OF demo_system_reached[OF w] t(1)] have r: "sys_reach demo_env ?C \<lparr>sy_agent = t, sy_workers = [wk], sy_tick = None\<rparr>" by simp
  have o: "RunningOperations (sy_agent \<lparr>sy_agent = t, sy_workers = [wk], sy_tick = None\<rparr>) = Inr [wk_record wk]"
    using t(2) by (simp add: job_admitted_def RunningOperations_def demo_ready_def bitems_def)
  have p: "equal_fold ''FORBID'' ''FORBID''" by code_simp
  have c: "d = demo_state [demo_plan2, demo_plan] \<Longrightarrow> MaxParallelIOJobs (ds_RuntimePolicy d) \<le> 1"
    "d = demo_state [demo_plan2, demo_plan] \<Longrightarrow> ps_PlanID demo_plan \<in> forbidding d" for d
    using p by (simp_all add: demo_state_def forbidding_def demo_plan2_def demo_plan_def)
  from parallel_limits[OF r o, of "ps_PlanID demo_plan" 1] c t(1) o show ?thesis
    by (intro exI[of _ t] exI[of _ wk] exI[of _ "[wk_record wk]"]) auto
qed

text \<open>C3: A result is final: once an operation is not running any more, no later step of the Agent, restarts included, changes its record, apart from
  the mark that it was uploaded and the time of its last report. The identifiers drawn for retries are ones that no stored operation has.\<close>

theorem results_final:
  assumes "sys_reach env C y" and "(sys_step env)\<^sup>*\<^sup>* y y'"
    and "bget (operations (sy_agent y)) i = Some (Valid r)" "\<not> is_running r"
  shows "\<exists>u x. bget (operations (sy_agent y')) i = Some (Valid (r\<lparr>op_Uploaded := u, op_LastReportedAt := x\<rparr>))"
proof -
  have "sys_ok env y' \<and> (\<exists>u x. bget (operations (sy_agent y')) i = Some (Valid (r\<lparr>op_Uploaded := u, op_LastReportedAt := x\<rparr>)))"
    using assms(2)
  proof (induction rule: rtranclp_induct)
    case base
    have "bget (operations (sy_agent y)) i = Some (Valid (r\<lparr>op_Uploaded := op_Uploaded r, op_LastReportedAt := op_LastReportedAt r\<rparr>))"
      using assms(3) by simp
    with sys_reach_ok[OF assms(1)] show ?case by blast
  next
    case (step y1 y2)
    then obtain u x where x: "bget (operations (sy_agent y1)) i = Some (Valid (r\<lparr>op_Uploaded := u, op_LastReportedAt := x\<rparr>))" by blast
    have "\<not> is_running (r\<lparr>op_Uploaded := u, op_LastReportedAt := x\<rparr>)" using assms(4) by (simp add: is_running_def)
    from sys_step_closed[OF step(2) _ x this] sys_simulates[OF step(2)] step.IH show ?case by auto
  qed
  then show ?thesis by blast
qed

theorem results_final_witness:
  "\<exists>y' u x. (sys_step demo_env)\<^sup>*\<^sup>* (demo_system\<lparr>sy_agent := demo_ready\<lparr>operations := [(1, Valid (demo_record 1 ''FAILED''))]\<rparr>\<rparr>) y' \<and>
     bget (operations (sy_agent y')) 1 = Some (Valid ((demo_record 1 ''FAILED'')\<lparr>op_Uploaded := u, op_LastReportedAt := x\<rparr>))"
proof -
  let ?s = "demo_ready\<lparr>operations := [(1, Valid (demo_record 1 ''FAILED''))]\<rparr>"
  let ?y = "demo_system\<lparr>sy_agent := ?s\<rparr>"
  have "active_ok demo_env ?s"
    using demo_state_valid by (simp add: active_ok_def demo_ready_def demo_env_def)
  then have "sys_start demo_env ?y"
    by (simp add: sys_start_def demo_system_def) (simp add: demo_ready_def keyed_def held_def bget_def fun_eq_iff bsorted_def demo_record_def is_running_def)
  then have r: "sys_reach demo_env (\<lambda>_. True) ?y" by (rule sys_reach.start) (simp add: within_def)
  obtain t x where "MarkOperationUploaded 1 (sy_agent ?y) = (t, x)" by fastforce
  then have "sys_step demo_env ?y (?y\<lparr>sy_agent := t\<rparr>)" by (rule sys_step.uploaded)
  then have st: "(sys_step demo_env)\<^sup>*\<^sup>* ?y (?y\<lparr>sy_agent := t\<rparr>)" by (rule r_into_rtranclp)
  have "bget (operations (sy_agent ?y)) 1 = Some (Valid (demo_record 1 ''FAILED''))" "\<not> is_running (demo_record 1 ''FAILED'')"
    by (simp_all add: bget_def demo_record_def is_running_def)
  from results_final[OF r st this] st show ?thesis by blast
qed

end
