(* ===== verification/Gateway_Audit.thy ===== *)
theory Gateway_Audit
  imports Agent_Config
begin

text \<open>
  Security events: the closed vocabulary of Gateway events and their audit form (\<open>internal/domain/gateway_audit.go\<close>,
  \<open>gateway_global_audit.go\<close>), and the hash chain of the audit log (\<open>internal/domain/audit.go\<close>), with the lemma that a verified chain is
  determined by its last hash.
\<close>

section \<open>Events\<close>

record gateway_binding =
  gb_HostID :: uuid
  gb_RepositoryID :: uuid
  gb_GatewayID :: uuid
  gb_OperationID :: uuid

definition zero_gateway_binding :: gateway_binding where
  "zero_gateway_binding = \<lparr>gb_HostID = uuid_nil, gb_RepositoryID = uuid_nil, gb_GatewayID = uuid_nil, gb_OperationID = uuid_nil\<rparr>"

record gateway_event =
  ge_Binding :: gateway_binding
  ge_Authenticated :: bool
  ge_Action :: string
  ge_Reason :: string

record audit_event =
  au_Sequence :: int
  au_ID :: uuid
  au_OccurredAt :: time
  au_ActorType :: string
  au_ActorID :: uuid
  au_Action :: string
  au_ResourceType :: string
  au_ResourceID :: uuid
  au_RequestID :: uuid
  au_SourceIPHash :: "8 word list"
  au_Result :: string
  au_ReasonCode :: string
  au_Changes :: string
  au_PreviousHash :: "8 word list"
  au_EventHash :: "8 word list"

text \<open>A system event with the fields the literals of the code set.\<close>

definition system_audit :: "string \<Rightarrow> string \<Rightarrow> string \<Rightarrow> string \<Rightarrow> audit_event" where
  "system_audit action resourceType result reason =
     \<lparr>au_Sequence = 0, au_ID = uuid_nil, au_OccurredAt = 0, au_ActorType = ''SYSTEM'', au_ActorID = uuid_nil, au_Action = action,
      au_ResourceType = resourceType, au_ResourceID = uuid_nil, au_RequestID = uuid_nil, au_SourceIPHash = [], au_Result = result,
      au_ReasonCode = reason, au_Changes = [], au_PreviousHash = [], au_EventHash = []\<rparr>"

definition rejected_audit :: audit_event where
  "rejected_audit = system_audit ''GATEWAY_EVENT_REJECTED'' ''GATEWAY'' ''DENIED'' ''INVALID_EVENT''"

definition binding_ids :: "gateway_binding \<Rightarrow> uuid list" where
  "binding_ids b = [gb_HostID b, gb_RepositoryID b, gb_GatewayID b, gb_OperationID b]"

definition route_reasons :: "string list" where
  "route_reasons = [''route_unavailable'', ''rate_limited'']"

definition early_reasons :: "string list" where
  "early_reasons = [''session_inactive'', ''tls_required'', ''authentication_failed'']"

definition request_reasons :: "string list" where
  "request_reasons = [''path_rejected'', ''request_limit'', ''method_rejected'', ''immutable_object'', ''lock_not_fresh'',
     ''object_size'', ''invalid_body'', ''content_hash_mismatch'', ''object_exists'', ''lock_not_owned'']"

text \<open>The action and the result of an event, or nothing when the event is not of the vocabulary.\<close>

definition gateway_class :: "gateway_event \<Rightarrow> (string \<times> string) option" where
  "gateway_class e =
     (let scoped = (ge_Binding e \<noteq> zero_gateway_binding); auth = ge_Authenticated e; reason = ge_Reason e;
          only = (\<lambda>ok action. if ok then Some (action, ''SUCCESS'') else None)
      in if ge_Action e = ''backend_ready'' then only (scoped \<and> \<not> auth \<and> reason = ''verified'') ''GATEWAY_BACKEND_READY''
         else if ge_Action e = ''runtime_cleanup'' then only (\<not> scoped \<and> \<not> auth \<and> reason = ''joined'') ''GATEWAY_RUNTIME_CLEANUP_COMPLETE''
         else if ge_Action e = ''channel_denied'' then
           (if scoped \<or> auth then None
            else if reason = ''material_rejected'' then Some (''GATEWAY_MATERIAL_DELIVERY_DENIED'', ''DENIED'')
            else if reason = ''authority_rejected'' then Some (''GATEWAY_AUTHORIZATION_DELIVERY_DENIED'', ''DENIED'')
            else if reason = ''session_rejected'' then Some (''GATEWAY_SESSION_DELIVERY_DENIED'', ''DENIED'')
            else None)
         else if ge_Action e = ''central_read_start'' then only (scoped \<and> \<not> auth \<and> reason = ''requested'') ''GATEWAY_CENTRAL_READ_START''
         else if ge_Action e = ''central_read_end'' then only (scoped \<and> \<not> auth \<and> reason = ''finished'') ''GATEWAY_CENTRAL_READ_END''
         else if ge_Action e = ''session_start'' then only (scoped \<and> \<not> auth \<and> reason = ''requested'') ''GATEWAY_SESSION_START''
         else if ge_Action e = ''session_end'' then only (scoped \<and> \<not> auth \<and> reason = ''finished'') ''GATEWAY_SESSION_END''
         else if ge_Action e = ''lock_cleanup'' then only (scoped \<and> auth \<and> reason = ''owned_lock'') ''GATEWAY_LOCK_CLEANUP_INTENT''
         else if ge_Action e = ''denied'' then
           (if reason \<in> set route_reasons then (if scoped \<or> auth then None else Some (''GATEWAY_REQUEST_DENIED'', ''DENIED''))
            else if reason \<in> set early_reasons then (if \<not> scoped \<or> auth then None else Some (''GATEWAY_REQUEST_DENIED'', ''DENIED''))
            else if reason \<in> set request_reasons then (if \<not> scoped \<or> \<not> auth then None else Some (''GATEWAY_REQUEST_DENIED'', ''DENIED''))
            else None)
         else None)"

definition route_changes :: "gateway_event \<Rightarrow> string" where
  "route_changes e = json_object
     [(''route_host_id'', Some (json_string (uuid_string (gb_HostID (ge_Binding e))))),
      (''gateway_id'', Some (json_string (uuid_string (gb_GatewayID (ge_Binding e))))),
      (''session_id'', Some (json_string (uuid_string (gb_OperationID (ge_Binding e))))),
      (''authenticated'', Some (json_bool (ge_Authenticated e)))]"

definition GatewayAudit :: "gateway_event \<Rightarrow> audit_event \<times> bool" where
  "GatewayAudit e =
     (let scoped = (ge_Binding e \<noteq> zero_gateway_binding)
      in if scoped \<and> \<not> list_all uuid_v7 (binding_ids (ge_Binding e)) then (rejected_audit, False)
         else if ge_Action e = ''event_rejected'' then
           (rejected_audit, \<not> (scoped \<or> ge_Authenticated e \<or> ge_Reason e \<noteq> ''invalid_event''))
         else case gateway_class e of
           None \<Rightarrow> (rejected_audit, False)
         | Some (action, result) \<Rightarrow>
             (let a = system_audit action ''GATEWAY'' result
                (if ge_Action e = ''channel_denied'' then ''REJECTED'' else map ascii_upper (ge_Reason e))
              in (if scoped then a\<lparr>au_ResourceType := ''REPOSITORY'', au_ResourceID := gb_RepositoryID (ge_Binding e),
                    au_Changes := route_changes e\<rparr> else a, True)))"

definition GatewayGlobalAudit :: "gateway_event \<Rightarrow> audit_event \<times> bool" where
  "GatewayGlobalAudit e =
     (case GatewayAudit e of (a, valid) \<Rightarrow>
        (a, valid \<and> ge_Binding e = zero_gateway_binding \<and> \<not> ge_Authenticated e \<and>
          (ge_Action e = ''denied'' \<or> ge_Action e = ''event_rejected'' \<or> ge_Action e = ''channel_denied'' \<or> ge_Action e = ''runtime_cleanup'')))"

text \<open>The two audits agree on what is rejected, and an event with a route is never global.\<close>

lemma GatewayAudit_rejected: "\<not> snd (GatewayAudit e) \<Longrightarrow> fst (GatewayAudit e) = rejected_audit"
  by (auto simp: GatewayAudit_def Let_def split: if_splits option.splits)

lemma global_is_valid: "snd (GatewayGlobalAudit e) \<Longrightarrow> snd (GatewayAudit e) \<and> ge_Binding e = zero_gateway_binding"
  by (auto simp: GatewayGlobalAudit_def split: prod.splits)

text \<open>The denials and the lock clean-up of a session are part of the vocabulary.\<close>

lemma denied_valid:
  assumes "list_all uuid_v7 (binding_ids b)" "if auth then reason \<in> set request_reasons else reason \<in> set early_reasons"
  shows "snd (GatewayAudit \<lparr>ge_Binding = b, ge_Authenticated = auth, ge_Action = ''denied'', ge_Reason = reason\<rparr>)"
proof -
  have "uuid_v7 (gb_HostID b)" using assms(1) by (simp add: binding_ids_def)
  moreover have "\<not> uuid_v7 uuid_nil" by (simp add: uuid_v7_def uuid_version_def uuid_nil_def)
  ultimately have b: "b \<noteq> zero_gateway_binding" by (auto simp: zero_gateway_binding_def)
  have r: "reason \<notin> set route_reasons" "auth \<Longrightarrow> reason \<notin> set early_reasons"
    using assms(2) by (auto simp: route_reasons_def early_reasons_def request_reasons_def split: if_splits)
  show ?thesis
    using assms b r by (cases auth) (simp_all add: GatewayAudit_def gateway_class_def Let_def)
qed

lemma cleanup_valid:
  assumes "list_all uuid_v7 (binding_ids b)"
  shows "snd (GatewayAudit \<lparr>ge_Binding = b, ge_Authenticated = True, ge_Action = ''lock_cleanup'', ge_Reason = ''owned_lock''\<rparr>)"
proof -
  have "uuid_v7 (gb_HostID b)" using assms(1) by (simp add: binding_ids_def)
  moreover have "\<not> uuid_v7 uuid_nil" by (simp add: uuid_v7_def uuid_version_def uuid_nil_def)
  ultimately have b: "b \<noteq> zero_gateway_binding" by (auto simp: zero_gateway_binding_def)
  then show ?thesis using assms by (simp add: GatewayAudit_def gateway_class_def Let_def)
qed

section \<open>The audit chain\<close>

text \<open>
  \<open>reencode\<close> stands for decoding the recorded changes into a value and encoding it again, which fails for bytes that are not JSON;
  \<open>digest\<close> is SHA-256.
\<close>

definition optional_uuid :: "uuid \<Rightarrow> string" where
  "optional_uuid i = (if i = uuid_nil then [] else uuid_string i)"

definition json_omitempty :: "string \<Rightarrow> string option" where
  "json_omitempty s = (if s = [] then None else Some (json_string s))"

definition canonicalAudit :: "(string \<Rightarrow> string option) \<Rightarrow> audit_event \<Rightarrow> string option" where
  "canonicalAudit reencode e =
     map_option (\<lambda>changes. json_object
       [(''id'', Some (json_string (uuid_string (au_ID e)))),
        (''occurred_at'', Some (json_string (rfc3339nano (au_OccurredAt e)))),
        (''actor_type'', Some (json_string (au_ActorType e))),
        (''actor_id'', json_omitempty (optional_uuid (au_ActorID e))),
        (''action'', Some (json_string (au_Action e))),
        (''resource_type'', Some (json_string (au_ResourceType e))),
        (''resource_id'', json_omitempty (optional_uuid (au_ResourceID e))),
        (''request_id'', Some (json_string (uuid_string (au_RequestID e)))),
        (''source_ip_hash'', json_omitempty (hex_encode (au_SourceIPHash e))),
        (''result'', Some (json_string (au_Result e))),
        (''reason_code'', Some (json_string (au_ReasonCode e))),
        (''changes'', Some changes)])
     (reencode (if au_Changes e = [] then ''{}'' else au_Changes e))"

definition bytes_of :: "8 word list \<Rightarrow> string" where
  "bytes_of bs = map (\<lambda>b. char_of (unat b)) bs"

definition ComputeAuditHash ::
    "(string \<Rightarrow> 8 word list) \<Rightarrow> (string \<Rightarrow> string option) \<Rightarrow> audit_event \<Rightarrow> 8 word list \<Rightarrow> 8 word list option" where
  "ComputeAuditHash digest reencode e previous =
     map_option (\<lambda>canonical. digest (canonical @ bytes_of previous)) (canonicalAudit reencode e)"

text \<open>The loop of \<open>VerifyAuditChain\<close> from a previous hash on; true for no error.\<close>

fun verify_chain :: "(string \<Rightarrow> 8 word list) \<Rightarrow> (string \<Rightarrow> string option) \<Rightarrow> 8 word list \<Rightarrow> audit_event list \<Rightarrow> bool" where
  "verify_chain digest reencode previous [] = True"
| "verify_chain digest reencode previous (e # es) =
     (au_PreviousHash e = previous \<and>
      ComputeAuditHash digest reencode e previous = Some (au_EventHash e) \<and>
      verify_chain digest reencode (au_EventHash e) es)"

definition VerifyAuditChain :: "(string \<Rightarrow> 8 word list) \<Rightarrow> (string \<Rightarrow> string option) \<Rightarrow> audit_event list \<Rightarrow> bool" where
  "VerifyAuditChain digest reencode es = verify_chain digest reencode [] es"

text \<open>The hash after the last event.\<close>

definition chain_end :: "8 word list \<Rightarrow> audit_event list \<Rightarrow> 8 word list" where
  "chain_end previous es = (if es = [] then previous else au_EventHash (last es))"

lemma verify_chain_append:
  "verify_chain digest reencode p (xs @ ys) \<longleftrightarrow> verify_chain digest reencode p xs \<and> verify_chain digest reencode (chain_end p xs) ys"
  by (induction xs arbitrary: p) (auto simp: chain_end_def)

text \<open>The check cannot see that events are missing at the end: a chain that was cut off there still verifies.\<close>

lemma cut_chain_verifies:
  "VerifyAuditChain digest reencode es \<Longrightarrow> VerifyAuditChain digest reencode (take n es)"
  using verify_chain_append [of digest reencode "[]" "take n es" "drop n es"] by (simp add: VerifyAuditChain_def)

text \<open>Two hash texts of equal length split the hashed bytes in the same way.\<close>

lemma bytes_of_inj: "bytes_of xs = bytes_of ys \<Longrightarrow> xs = ys"
proof -
  have "inj (\<lambda>b :: 8 word. char_of (unat b) :: char)"
  proof (rule injI)
    fix a b :: "8 word"
    assume "(char_of (unat a) :: char) = char_of (unat b)"
    then have "(of_char (char_of (unat a) :: char) :: nat) = of_char (char_of (unat b) :: char)" by simp
    moreover have "unat c < 256" for c :: "8 word" using unsigned_less[of c] by simp
    ultimately show "a = b" by (simp add: of_char_of word_unat_eq_iff)
  qed
  then show "bytes_of xs = bytes_of ys \<Longrightarrow> xs = ys" unfolding bytes_of_def by (simp add: inj_map_eq_map)
qed

lemma bytes_of_length [simp]: "length (bytes_of xs) = length xs"
  by (simp add: bytes_of_def)

text \<open>
  Tamper evidence: with a digest of fixed length without collisions, two verified chains of the same length that end in the same hash
  hash the same canonical events in the same order.
\<close>

lemma verified_chain_determined:
  assumes "inj digest" "\<And>x. length (digest x) = n"
    and "verify_chain digest reencode p xs" "verify_chain digest reencode p ys" "length xs = length ys"
    and "chain_end p xs = chain_end p ys"
  shows "map (canonicalAudit reencode) xs = map (canonicalAudit reencode) ys \<and> map au_EventHash xs = map au_EventHash ys"
  using assms(5,3,4,6)
proof (induction xs arbitrary: ys rule: rev_induct)
  case Nil
  then show ?case by simp
next
  case (snoc x xs ys')
  then obtain ys y where ys': "ys' = ys @ [y]" by (cases ys' rule: rev_cases) auto
  have h: "length (chain_end p zs) = n" if "verify_chain digest reencode p zs" "zs \<noteq> []" for zs
  proof -
    from that(2) obtain ws w where "zs = ws @ [w]" by (cases zs rule: rev_cases) auto
    with that(1) obtain c where "digest c = chain_end p zs"
      by (auto simp: verify_chain_append chain_end_def ComputeAuditHash_def)
    with assms(2)[of c] show ?thesis by simp
  qed
  from snoc.prems[unfolded ys'] have v: "verify_chain digest reencode p xs" "verify_chain digest reencode p ys"
    "ComputeAuditHash digest reencode x (chain_end p xs) = Some (au_EventHash x)"
    "ComputeAuditHash digest reencode y (chain_end p ys) = Some (au_EventHash y)" "au_EventHash x = au_EventHash y"
    by (simp_all add: verify_chain_append chain_end_def split: if_splits)
  then obtain a b where ab: "canonicalAudit reencode x = Some a" "canonicalAudit reencode y = Some b"
    "digest (a @ bytes_of (chain_end p xs)) = digest (b @ bytes_of (chain_end p ys))"
    by (auto simp: ComputeAuditHash_def)
  then have "a @ bytes_of (chain_end p xs) = b @ bytes_of (chain_end p ys)" using assms(1) by (simp add: inj_eq)
  moreover have "length (chain_end p xs) = length (chain_end p ys)"
    using h[OF v(1)] h[OF v(2)] snoc.prems(1) ys' by (cases "xs = []") (auto simp: chain_end_def)
  ultimately have e: "a = b" "chain_end p xs = chain_end p ys" by (auto dest: bytes_of_inj)
  with snoc.IH[of ys] snoc.prems[unfolded ys'] v ab show ?case by (simp add: ys')
qed

end
