(* ===== verification/Gateway_Session.thy ===== *)
theory Gateway_Session
  imports Gateway_Audit Agent_Backup
begin

text \<open>
  The Gateway's side of a backup session (\<open>internal/gateway/session_linux.go\<close>, \<open>retry_linux.go\<close>): a handler that lets one
  authenticated caller add objects to one repository and remove only the locks it made itself. A request runs between the caller and the
  backend; what the network, the clock and the audit do is the input of the handler, what the backend was sent is kept in the order sent.
  Mutations hold the \<open>writes\<close> channel, so a request is one step; the other shared datum is the set of retry flags, which only grows.
\<close>

section \<open>Callers\<close>

record certificate =
  crt_Raw :: string
  crt_URIs :: "string list"
  crt_CommonName :: string
  crt_IsCA :: bool
  crt_NotBefore :: time
  crt_NotAfter :: time

record tls_state =
  tls_Version :: nat
  tls_PeerCertificates :: "certificate list"
  tls_VerifiedChains :: "certificate list list"

definition VersionTLS12 :: nat where
  "VersionTLS12 = 771"

definition AgentIDFromCertificate :: "env \<Rightarrow> certificate \<Rightarrow> uuid option" where
  "AgentIDFromCertificate env c =
     (case crt_URIs c of
        [identity] \<Rightarrow>
          if \<not> has_prefix identity ''urn:restfleet:agent:'' then None
          else (case uuid_parse env (trim_prefix identity ''urn:restfleet:agent:'') of
             None \<Rightarrow> None
           | Some i \<Rightarrow> if crt_CommonName c \<noteq> uuid_string i then None else Some i)
      | _ \<Rightarrow> None)"

text \<open>The leaf a verified connection presents: the first peer certificate, which also starts the first verified chain.\<close>

definition verified_leaf :: "tls_state option \<Rightarrow> certificate option" where
  "verified_leaf t =
     (case t of
        None \<Rightarrow> None
      | Some st \<Rightarrow>
          if tls_Version st < VersionTLS12 then None
          else (case (tls_VerifiedChains st, tls_PeerCertificates st) of
             ((first # _) # _, leaf # _) \<Rightarrow> if crt_Raw leaf = crt_Raw first then Some leaf else None
           | _ \<Rightarrow> None))"

text \<open>\<open>now\<close> and \<open>later\<close> are the two readings of the clock.\<close>

definition authenticatedAgent :: "env \<Rightarrow> time \<Rightarrow> time \<Rightarrow> tls_state option \<Rightarrow> uuid option" where
  "authenticatedAgent env now later t =
     (case verified_leaf t of
        None \<Rightarrow> None
      | Some leaf \<Rightarrow>
          if now < crt_NotBefore leaf \<or> \<not> later < crt_NotAfter leaf then None
          else (case AgentIDFromCertificate env leaf of
             None \<Rightarrow> None
           | Some i \<Rightarrow> if uuid_v7 i then Some i else None))"

record read_binding =
  rb_RepositoryID :: uuid
  rb_OperationID :: uuid
  rb_AdmissionID :: uuid
  rb_RuntimeID :: uuid
  rb_ConfigurationHash :: string

definition gatewayReaderPrefix :: string where
  "gatewayReaderPrefix = ''urn:restfleet:repository-reader:''"

definition GatewayReaderValidity :: duration where
  "GatewayReaderValidity = 15 * minute"

text \<open>The identifier of one part, in canonical form.\<close>

definition canonical_v7 :: "env \<Rightarrow> string \<Rightarrow> uuid option" where
  "canonical_v7 env s =
     (case uuid_parse env s of Some i \<Rightarrow> if uuid_string i = s \<and> uuid_v7 i then Some i else None | None \<Rightarrow> None)"

definition GatewayReaderFromCertificate :: "env \<Rightarrow> time \<Rightarrow> time \<Rightarrow> certificate \<Rightarrow> read_binding option" where
  "GatewayReaderFromCertificate env now later c =
     (case crt_URIs c of
        [raw] \<Rightarrow>
          if crt_IsCA c \<or> now < crt_NotBefore c \<or> \<not> later < crt_NotAfter c
             \<or> time_sub (crt_NotAfter c) (crt_NotBefore c) > GatewayReaderValidity + minute then None
          else if \<not> has_prefix raw gatewayReaderPrefix then None
          else (case map (canonical_v7 env) (go_split (CHR '':'') (trim_prefix raw gatewayReaderPrefix)) of
             [Some a, Some b, Some c', Some d] \<Rightarrow>
               if crt_CommonName c \<noteq> uuid_string b then None
               else Some \<lparr>rb_RepositoryID = a, rb_OperationID = b, rb_AdmissionID = c', rb_RuntimeID = d, rb_ConfigurationHash = []\<rparr>
           | _ \<Rightarrow> None)
      | _ \<Rightarrow> None)"

definition authenticatedGatewayReader :: "env \<Rightarrow> time \<Rightarrow> time \<Rightarrow> tls_state option \<Rightarrow> read_binding option" where
  "authenticatedGatewayReader env now later t =
     (case verified_leaf t of None \<Rightarrow> None | Some leaf \<Rightarrow> GatewayReaderFromCertificate env now later leaf)"

definition sameGatewayReader :: "read_binding \<Rightarrow> read_binding \<Rightarrow> bool" where
  "sameGatewayReader a b \<longleftrightarrow> rb_RepositoryID a = rb_RepositoryID b \<and> rb_OperationID a = rb_OperationID b
     \<and> rb_AdmissionID a = rb_AdmissionID b \<and> rb_RuntimeID a = rb_RuntimeID b"

section \<open>Retry observations\<close>

definition retryUnavailable :: "32 word" where
  "retryUnavailable = 1"

definition retryRateLimited :: "32 word" where
  "retryRateLimited = 2"

definition retryUnsafe :: "32 word" where
  "retryUnsafe = 4"

definition retry_code :: "32 word \<Rightarrow> string" where
  "retry_code flags =
     (if flags AND retryUnsafe \<noteq> 0 then []
      else if flags AND retryRateLimited \<noteq> 0 then ''GATEWAY_RATE_LIMITED''
      else if flags AND retryUnavailable \<noteq> 0 then ''GATEWAY_UNAVAILABLE''
      else [])"

text \<open>
  What comes back from the backend: no answer, with whether the error is one of those a lost Unix connection gives (\<open>*net.OpError\<close>,
  \<open>io.EOF\<close>, \<open>io.ErrUnexpectedEOF\<close>), or an answer, with whether its body can be copied to the end.
\<close>

record backend_answer =
  an_status :: int
  an_headers :: "(string \<times> string) list"
  an_body :: string
  an_whole :: bool

datatype round_trip = Lost bool | Answered backend_answer

definition is_read :: "string \<Rightarrow> bool" where
  "is_read method \<longleftrightarrow> method = ''GET'' \<or> method = ''HEAD''"

definition observe :: "bool \<Rightarrow> string \<Rightarrow> round_trip \<Rightarrow> 32 word \<Rightarrow> 32 word" where
  "observe gone method trip flags =
     (case trip of
        Lost transient \<Rightarrow>
          flags OR (if is_read method \<and> \<not> gone \<and> transient then retryUnavailable else retryUnsafe)
      | Answered a \<Rightarrow>
          if an_status a = 200 \<or> is_read method \<and> (an_status a = 206 \<or> an_status a = 404 \<or> an_status a = 416) then flags
          else flags OR
            (if is_read method then
               (if an_status a = 429 then retryRateLimited
                else if an_status a \<in> {500, 502, 503, 504} then retryUnavailable
                else retryUnsafe)
             else retryUnsafe))"

section \<open>The session\<close>

text \<open>One request that reached the backend, with its fate.\<close>

record exchange =
  ex_method :: string
  ex_path :: string
  ex_headers :: "(string \<times> string) list"
  ex_body :: string
  ex_trip :: round_trip

text \<open>\<open>bs_sent\<close> and \<open>bs_events\<close> are what the backend and the audit saw, oldest first; the other fields are those of \<open>BackupSession\<close>.\<close>

record backup_session =
  bs_binding :: gateway_binding
  bs_prefix :: string
  bs_agentID :: uuid
  bs_reader :: "read_binding option"
  bs_verifier :: "8 word list"
  bs_canceled :: bool
  bs_locks :: "(string \<times> bool) list"
  bs_flags :: "32 word"
  bs_sent :: "exchange list"
  bs_events :: "(gateway_event \<times> bool) list"

definition maxObjectBytes :: int where
  "maxObjectBytes = 33554432"

definition maxLockBytes :: int where
  "maxLockBytes = 65536"

definition maxLocks :: nat where
  "maxLocks = 1024"

definition protocolV2 :: string where
  "protocolV2 = ''application/vnd.x.restic.rest.v2''"

text \<open>The regular expression \<open>^[0-9a-f]{64}$\<close>.\<close>

definition objectName :: "string \<Rightarrow> bool" where
  "objectName s \<longleftrightarrow> length s = 64 \<and> list_all (\<lambda>c. 48 \<le> byte c \<and> byte c \<le> 57 \<or> 97 \<le> byte c \<and> byte c \<le> 102) s"

record node_info = file_info +
  fi_socket :: bool

text \<open>\<open>lstat\<close> and \<open>resolve\<close> stand for \<open>os.Lstat\<close> and \<open>filepath.EvalSymlinks\<close>.\<close>

definition privateSocket :: "(string \<Rightarrow> node_info option) \<Rightarrow> (string \<Rightarrow> string option) \<Rightarrow> nat \<Rightarrow> string \<Rightarrow> bool" where
  "privateSocket lstat resolve euid socket =
     (if \<not> is_abs socket \<or> path_clean socket \<noteq> socket \<or> length socket \<ge> 108
         \<or> list_ex (\<lambda>c. byte c = 0 \<or> byte c = 13 \<or> byte c = 10) socket then False
      else if resolve socket \<noteq> Some socket then False
      else case (lstat (path_dir socket), lstat socket) of
        (Some d, Some f) \<Rightarrow> fi_uid d = euid \<and> fi_dir d \<and> fi_perm d = 448 \<and> fi_uid f = euid \<and> fi_socket f \<and> fi_perm f = 384
      | _ \<Rightarrow> False)"

text \<open>
  \<open>deadline\<close> is the deadline of the context, \<open>ended\<close> its error, \<open>token\<close> the random secret. The second component is the secret handed out.
\<close>

definition newBackupSession ::
    "env \<Rightarrow> time \<Rightarrow> time option \<Rightarrow> bool \<Rightarrow> string option \<Rightarrow> bool \<Rightarrow> gateway_binding \<Rightarrow> uuid \<Rightarrow> (backup_session \<times> string) option" where
  "newBackupSession env now deadline ended token socket_ok binding agentID =
     (if (case deadline of None \<Rightarrow> True | Some d \<Rightarrow> \<not> d > now) \<or> ended then None
      else if \<not> list_all uuid_v7 (binding_ids binding) then None
      else if \<not> socket_ok then None
      else if agentID = uuid_nil \<and> token = None then None
      else if agentID \<noteq> uuid_nil \<and> \<not> uuid_v7 agentID then None
      else
        (let secret = (if agentID = uuid_nil then (case token of Some t \<Rightarrow> t | None \<Rightarrow> []) else [])
         in Some (\<lparr>bs_binding = binding,
             bs_prefix = ''/restic/'' @ uuid_string (gb_GatewayID binding) @ ''/'' @ uuid_string (gb_RepositoryID binding) @ ''/'' @
               (if agentID \<noteq> uuid_nil then uuid_string (gb_OperationID binding) @ ''/'' else []),
             bs_agentID = agentID, bs_reader = None, bs_verifier = sha256 env secret, bs_canceled = False, bs_locks = [], bs_flags = 0,
             bs_sent = [], bs_events = []\<rparr>, secret)))"

text \<open>Cancel, wait for the requests, forget the secret and the locks.\<close>

definition close_session :: "backup_session \<Rightarrow> backup_session" where
  "close_session s = s\<lparr>bs_canceled := True, bs_verifier := map (\<lambda>_. 0) (bs_verifier s), bs_locks := []\<rparr>"

definition or_flags :: "32 word \<Rightarrow> backup_session \<Rightarrow> backup_session" where
  "or_flags f s = s\<lparr>bs_flags := bs_flags s OR f\<rparr>"

section \<open>A request\<close>

record http_url =
  url_Path :: string
  url_RawPath :: string
  url_RawQuery :: string
  url_ForceQuery :: bool
  url_Fragment :: string
  url_User :: bool
  url_Scheme :: string
  url_Host :: string
  url_Opaque :: string

text \<open>\<open>rq_basic\<close> is what \<open>r.BasicAuth()\<close> gives, \<open>rq_body\<close> the bytes of the body that arrive.\<close>

record client_request =
  rq_method :: string
  rq_url :: http_url
  rq_tls :: "tls_state option"
  rq_basic :: "(string \<times> string) option"
  rq_authorizations :: nat
  rq_range :: string
  rq_contentLength :: int
  rq_body :: string

text \<open>One call of the backend: whether the guard allows it, what comes back, and whether the context has ended by then.\<close>

record turn =
  tu_guard :: bool
  tu_trip :: round_trip
  tu_canceled :: bool

text \<open>
  What happens around a request: the session context and the guard at its start, the two readings of the clock, a free request slot, the
  turn at the \<open>writes\<close> channel, the context after the body was read, the two calls of the backend, the contexts after an upload, and the
  answer of the audit.
\<close>

record serving =
  sv_active :: bool
  sv_now :: time
  sv_later :: time
  sv_slot :: bool
  sv_writes :: bool
  sv_body_canceled :: bool
  sv_first :: turn
  sv_second :: turn
  sv_kept :: bool
  sv_audit :: bool

record gateway_reply =
  gr_status :: int
  gr_headers :: "(string \<times> string) list"
  gr_body :: string

text \<open>The handler answers, or it aborts the connection.\<close>

datatype served = Served gateway_reply | Aborted

definition header_set :: "string \<Rightarrow> string \<Rightarrow> (string \<times> string) list \<Rightarrow> (string \<times> string) list" where
  "header_set k v hs = filter (\<lambda>h. fst h \<noteq> k) hs @ [(k, v)]"

definition header_get :: "string \<Rightarrow> (string \<times> string) list \<Rightarrow> string" where
  "header_get k hs = (case map_of hs k of Some v \<Rightarrow> v | None \<Rightarrow> [])"

definition http_error :: "(string \<times> string) list \<Rightarrow> string \<Rightarrow> int \<Rightarrow> served" where
  "http_error hs message code = Served \<lparr>gr_status = code,
     gr_headers = header_set ''X-Content-Type-Options'' ''nosniff''
       (header_set ''Content-Type'' ''text/plain; charset=utf-8'' (filter (\<lambda>h. fst h \<noteq> ''Content-Length'') hs)),
     gr_body = message @ [char_of (10 :: nat)]\<rparr>"

text \<open>
  The request to the backend. \<open>http.NewRequestWithContext\<close> does not fail for the four methods and a path that \<open>objectPath\<close> accepts.
\<close>

definition session_request ::
    "turn \<Rightarrow> string \<Rightarrow> string \<Rightarrow> string \<Rightarrow> string \<Rightarrow> backup_session \<Rightarrow> backup_session \<times> backend_answer option" where
  "session_request tn method path body span s =
     (if \<not> tu_guard tn then (or_flags retryUnsafe s, None)
      else
        (let hs = [(''Accept'', protocolV2)] @ (if method = ''POST'' then [(''Content-Type'', ''application/octet-stream'')] else []) @
               (if method = ''GET'' \<and> span \<noteq> [] then [(''Range'', span)] else []);
             s1 = (if method = ''POST'' \<and> has_prefix path ''snapshots/'' then or_flags retryUnsafe s else s)
         in (s1\<lparr>bs_flags := observe (tu_canceled tn) method (tu_trip tn) (bs_flags s1),
               bs_sent := bs_sent s1 @ [\<lparr>ex_method = method, ex_path = path, ex_headers = hs, ex_body = body, ex_trip = tu_trip tn\<rparr>]\<rparr>,
             case tu_trip tn of Lost _ \<Rightarrow> None | Answered a \<Rightarrow> Some a)))"

definition record_event :: "bool \<Rightarrow> bool \<Rightarrow> string \<Rightarrow> string \<Rightarrow> backup_session \<Rightarrow> backup_session \<times> bool" where
  "record_event stored authenticated action reason s =
     (s\<lparr>bs_events := bs_events s @ [(\<lparr>ge_Binding = bs_binding s, ge_Authenticated = authenticated, ge_Action = action, ge_Reason = reason\<rparr>,
         stored)]\<rparr>, stored)"

definition deny :: "serving \<Rightarrow> (string \<times> string) list \<Rightarrow> bool \<Rightarrow> string \<Rightarrow> int \<Rightarrow> backup_session \<Rightarrow> backup_session \<times> served" where
  "deny inp hs authenticated reason status s =
     (case record_event (sv_audit inp) authenticated ''denied'' reason
             (or_flags (if authenticated \<and> reason = ''request_limit'' then retryRateLimited else retryUnsafe) s) of
        (s', True) \<Rightarrow> (s', http_error hs ''gateway request rejected'' status)
      | (s', False) \<Rightarrow> (s', http_error hs ''gateway unavailable'' 503))"

definition backendFailure :: "(string \<times> string) list \<Rightarrow> int \<Rightarrow> served" where
  "backendFailure hs status = http_error hs ''gateway request failed'' (if status \<noteq> 404 \<and> status \<noteq> 416 then 502 else status)"

definition objectPath :: "backup_session \<Rightarrow> http_url \<Rightarrow> string option" where
  "objectPath s u =
     (if url_RawPath u \<noteq> [] \<or> url_RawQuery u \<noteq> [] \<or> url_ForceQuery u \<or> url_Fragment u \<noteq> [] \<or> url_User u \<or> url_Scheme u \<noteq> []
         \<or> url_Host u \<noteq> [] \<or> url_Opaque u \<noteq> [] \<or> \<not> has_prefix (url_Path u) (bs_prefix s) then None
      else
        (let path = trim_prefix (url_Path u) (bs_prefix s)
         in if path = ''config'' then Some path
            else case go_cut (CHR ''/'') path of
              None \<Rightarrow> None
            | Some (kind, name) \<Rightarrow>
                if kind \<notin> {''data'', ''index'', ''snapshots'', ''keys'', ''locks''} then None
                else if name = [] \<or> objectName name then Some path else None))"

definition copied_headers :: "backend_answer \<Rightarrow> (string \<times> string) list \<Rightarrow> (string \<times> string) list" where
  "copied_headers a hs =
     foldl (\<lambda>hs k. if header_get k (an_headers a) \<noteq> [] then header_set k (header_get k (an_headers a)) hs else hs) hs
       [''Content-Length'', ''Content-Range'', ''Accept-Ranges'']"

definition session_read ::
    "serving \<Rightarrow> (string \<times> string) list \<Rightarrow> client_request \<Rightarrow> string \<Rightarrow> backup_session \<Rightarrow> backup_session \<times> served" where
  "session_read inp hs r path s =
     (case session_request (sv_first inp) (rq_method r) path [] (rq_range r) s of
        (s1, None) \<Rightarrow> (s1, http_error hs ''gateway unavailable'' 502)
      | (s1, Some a) \<Rightarrow>
          if an_status a \<noteq> 200 \<and> an_status a \<noteq> 206 then
            (if has_suffix path ''/'' then
               (if an_status a = 404 \<or> an_status a = 416 then or_flags retryUnsafe s1 else s1, backendFailure hs 502)
             else (s1, backendFailure hs (an_status a)))
          else if rq_method r \<noteq> ''HEAD'' \<and> \<not> an_whole a then (or_flags retryUnsafe s1, Aborted)
          else (s1, Served \<lparr>gr_status = an_status a,
            gr_headers = header_set ''Content-Type'' (if has_suffix path ''/'' then protocolV2 else ''application/octet-stream'')
              (copied_headers a hs),
            gr_body = (if rq_method r \<noteq> ''HEAD'' then an_body a else [])\<rparr>))"

definition set_lock :: "string \<Rightarrow> bool \<Rightarrow> backup_session \<Rightarrow> backup_session" where
  "set_lock path owned s = s\<lparr>bs_locks := (path, owned) # filter (\<lambda>l. fst l \<noteq> path) (bs_locks s)\<rparr>"

text \<open>The upload after its checks: probe, reserve, send.\<close>

definition upload ::
    "serving \<Rightarrow> (string \<times> string) list \<Rightarrow> string \<Rightarrow> string \<Rightarrow> backup_session \<Rightarrow> backup_session \<times> served" where
  "upload inp hs path body s =
     (case session_request (sv_first inp) ''HEAD'' path [] [] s of
        (s1, None) \<Rightarrow> (s1, http_error hs ''gateway unavailable'' 502)
      | (s1, Some probe) \<Rightarrow>
          if an_status probe \<noteq> 404 then
            (if an_status probe = 200 then deny inp hs True ''object_exists'' 403 s1
             else (s1, http_error hs ''gateway unavailable'' 502))
          else
            (let lock = has_prefix path ''locks/''; s2 = (if lock then set_lock path False s1 else s1)
             in case session_request (sv_second inp) ''POST'' path body [] s2 of
                  (s3, None) \<Rightarrow> (s3, http_error hs ''gateway unavailable'' 502)
                | (s3, Some a) \<Rightarrow>
                    if an_status a \<noteq> 200 then (s3, backendFailure hs (an_status a))
                    else (if lock \<and> sv_kept inp then set_lock path True s3 else s3,
                      Served \<lparr>gr_status = 200, gr_headers = hs, gr_body = []\<rparr>)))"

definition session_create ::
    "env \<Rightarrow> serving \<Rightarrow> (string \<times> string) list \<Rightarrow> client_request \<Rightarrow> string \<Rightarrow> backup_session \<Rightarrow> backup_session \<times> served" where
  "session_create env inp hs r path s =
     (let lock = has_prefix path ''locks/''
      in if lock \<and> (path \<in> fst ` set (bs_locks s) \<or> length (bs_locks s) \<ge> maxLocks)
         then deny inp hs True ''lock_not_fresh'' 403 s
         else if rq_contentLength r < 1 \<or> rq_contentLength r > (if lock then maxLockBytes else maxObjectBytes)
         then deny inp hs True ''object_size'' 413 s
         else if int (length (rq_body r)) < rq_contentLength r \<or> sv_body_canceled inp
         then deny inp hs True ''invalid_body'' 400 s
         else
           (let body = take (nat (rq_contentLength r)) (rq_body r);
                name = (case go_cut (CHR ''/'') path of Some (_, n) \<Rightarrow> n | None \<Rightarrow> [])
            in if hex_encode (sha256 env body) \<noteq> name then deny inp hs True ''content_hash_mismatch'' 400 s
               else upload inp hs path body s))"

definition removeLock :: "serving \<Rightarrow> (string \<times> string) list \<Rightarrow> string \<Rightarrow> backup_session \<Rightarrow> backup_session \<times> served" where
  "removeLock inp hs path s =
     (if map_of (bs_locks s) path \<noteq> Some True then deny inp hs True ''lock_not_owned'' 403 s
      else case record_event (sv_audit inp) True ''lock_cleanup'' ''owned_lock'' s of
        (s1, False) \<Rightarrow> (s1, http_error hs ''gateway unavailable'' 503)
      | (s1, True) \<Rightarrow>
          (case session_request (sv_first inp) ''DELETE'' path [] [] (set_lock path False s1) of
             (s2, None) \<Rightarrow> (s2, http_error hs ''gateway unavailable'' 502)
           | (s2, Some a) \<Rightarrow>
               if an_status a \<noteq> 200 then (s2, backendFailure hs (an_status a))
               else (s2, Served \<lparr>gr_status = 200, gr_headers = hs, gr_body = []\<rparr>)))"

definition basic_ok :: "env \<Rightarrow> backup_session \<Rightarrow> client_request \<Rightarrow> bool" where
  "basic_ok env s r =
     (case rq_basic r of
        None \<Rightarrow> False
      | Some (username, password) \<Rightarrow>
          rq_authorizations r = 1 \<and> username = uuid_string (gb_GatewayID (bs_binding s)) \<and> sha256 env password = bs_verifier s)"

definition caller_ok :: "env \<Rightarrow> serving \<Rightarrow> backup_session \<Rightarrow> client_request \<Rightarrow> bool" where
  "caller_ok env inp s r =
     (case bs_reader s of
        Some reader \<Rightarrow>
          (case authenticatedGatewayReader env (sv_now inp) (sv_later inp) (rq_tls r) of
             Some x \<Rightarrow> sameGatewayReader x reader | None \<Rightarrow> False)
      | None \<Rightarrow>
          if bs_agentID s \<noteq> uuid_nil then authenticatedAgent env (sv_now inp) (sv_later inp) (rq_tls r) = Some (bs_agentID s)
          else basic_ok env s r)"

text \<open>What follows once the caller is known and the request has a slot.\<close>

definition serve_object ::
    "env \<Rightarrow> serving \<Rightarrow> (string \<times> string) list \<Rightarrow> client_request \<Rightarrow> string \<Rightarrow> backup_session \<Rightarrow> backup_session \<times> served" where
  "serve_object env inp hs r path s =
     (if rq_method r = ''GET'' \<or> rq_method r = ''HEAD'' \<and> \<not> has_suffix path ''/'' then session_read inp hs r path s
      else if bs_reader s \<noteq> None then deny inp hs True ''method_rejected'' 403 s
      else if rq_method r \<noteq> ''POST'' \<and> rq_method r \<noteq> ''DELETE'' then deny inp hs True ''method_rejected'' 403 s
      else if path = ''config'' \<or> has_prefix path ''keys/'' \<or> has_suffix path ''/''
              \<or> rq_method r = ''DELETE'' \<and> \<not> has_prefix path ''locks/''
      then deny inp hs True ''immutable_object'' 403 s
      else if \<not> sv_writes inp then (s, http_error hs ''gateway unavailable'' 503)
      else if rq_method r = ''DELETE'' then removeLock inp hs path s
      else session_create env inp hs r path s)"

definition ServeHTTP :: "env \<Rightarrow> serving \<Rightarrow> client_request \<Rightarrow> backup_session \<Rightarrow> backup_session \<times> served" where
  "ServeHTTP env inp r s =
     (let hs = [(''Cache-Control'', ''no-store''), (''X-Content-Type-Options'', ''nosniff'')]
      in if bs_canceled s \<or> \<not> sv_active inp then deny inp hs False ''session_inactive'' 403 s
         else if (case rq_tls r of None \<Rightarrow> True | Some t \<Rightarrow> tls_Version t < VersionTLS12) then deny inp hs False ''tls_required'' 403 s
         else if \<not> caller_ok env inp s r then
           deny inp (if bs_reader s = None \<and> bs_agentID s = uuid_nil
             then header_set ''WWW-Authenticate'' ''Basic realm=\"restfleet\"'' hs else hs) False ''authentication_failed'' 401 s
         else case objectPath s (rq_url r) of
           None \<Rightarrow> deny inp hs True ''path_rejected'' 403 s
         | Some path \<Rightarrow>
             if \<not> sv_slot inp then deny inp hs True ''request_limit'' 429 s
             else serve_object env inp hs r path s)"

section \<open>What a session may do to the repository\<close>

text \<open>
  The rule for one exchange \<open>x\<close> after the exchanges \<open>xs\<close>: reading is free; an upload names its content by its hash, is no key and no
  configuration, and follows a probe that did not find the object; a removal is of a lock that this session uploaded and did not remove yet.
\<close>

definition answered :: "exchange \<Rightarrow> int \<Rightarrow> bool" where
  "answered x status = (case ex_trip x of Answered a \<Rightarrow> an_status a = status | Lost _ \<Rightarrow> False)"

definition exchange_ok :: "env \<Rightarrow> exchange list \<Rightarrow> exchange \<Rightarrow> bool" where
  "exchange_ok env xs x =
     (if is_read (ex_method x) then True
      else if ex_method x = ''POST'' then
        list_ex (\<lambda>kind. ex_path x = kind @ ''/'' @ hex_encode (sha256 env (ex_body x))) [''data'', ''index'', ''snapshots'', ''locks''] \<and>
        objectName (hex_encode (sha256 env (ex_body x))) \<and>
        list_ex (\<lambda>h. ex_method h = ''HEAD'' \<and> ex_path h = ex_path x \<and> answered h 404) xs
      else ex_method x = ''DELETE'' \<and> has_prefix (ex_path x) ''locks/'' \<and>
        list_ex (\<lambda>p. ex_method p = ''POST'' \<and> ex_path p = ex_path x \<and> answered p 200) xs \<and>
        \<not> list_ex (\<lambda>d. ex_method d = ''DELETE'' \<and> ex_path d = ex_path x) xs)"

definition append_only :: "env \<Rightarrow> exchange list \<Rightarrow> bool" where
  "append_only env sent \<longleftrightarrow> list_all (\<lambda>i. exchange_ok env (take i sent) (sent ! i)) [0..<length sent]"

lemma append_only_snoc [simp]: "append_only env (xs @ [x]) \<longleftrightarrow> append_only env xs \<and> exchange_ok env xs x"
proof -
  have "list_all (\<lambda>i. exchange_ok env (take i (xs @ [x])) ((xs @ [x]) ! i)) [0..<length xs] \<longleftrightarrow> append_only env xs"
    unfolding append_only_def by (rule list.pred_cong) (auto simp: nth_append)
  then show ?thesis by (simp add: append_only_def)
qed

lemma append_only_Nil [simp]: "append_only env []"
  by (simp add: append_only_def)

text \<open>A mutation after which a repeated run is harmless: it is no snapshot, and the backend confirmed it.\<close>

definition settled_exchange :: "exchange \<Rightarrow> bool" where
  "settled_exchange x \<longleftrightarrow> is_read (ex_method x) \<or>
     answered x 200 \<and> \<not> (ex_method x = ''POST'' \<and> has_prefix (ex_path x) ''snapshots/'')"

definition locks_ok :: "backup_session \<Rightarrow> bool" where
  "locks_ok s \<longleftrightarrow> distinct (map fst (bs_locks s)) \<and> length (bs_locks s) \<le> maxLocks \<and>
     (\<forall>p. map_of (bs_locks s) p = Some True \<longrightarrow> has_prefix p ''locks/'' \<and>
       list_ex (\<lambda>x. ex_method x = ''POST'' \<and> ex_path x = p \<and> answered x 200) (bs_sent s) \<and>
       \<not> list_ex (\<lambda>d. ex_method d = ''DELETE'' \<and> ex_path d = p) (bs_sent s)) \<and>
     (\<not> bs_canceled s \<longrightarrow> (\<forall>x \<in> set (bs_sent s). ex_method x = ''DELETE'' \<longrightarrow> ex_path x \<in> fst ` set (bs_locks s)))"

definition event_ok :: "gateway_binding \<Rightarrow> gateway_event \<Rightarrow> bool" where
  "event_ok b e \<longleftrightarrow> ge_Binding e = b \<and> snd (GatewayAudit e)"

definition session_inv :: "env \<Rightarrow> backup_session \<Rightarrow> bool" where
  "session_inv env s \<longleftrightarrow> list_all uuid_v7 (binding_ids (bs_binding s)) \<and> list_all (\<lambda>e. event_ok (bs_binding s) (fst e)) (bs_events s) \<and>
     append_only env (bs_sent s) \<and> locks_ok s \<and>
     (bs_flags s AND retryUnsafe = 0 \<longrightarrow> list_all settled_exchange (bs_sent s) \<and>
        list_all (\<lambda>e. ge_Reason (fst e) = ''request_limit'' \<or> ge_Action (fst e) \<noteq> ''denied'') (bs_events s)) \<and>
     (bs_reader s \<noteq> None \<longrightarrow> list_all (\<lambda>x. is_read (ex_method x)) (bs_sent s))"

lemma or_and_zero: "(a OR b) AND c = 0 \<longleftrightarrow> a AND c = 0 \<and> b AND (c :: 'a::len word) = 0"
  by (simp add: bit.conj_disj_distrib2 or_eq_0_iff)

lemma unsafe_nonzero [simp]: "retryUnsafe \<noteq> 0"
  by (simp add: retryUnsafe_def)

lemma or_flags_simps [simp]:
  "bs_binding (or_flags f s) = bs_binding s" "bs_events (or_flags f s) = bs_events s" "bs_sent (or_flags f s) = bs_sent s"
  "bs_locks (or_flags f s) = bs_locks s" "bs_canceled (or_flags f s) = bs_canceled s" "bs_reader (or_flags f s) = bs_reader s"
  "bs_flags (or_flags f s) = bs_flags s OR f" "locks_ok (or_flags f s) = locks_ok s"
  by (simp_all add: or_flags_def locks_ok_def)

lemma or_flags_inv: "session_inv env s \<Longrightarrow> session_inv env (or_flags f s)"
  by (simp add: session_inv_def or_and_zero)

lemma deny_inv:
  assumes "session_inv env s" "deny inp hs auth reason status s = (t, x)"
    and "if auth then reason \<in> set request_reasons else reason \<in> set early_reasons"
  shows "session_inv env t"
proof -
  let ?e = "\<lparr>ge_Binding = bs_binding s, ge_Authenticated = auth, ge_Action = ''denied'', ge_Reason = reason\<rparr>"
  let ?f = "if auth \<and> reason = ''request_limit'' then retryRateLimited else retryUnsafe"
  have t: "t = (or_flags ?f s)\<lparr>bs_events := bs_events s @ [(?e, sv_audit inp)]\<rparr>"
    using assms(2) unfolding deny_def record_event_def by (auto split: bool.splits split del: if_split)
  have "event_ok (bs_binding s) ?e"
    using assms(1,3) denied_valid by (simp add: event_ok_def session_inv_def)
  then show ?thesis using assms(1) unfolding t
    by (simp add: session_inv_def or_and_zero locks_ok_def)
qed

text \<open>A request to the backend.\<close>

lemma session_request_cases:
  assumes "session_request tn method path body span s = (t, x)"
  obtains (blocked) "t = or_flags retryUnsafe s" "x = None"
  | (sent) e where "ex_method e = method" "ex_path e = path" "ex_body e = body" "ex_trip e = tu_trip tn" "bs_sent t = bs_sent s @ [e]"
      "bs_binding t = bs_binding s" "bs_events t = bs_events s" "bs_locks t = bs_locks s" "bs_canceled t = bs_canceled s"
      "bs_reader t = bs_reader s" "x = (case tu_trip tn of Lost _ \<Rightarrow> None | Answered a \<Rightarrow> Some a)"
      "bs_flags t AND retryUnsafe = 0 \<Longrightarrow> bs_flags s AND retryUnsafe = 0 \<and> settled_exchange e"
proof (cases "tu_guard tn")
  case True
  define e where "e = last (bs_sent t)"
  from assms True have e: "ex_method e = method" "ex_path e = path" "ex_body e = body" "ex_trip e = tu_trip tn" "bs_sent t = bs_sent s @ [e]"
    by (auto simp: e_def session_request_def Let_def)
  have "bs_flags t AND retryUnsafe = 0 \<Longrightarrow> bs_flags s AND retryUnsafe = 0 \<and> settled_exchange e"
    using assms True e(1-4)
    by (auto simp: session_request_def Let_def observe_def or_and_zero settled_exchange_def answered_def
        split: round_trip.splits if_splits)
  with e sent[of e] show ?thesis using assms True by (auto simp: session_request_def Let_def)
qed (use assms blocked in \<open>auto simp: session_request_def\<close>)

lemma session_request_inv:
  assumes "session_inv env s" "session_request tn method path body span s = (t, x)"
    and "\<And>e. ex_method e = method \<Longrightarrow> ex_path e = path \<Longrightarrow> ex_body e = body \<Longrightarrow> exchange_ok env (bs_sent s) e"
    and "bs_reader s \<noteq> None \<Longrightarrow> is_read method"
    and "method = ''DELETE'' \<Longrightarrow> map_of (bs_locks s) path = Some False"
  shows "session_inv env t"
  using assms(2)
proof (cases rule: session_request_cases)
  case blocked
  with assms(1) show ?thesis by (simp add: or_flags_inv)
next
  case (sent e)
  have l: "locks_ok s" using assms(1) by (simp add: session_inv_def)
  have d: "ex_method e = ''DELETE'' \<Longrightarrow> ex_path e \<in> fst ` set (bs_locks s)"
    using assms(5) sent(1,2) by (metis domI dom_map_of_conv_image_fst)
  have "locks_ok t"
    unfolding locks_ok_def sent
  proof (intro conjI allI impI ballI)
    fix p assume p: "map_of (bs_locks s) p = Some True"
    then have "ex_method e = ''DELETE'' \<Longrightarrow> ex_path e \<noteq> p" using assms(5) sent(1,2) by auto
    with p show "\<not> list_ex (\<lambda>d. ex_method d = ''DELETE'' \<and> ex_path d = p) (bs_sent s @ [e])"
      using l by (auto simp: locks_ok_def)
  next
    fix x assume "\<not> bs_canceled s" "x \<in> set (bs_sent s @ [e])" "ex_method x = ''DELETE''"
    then show "ex_path x \<in> fst ` set (bs_locks s)" using l d by (auto simp: locks_ok_def)
  qed (use l in \<open>auto simp: locks_ok_def\<close>)
  moreover have "exchange_ok env (bs_sent s) e" using assms(3) sent by simp
  ultimately show ?thesis using assms(1,4) sent by (auto simp: session_inv_def)
qed

lemma session_read_inv:
  assumes "session_inv env s" "session_read inp hs r path s = (t, x)" "is_read (rq_method r)"
  shows "session_inv env t"
proof -
  obtain s1 a where s1: "session_request (sv_first inp) (rq_method r) path [] (rq_range r) s = (s1, a)" by fastforce
  have "session_inv env s1"
    by (rule session_request_inv[OF assms(1) s1]) (use assms(3) in \<open>auto simp: exchange_ok_def is_read_def\<close>)
  then show ?thesis using assms(2) s1
    by (auto simp: session_read_def or_flags_inv split: option.splits if_splits)
qed

text \<open>The locks.\<close>

lemma set_lock_simps [simp]:
  "bs_binding (set_lock p b s) = bs_binding s" "bs_events (set_lock p b s) = bs_events s" "bs_sent (set_lock p b s) = bs_sent s"
  "bs_canceled (set_lock p b s) = bs_canceled s" "bs_reader (set_lock p b s) = bs_reader s" "bs_flags (set_lock p b s) = bs_flags s"
  by (simp_all add: set_lock_def)

lemma map_of_without: "map_of (filter (\<lambda>l. fst l \<noteq> p) xs) q = (if q = p then None else map_of xs q)"
  by (induction xs) auto

lemma set_lock_get: "map_of (bs_locks (set_lock p b s)) q = (if q = p then Some b else map_of (bs_locks s) q)"
  by (simp add: set_lock_def map_of_without)

lemma set_lock_length:
  "distinct (map fst xs) \<Longrightarrow> length (filter (\<lambda>l. fst l \<noteq> p) xs) = (if p \<in> fst ` set xs then length xs - 1 else length xs)"
proof (induction xs)
  case (Cons l xs)
  then show ?case by (cases xs) (auto simp: filter_id_conv image_iff)
qed simp

lemma set_lock_inv:
  assumes "session_inv env s" "p \<in> fst ` set (bs_locks s) \<or> length (bs_locks s) < maxLocks"
    and "b \<Longrightarrow> has_prefix p ''locks/'' \<and> list_ex (\<lambda>x. ex_method x = ''POST'' \<and> ex_path x = p \<and> answered x 200) (bs_sent s) \<and>
       \<not> list_ex (\<lambda>d. ex_method d = ''DELETE'' \<and> ex_path d = p) (bs_sent s)"
  shows "session_inv env (set_lock p b s)"
proof -
  have l: "locks_ok s" using assms(1) by (simp add: session_inv_def)
  have "distinct (map fst (bs_locks (set_lock p b s)))"
    using l by (auto simp: locks_ok_def set_lock_def distinct_map_filter)
  moreover have "length (bs_locks (set_lock p b s)) \<le> maxLocks"
  proof (cases "p \<in> fst ` set (bs_locks s)")
    case True
    then have "bs_locks s \<noteq> []" by auto
    then have "Suc (length (bs_locks s) - 1) = length (bs_locks s)" by simp
    with True l show ?thesis
      by (simp add: locks_ok_def set_lock_def set_lock_length)
  next
    case False
    with assms(2) l show ?thesis by (simp add: locks_ok_def set_lock_def set_lock_length)
  qed
  moreover have "fst ` set (bs_locks (set_lock p b s)) = insert p (fst ` set (bs_locks s))"
    by (auto simp: set_lock_def image_iff)
  ultimately have "locks_ok (set_lock p b s)"
    using l assms(3) unfolding locks_ok_def by (auto simp: set_lock_get)
  then show ?thesis using assms(1) by (simp add: session_inv_def)
qed

text \<open>An upload of an object of the repository.\<close>

definition uploadable :: "env \<Rightarrow> string \<Rightarrow> string \<Rightarrow> bool" where
  "uploadable env path body \<longleftrightarrow>
     list_ex (\<lambda>kind. path = kind @ ''/'' @ hex_encode (sha256 env body)) [''data'', ''index'', ''snapshots'', ''locks''] \<and>
     objectName (hex_encode (sha256 env body))"

lemma upload_inv:
  assumes "session_inv env s" "\<not> bs_canceled s" "bs_reader s = None" "uploadable env path body"
    and fresh: "has_prefix path ''locks/'' \<Longrightarrow> path \<notin> fst ` set (bs_locks s) \<and> length (bs_locks s) < maxLocks"
    and "upload inp hs path body s = (t, x)"
  shows "session_inv env t"
proof -
  obtain s1 a where s1: "session_request (sv_first inp) ''HEAD'' path [] [] s = (s1, a)" by fastforce
  have i1: "session_inv env s1"
    by (rule session_request_inv[OF assms(1) s1]) (auto simp: exchange_ok_def is_read_def)
  show ?thesis
  proof (cases "\<exists>probe. a = Some probe \<and> an_status probe = 404")
    case False
    have d: "session_inv env u" if "deny inp hs True ''object_exists'' 403 s1 = (u, y)" for u y
      using i1 that by (rule deny_inv) (simp add: request_reasons_def)
    show ?thesis using False i1 d assms(6) s1 by (auto simp: upload_def split: option.splits if_splits)
  next
    case True
    then obtain probe where a: "a = Some probe" "an_status probe = 404" by blast
    from s1 a obtain h where h: "ex_method h = ''HEAD''" "ex_path h = path" "answered h 404" "bs_sent s1 = bs_sent s @ [h]"
      "bs_locks s1 = bs_locks s" "bs_reader s1 = bs_reader s" "bs_canceled s1 = bs_canceled s"
      by (cases rule: session_request_cases) (auto simp: answered_def split: round_trip.splits)
    define s2 where "s2 = (if has_prefix path ''locks/'' then set_lock path False s1 else s1)"
    have i2: "session_inv env s2" unfolding s2_def using i1 fresh h(5) by (auto intro!: set_lock_inv)
    have sent2: "bs_sent s2 = bs_sent s @ [h]" "bs_reader s2 = None" using h assms(3) by (auto simp: s2_def)
    obtain s3 b where s3: "session_request (sv_second inp) ''POST'' path body [] s2 = (s3, b)" by fastforce
    have i3: "session_inv env s3"
      by (rule session_request_inv[OF i2 s3])
        (use assms(4) sent2 h in \<open>auto simp: exchange_ok_def is_read_def uploadable_def\<close>)
    have "session_inv env (set_lock path True s3)" if ok: "b = Some c" "an_status c = 200" "has_prefix path ''locks/''" for c
    proof (rule set_lock_inv[OF i3])
      from s3 ok obtain p where p: "ex_method p = ''POST''" "ex_path p = path" "answered p 200" "bs_sent s3 = bs_sent s2 @ [p]"
        "bs_locks s3 = bs_locks s2"
        by (cases rule: session_request_cases) (auto simp: answered_def split: round_trip.splits)
      show "path \<in> fst ` set (bs_locks s3) \<or> length (bs_locks s3) < maxLocks"
        using p(5) ok(3) by (simp add: s2_def set_lock_def)
      have "\<not> list_ex (\<lambda>d. ex_method d = ''DELETE'' \<and> ex_path d = path) (bs_sent s)"
        using assms(1,2) fresh[OF ok(3)] by (auto simp: session_inv_def locks_ok_def list_ex_iff)
      then show "has_prefix path ''locks/'' \<and>
          list_ex (\<lambda>x. ex_method x = ''POST'' \<and> ex_path x = path \<and> answered x 200) (bs_sent s3) \<and>
          \<not> list_ex (\<lambda>d. ex_method d = ''DELETE'' \<and> ex_path d = path) (bs_sent s3)"
        using ok(3) p sent2 h by simp
    qed
    with i3 assms(6) s1 s3 a show ?thesis
      by (auto simp: upload_def Let_def simp flip: s2_def split: option.splits if_splits)
  qed
qed

lemma removeLock_inv:
  assumes "session_inv env s" "bs_reader s = None" "removeLock inp hs path s = (t, x)"
  shows "session_inv env t"
proof (cases "map_of (bs_locks s) path = Some True")
  case False
  with assms(3) have "deny inp hs True ''lock_not_owned'' 403 s = (t, x)" by (simp add: removeLock_def)
  with assms(1) show ?thesis by (rule deny_inv) (simp add: request_reasons_def)
next
  case True
  let ?e = "\<lparr>ge_Binding = bs_binding s, ge_Authenticated = True, ge_Action = ''lock_cleanup'', ge_Reason = ''owned_lock''\<rparr>"
  define s1 where "s1 = s\<lparr>bs_events := bs_events s @ [(?e, sv_audit inp)]\<rparr>"
  have "event_ok (bs_binding s) ?e" using assms(1) cleanup_valid by (simp add: event_ok_def session_inv_def)
  then have i1: "session_inv env s1" using assms(1) by (simp add: session_inv_def s1_def locks_ok_def)
  have k: "path \<in> fst ` set (bs_locks s1)" using True by (simp add: s1_def) (metis domI dom_map_of_conv_image_fst)
  have i2: "session_inv env (set_lock path False s1)" using i1 k by (intro set_lock_inv) auto
  obtain s2 a where s2: "session_request (sv_first inp) ''DELETE'' path [] [] (set_lock path False s1) = (s2, a)" by fastforce
  have "session_inv env s2"
  proof (rule session_request_inv[OF i2 s2])
    fix e :: exchange
    assume e: "ex_method e = ''DELETE''" "ex_path e = path"
    show "exchange_ok env (bs_sent (set_lock path False s1)) e"
      using assms(1) True e by (auto simp: exchange_ok_def is_read_def s1_def session_inv_def locks_ok_def)
  qed (use assms(2) in \<open>auto simp: s1_def set_lock_get\<close>)
  with i1 assms(3) True s2 show ?thesis
    by (auto simp: removeLock_def record_event_def s1_def split: bool.splits option.splits if_splits)
qed

lemma objectPath_Some:
  assumes "objectPath s u = Some path"
  shows "path = ''config'' \<or> (\<exists>kind name. path = kind @ ''/'' @ name \<and> kind \<in> {''data'', ''index'', ''snapshots'', ''keys'', ''locks''} \<and>
     (name = [] \<or> objectName name) \<and> go_cut (CHR ''/'') path = Some (kind, name))"
proof (cases "path = ''config''")
  case False
  with assms obtain kind name where "go_cut (CHR ''/'') path = Some (kind, name)"
    "kind \<in> {''data'', ''index'', ''snapshots'', ''keys'', ''locks''}" "name = [] \<or> objectName name"
    unfolding objectPath_def Let_def by (auto split: if_splits option.splits)
  moreover from this(1) have "path = kind @ ''/'' @ name" by (simp add: go_cut_Some)
  ultimately show ?thesis by blast
qed simp

lemma create_inv:
  assumes "session_inv env s" "\<not> bs_canceled s" "bs_reader s = None" "objectPath s u = Some path"
    and "path \<noteq> ''config''" "\<not> has_prefix path ''keys/''" "\<not> has_suffix path ''/''"
    and "session_create env inp hs r path s = (t, x)"
  shows "session_inv env t"
proof -
  from objectPath_Some[OF assms(4)] assms(5) obtain kind name where path: "path = kind @ ''/'' @ name"
    "kind \<in> {''data'', ''index'', ''snapshots'', ''keys'', ''locks''}" "name = [] \<or> objectName name" "go_cut (CHR ''/'') path = Some (kind, name)"
    by blast
  have "name \<noteq> []" "kind \<noteq> ''keys''" using assms(6,7) path(1) by (auto simp: has_suffix_def has_prefix_def)
  then have up: "uploadable env path body" if "hex_encode (sha256 env body) = name" for body
    using path that by (auto simp: uploadable_def)
  have deny: "session_inv env v" if "deny inp hs True reason status s = (v, y)" "reason \<in> set request_reasons" for reason status v y
    using assms(1) that by (auto intro: deny_inv)
  have put: "session_inv env v"
    if "upload inp hs path body s = (v, y)" "hex_encode (sha256 env body) = name"
      "\<not> (has_prefix path ''locks/'' \<and> (path \<in> fst ` set (bs_locks s) \<or> length (bs_locks s) \<ge> maxLocks))" for body v y
    using that upload_inv[OF assms(1-3) up[OF that(2)] _ that(1)] by auto
  show ?thesis
    using assms(8) put deny unfolding session_create_def Let_def path(4) option.case prod.case
    by (auto simp: request_reasons_def split: if_splits)
qed

lemma serve_inv:
  assumes "session_inv env s" "ServeHTTP env inp r s = (t, x)"
  shows "session_inv env t"
proof -
  have early: "session_inv env v" if "deny inp hs False reason status s = (v, y)" "reason \<in> set early_reasons" for hs reason status v y
    using assms(1) that by (auto intro: deny_inv)
  have late: "session_inv env v" if "deny inp hs True reason status s = (v, y)" "reason \<in> set request_reasons" for hs reason status v y
    using assms(1) that by (auto intro: deny_inv)
  have obj: "session_inv env v" if o: "objectPath s (rq_url r) = Some path" "serve_object env inp hs r path s = (v, y)" "\<not> bs_canceled s"
    for hs path v y
  proof -
    have rd: "session_inv env v" if "session_read inp hs r path s = (v, y)" "rq_method r = ''GET'' \<or> rq_method r = ''HEAD''" for v y
      using assms(1) that by (auto intro: session_read_inv simp: is_read_def)
    have rm: "session_inv env v" if "removeLock inp hs path s = (v, y)" "bs_reader s = None" for v y
      using assms(1) that by (auto intro: removeLock_inv)
    have cr: "session_inv env v" if "session_create env inp hs r path s = (v, y)" "bs_reader s = None" "path \<noteq> ''config''"
      "\<not> has_prefix path ''keys/''" "\<not> has_suffix path ''/''" for v y
      using create_inv[OF assms(1) o(3) that(2) o(1) that(3-5,1)] .
    show ?thesis using o(2) late rd rm cr assms(1)
      by (auto simp: serve_object_def request_reasons_def split: if_splits)
  qed
  show ?thesis
    using assms(2) early late obj
    by (auto simp: ServeHTTP_def Let_def early_reasons_def request_reasons_def split: if_splits option.splits)
qed

lemma close_inv: "session_inv env s \<Longrightarrow> session_inv env (close_session s)"
  by (auto simp: session_inv_def close_session_def locks_ok_def maxLocks_def)

lemma new_inv: "newBackupSession env now deadline ended token socket_ok binding agentID = Some (s, secret) \<Longrightarrow> session_inv env s"
  by (auto simp: newBackupSession_def Let_def session_inv_def locks_ok_def split: if_splits)

text \<open>A session over time: requests and, possibly, its end. Turning it into a reading session is done before it is published.\<close>

datatype session_event = Request serving client_request | CloseSession

fun session_history :: "env \<Rightarrow> session_event list \<Rightarrow> backup_session \<Rightarrow> backup_session" where
  "session_history env [] s = s"
| "session_history env (Request inp r # es) s = session_history env es (fst (ServeHTTP env inp r s))"
| "session_history env (CloseSession # es) s = session_history env es (close_session s)"

lemma session_history_inv: "session_inv env s \<Longrightarrow> session_inv env (session_history env es s)"
proof (induction env es s rule: session_history.induct)
  case (2 env inp r es s)
  then show ?case by (cases "ServeHTTP env inp r s") (auto dest: serve_inv)
qed (auto simp: close_inv)

lemma opened_inv:
  "newBackupSession env now deadline ended token socket_ok binding agentID = Some (s, secret) \<Longrightarrow> session_inv env (s\<lparr>bs_reader := rd\<rparr>)"
  by (auto simp: newBackupSession_def Let_def session_inv_def locks_ok_def split: if_splits)

text \<open>Only the caller of the session reaches the backend.\<close>

lemma deny_sent: "deny inp hs auth reason status s = (t, x) \<Longrightarrow> bs_sent t = bs_sent s"
  by (auto simp: deny_def record_event_def split: bool.splits if_splits)

lemma serve_sent:
  assumes "ServeHTTP env inp r s = (t, x)" "bs_sent t \<noteq> bs_sent s"
  shows "\<not> bs_canceled s \<and> sv_active inp \<and> caller_ok env inp s r \<and> objectPath s (rq_url r) \<noteq> None"
  using assms by (auto simp: ServeHTTP_def Let_def dest: deny_sent split: if_splits option.splits)

section \<open>A session at work\<close>

definition demo_gateway :: gateway_binding where
  "demo_gateway = \<lparr>gb_HostID = 528914269453437118709762, gb_RepositoryID = 528914269453437118709763,
     gb_GatewayID = 528914269453437118709764, gb_OperationID = 528914269453437118709765\<rparr>"

definition demo_hash_env :: env where
  "demo_hash_env = demo_env\<lparr>sha256 := (\<lambda>_. replicate 32 0)\<rparr>"

definition demo_lock_path :: string where
  "demo_lock_path = ''locks/'' @ replicate 64 (CHR ''0'')"

definition demo_call :: "string \<Rightarrow> client_request" where
  "demo_call method = \<lparr>rq_method = method,
     rq_url = \<lparr>url_Path = ''/restic/'' @ uuid_string 528914269453437118709764 @ ''/'' @ uuid_string 528914269453437118709763 @ ''/'' @ demo_lock_path,
       url_RawPath = [], url_RawQuery = [], url_ForceQuery = False, url_Fragment = [], url_User = False, url_Scheme = [], url_Host = [], url_Opaque = []\<rparr>,
     rq_tls = Some \<lparr>tls_Version = 772, tls_PeerCertificates = [], tls_VerifiedChains = []\<rparr>,
     rq_basic = Some (uuid_string 528914269453437118709764, ''secret''), rq_authorizations = 1, rq_range = [], rq_contentLength = 4,
     rq_body = ''lock''\<rparr>"

definition demo_turn :: "int \<Rightarrow> turn" where
  "demo_turn status = \<lparr>tu_guard = True, tu_trip = Answered \<lparr>an_status = status, an_headers = [], an_body = [], an_whole = True\<rparr>, tu_canceled = False\<rparr>"

definition demo_serving :: "int \<Rightarrow> serving" where
  "demo_serving status = \<lparr>sv_active = True, sv_now = 10, sv_later = 11, sv_slot = True, sv_writes = True, sv_body_canceled = False,
     sv_first = demo_turn status, sv_second = demo_turn 200, sv_kept = True, sv_audit = True\<rparr>"

definition demo_session :: backup_session where
  "demo_session = \<lparr>bs_binding = demo_gateway,
     bs_prefix = ''/restic/'' @ uuid_string 528914269453437118709764 @ ''/'' @ uuid_string 528914269453437118709763 @ ''/'',
     bs_agentID = uuid_nil, bs_reader = None, bs_verifier = replicate 32 0, bs_canceled = False, bs_locks = [], bs_flags = 0, bs_sent = [], bs_events = []\<rparr>"

text \<open>Upload a lock, remove it, remove it again.\<close>

definition demo_session_events :: "session_event list" where
  "demo_session_events = [Request (demo_serving 404) (demo_call ''POST''), Request (demo_serving 200) (demo_call ''DELETE''),
     Request (demo_serving 200) (demo_call ''DELETE'')]"

lemma demo_session_opened:
  "newBackupSession demo_hash_env 10 (Some 20) False (Some ''secret'') True demo_gateway uuid_nil = Some (demo_session, ''secret'')"
  by (simp add: newBackupSession_def demo_hash_env_def demo_session_def demo_gateway_def binding_ids_def uuid_v7_def uuid_version_def
      uuid_rfc4122_def)

lemma demo_lock_facts:
  "has_prefix demo_lock_path ''locks/''" "\<not> has_suffix demo_lock_path ''/''" "demo_lock_path \<noteq> ''config''" "\<not> has_prefix demo_lock_path ''keys/''"
  "\<not> has_prefix demo_lock_path ''snapshots/''" "go_cut (CHR ''/'') demo_lock_path = Some (''locks'', replicate 64 (CHR ''0''))"
  "objectName (replicate 64 (CHR ''0''))" "hex_encode (replicate 32 0) = replicate 64 (CHR ''0'')"
  by code_simp+

lemma demo_session_path:
  "bs_prefix s = bs_prefix demo_session \<Longrightarrow> objectPath s (rq_url (demo_call method)) = Some demo_lock_path"
  using demo_lock_facts(3,6,7)
  by (simp add: objectPath_def demo_call_def demo_session_def has_prefix_def trim_prefix_def del: go_cut.simps)

text \<open>A later state of the session: only the locks, the exchanges and the events changed.\<close>

definition demo_later :: "(string \<times> bool) list \<Rightarrow> exchange list \<Rightarrow> (gateway_event \<times> bool) list \<Rightarrow> backup_session" where
  "demo_later locks sent events = demo_session\<lparr>bs_locks := locks, bs_sent := sent, bs_events := events\<rparr>"

definition demo_headers :: "(string \<times> string) list" where
  "demo_headers = [(''Cache-Control'', ''no-store''), (''X-Content-Type-Options'', ''nosniff'')]"

lemma demo_served:
  "ServeHTTP demo_hash_env (demo_serving n) (demo_call method) (demo_later locks sent events) =
     serve_object demo_hash_env (demo_serving n) demo_headers (demo_call method) demo_lock_path (demo_later locks sent events)"
proof -
  have "objectPath (demo_later locks sent events) (rq_url (demo_call method)) = Some demo_lock_path"
    by (rule demo_session_path) (simp add: demo_later_def)
  moreover have "caller_ok demo_hash_env (demo_serving n) (demo_later locks sent events) (demo_call method)"
    by (simp add: caller_ok_def basic_ok_def demo_later_def demo_session_def demo_call_def demo_gateway_def demo_hash_env_def)
  moreover have "rq_tls (demo_call method) = Some \<lparr>tls_Version = 772, tls_PeerCertificates = [], tls_VerifiedChains = []\<rparr>"
    "\<not> bs_canceled (demo_later locks sent events)" "sv_active (demo_serving n)" "sv_slot (demo_serving n)"
    by (simp_all add: demo_call_def demo_later_def demo_session_def demo_serving_def)
  ultimately show ?thesis by (simp add: ServeHTTP_def Let_def VersionTLS12_def demo_headers_def)
qed

lemmas demo_calls = session_request_def observe_def set_lock_def deny_def record_event_def or_flags_def demo_turn_def demo_serving_def
  demo_later_def demo_session_def demo_lock_facts is_read_def

text \<open>Uploading the lock, removing it, and removing it once more.\<close>

lemma demo_upload:
  obtains h p where "fst (ServeHTTP demo_hash_env (demo_serving 404) (demo_call ''POST'') (demo_later [] [] [])) =
     demo_later [(demo_lock_path, True)] [h, p] []" "ex_method h = ''HEAD''" "ex_method p = ''POST''"
proof -
  have "session_create demo_hash_env (demo_serving 404) demo_headers (demo_call ''POST'') demo_lock_path (demo_later [] [] []) =
      upload (demo_serving 404) demo_headers demo_lock_path ''lock'' (demo_later [] [] [])"
    by (simp add: session_create_def Let_def demo_call_def demo_later_def demo_session_def demo_serving_def demo_lock_facts demo_hash_env_def
        maxLocks_def maxLockBytes_def)
  then have "ServeHTTP demo_hash_env (demo_serving 404) (demo_call ''POST'') (demo_later [] [] []) =
      upload (demo_serving 404) demo_headers demo_lock_path ''lock'' (demo_later [] [] [])"
    unfolding demo_served by (simp add: serve_object_def demo_lock_facts demo_call_def demo_serving_def demo_later_def demo_session_def)
  then show ?thesis by (intro that) (auto simp: upload_def Let_def demo_calls)
qed

lemma demo_remove:
  obtains d e where "fst (ServeHTTP demo_hash_env (demo_serving 200) (demo_call ''DELETE'') (demo_later [(demo_lock_path, True)] sent [])) =
     demo_later [(demo_lock_path, False)] (sent @ [d]) [(e, True)]" "ex_method d = ''DELETE''" "ge_Reason e = ''owned_lock''"
proof -
  have "ServeHTTP demo_hash_env (demo_serving 200) (demo_call ''DELETE'') (demo_later [(demo_lock_path, True)] sent []) =
      removeLock (demo_serving 200) demo_headers demo_lock_path (demo_later [(demo_lock_path, True)] sent [])"
    unfolding demo_served by (simp add: serve_object_def demo_lock_facts demo_call_def demo_serving_def demo_later_def demo_session_def)
  then show ?thesis by (intro that) (auto simp: removeLock_def Let_def demo_calls)
qed

lemma demo_remove_again:
  obtains e where "fst (ServeHTTP demo_hash_env (demo_serving 200) (demo_call ''DELETE'') (demo_later [(demo_lock_path, False)] sent events)) =
     (demo_later [(demo_lock_path, False)] sent (events @ [(e, True)]))\<lparr>bs_flags := retryUnsafe\<rparr>" "ge_Reason e = ''lock_not_owned''"
proof -
  have "ServeHTTP demo_hash_env (demo_serving 200) (demo_call ''DELETE'') (demo_later [(demo_lock_path, False)] sent events) =
      removeLock (demo_serving 200) demo_headers demo_lock_path (demo_later [(demo_lock_path, False)] sent events)"
    unfolding demo_served by (simp add: serve_object_def demo_lock_facts demo_call_def demo_serving_def demo_later_def demo_session_def)
  then show ?thesis by (intro that) (auto simp: removeLock_def Let_def demo_calls)
qed

lemma demo_fresh: "demo_session = demo_later [] [] []"
  by (simp add: demo_later_def demo_session_def)

lemma demo_agent_reader: "demo_session\<lparr>bs_reader := None\<rparr> = demo_session"
  by (simp add: demo_session_def)

lemma demo_session_run:
  obtains t e where "session_history demo_hash_env demo_session_events demo_session = t" "map ex_method (bs_sent t) = [''HEAD'', ''POST'', ''DELETE'']"
    "e \<in> set (bs_events t)" "ge_Reason (fst e) = ''lock_not_owned''"
proof -
  obtain h p where u: "fst (ServeHTTP demo_hash_env (demo_serving 404) (demo_call ''POST'') (demo_later [] [] [])) =
     demo_later [(demo_lock_path, True)] [h, p] []" "ex_method h = ''HEAD''" "ex_method p = ''POST''"
    by (rule demo_upload)
  obtain d e where r: "fst (ServeHTTP demo_hash_env (demo_serving 200) (demo_call ''DELETE'') (demo_later [(demo_lock_path, True)] [h, p] [])) =
     demo_later [(demo_lock_path, False)] ([h, p] @ [d]) [(e, True)]" "ex_method d = ''DELETE''"
    by (rule demo_remove)
  obtain f where a: "fst (ServeHTTP demo_hash_env (demo_serving 200) (demo_call ''DELETE'')
      (demo_later [(demo_lock_path, False)] ([h, p] @ [d]) [(e, True)])) =
     (demo_later [(demo_lock_path, False)] ([h, p] @ [d]) ([(e, True)] @ [(f, True)]))\<lparr>bs_flags := retryUnsafe\<rparr>" "ge_Reason f = ''lock_not_owned''"
    by (rule demo_remove_again)
  have t: "session_history demo_hash_env demo_session_events demo_session =
      (demo_later [(demo_lock_path, False)] ([h, p] @ [d]) ([(e, True)] @ [(f, True)]))\<lparr>bs_flags := retryUnsafe\<rparr>"
    unfolding demo_session_events_def session_history.simps by (simp only: demo_fresh u(1) r(1) a(1) fst_conv)
  show ?thesis by (rule that[OF t, of "(f, True)"]) (simp_all add: demo_later_def u r a)
qed

text \<open>A read that finds the backend unavailable after an upload.\<close>

definition demo_retry_events :: "session_event list" where
  "demo_retry_events = [Request (demo_serving 404) (demo_call ''POST''), Request (demo_serving 503) (demo_call ''GET'')]"

lemma demo_retry_run: "retry_code (bs_flags (session_history demo_hash_env demo_retry_events demo_session)) = ''GATEWAY_UNAVAILABLE''"
proof -
  obtain h p where u: "fst (ServeHTTP demo_hash_env (demo_serving 404) (demo_call ''POST'') (demo_later [] [] [])) =
     demo_later [(demo_lock_path, True)] [h, p] []"
    by (rule demo_upload)
  have "bs_flags (fst (ServeHTTP demo_hash_env (demo_serving 503) (demo_call ''GET'') (demo_later [(demo_lock_path, True)] [h, p] []))) = retryUnavailable"
    unfolding demo_served by (simp add: serve_object_def session_read_def demo_call_def Let_def demo_calls)
  moreover have "retry_code retryUnavailable = ''GATEWAY_UNAVAILABLE''" by code_simp
  ultimately show ?thesis unfolding demo_retry_events_def session_history.simps demo_fresh u by simp
qed

section \<open>Properties\<close>

text \<open>C4: A Gateway session is append-only: over any history of requests, whatever the backend answers, all it sends to the backend are reads, uploads
  named by the hash of their content after a probe that did not find them, and removals of locks it uploaded itself, each at most once; never a change of a
  key or the configuration. A reading session sends reads only, and a request reaches the backend only from the caller the session belongs to.\<close>

theorem session_append_only:
  assumes "newBackupSession env now deadline ended token socket_ok binding agentID = Some (s, secret)"
    and "t = session_history env es (s\<lparr>bs_reader := rd\<rparr>)"
  shows "append_only env (bs_sent t) \<and> (bs_reader t \<noteq> None \<longrightarrow> list_all (\<lambda>x. is_read (ex_method x)) (bs_sent t)) \<and>
     (\<forall>inp r u x. ServeHTTP env inp r t = (u, x) \<and> bs_sent u \<noteq> bs_sent t \<longrightarrow>
        \<not> bs_canceled t \<and> sv_active inp \<and> caller_ok env inp t r \<and> objectPath t (rq_url r) \<noteq> None)"
  using session_history_inv[OF opened_inv[OF assms(1)], of es rd] serve_sent unfolding assms(2) session_inv_def by blast

theorem session_append_only_witness:
  "let t = session_history demo_hash_env demo_session_events demo_session
   in append_only demo_hash_env (bs_sent t) \<and> map ex_method (bs_sent t) = [''HEAD'', ''POST'', ''DELETE'']"
proof -
  have "t = session_history demo_hash_env demo_session_events demo_session \<Longrightarrow> append_only demo_hash_env (bs_sent t)" for t
    using session_append_only[OF demo_session_opened, of t demo_session_events None, unfolded demo_agent_reader] by blast
  moreover obtain t where "session_history demo_hash_env demo_session_events demo_session = t" "map ex_method (bs_sent t) = [''HEAD'', ''POST'', ''DELETE'']"
    by (rule demo_session_run)
  ultimately show ?thesis by (simp add: Let_def)
qed

text \<open>C5: When the Gateway's header lets an Agent repeat a run, nothing the run did is left unclear: over any history of a session, if the Agent
  reads a retry hint from the code of the session, then no snapshot was uploaded or tried, the backend confirmed every upload and removal it was sent, and
  nothing was denied but for the limit on parallel requests.\<close>

theorem retry_hint_safe:
  assumes "newBackupSession env now deadline ended token socket_ok binding agentID = Some (s, secret)"
    and "t = session_history env es (s\<lparr>bs_reader := rd\<rparr>)"
    and "gatewayRetryHint (if retry_code (bs_flags t) = [] then [] else [retry_code (bs_flags t)]) = Some hint"
  shows "list_all settled_exchange (bs_sent t) \<and>
     list_all (\<lambda>e. ge_Reason (fst e) = ''request_limit'' \<or> ge_Action (fst e) \<noteq> ''denied'') (bs_events t)"
proof -
  from assms(3) have "bs_flags t AND retryUnsafe = 0"
    by (auto simp: gatewayRetryHint_def retry_code_def split: if_splits)
  with session_history_inv[OF opened_inv[OF assms(1)], of es rd] show ?thesis unfolding assms(2) session_inv_def by blast
qed

theorem retry_hint_safe_witness:
  "let t = session_history demo_hash_env demo_retry_events demo_session
   in retry_code (bs_flags t) = ''GATEWAY_UNAVAILABLE'' \<and> list_all settled_exchange (bs_sent t)"
proof -
  let ?t = "session_history demo_hash_env demo_retry_events demo_session"
  have c: "retry_code (bs_flags ?t) = ''GATEWAY_UNAVAILABLE''" by (rule demo_retry_run)
  then have "gatewayRetryHint (if retry_code (bs_flags ?t) = [] then [] else [retry_code (bs_flags ?t)]) = Some ErrGatewayUnavailable"
    by (simp add: gatewayRetryHint_def)
  with retry_hint_safe[OF demo_session_opened, of ?t demo_retry_events None, unfolded demo_agent_reader] c show ?thesis
    by (simp add: Let_def)
qed

text \<open>C6: The events of a session are well-formed: whatever a caller sends, every event the session hands to the audit carries the session's own
  route and belongs to the closed vocabulary of Gateway events, so that the audit accepts it.\<close>

theorem session_events_typed:
  assumes "newBackupSession env now deadline ended token socket_ok binding agentID = Some (s, secret)"
  shows "\<forall>e \<in> set (bs_events (session_history env es (s\<lparr>bs_reader := rd\<rparr>))).
     ge_Binding (fst e) = bs_binding (session_history env es (s\<lparr>bs_reader := rd\<rparr>)) \<and> snd (GatewayAudit (fst e))"
  using session_history_inv[OF opened_inv[OF assms(1)], of es rd] by (simp add: session_inv_def event_ok_def list_all_iff)

theorem session_events_typed_witness:
  "\<exists>e. e \<in> set (bs_events (session_history demo_hash_env demo_session_events demo_session)) \<and>
     ge_Reason (fst e) = ''lock_not_owned'' \<and> snd (GatewayAudit (fst e))"
proof -
  obtain t e where t: "session_history demo_hash_env demo_session_events demo_session = t" "e \<in> set (bs_events t)" "ge_Reason (fst e) = ''lock_not_owned''"
    by (rule demo_session_run)
  with session_events_typed[OF demo_session_opened, of demo_session_events None, unfolded demo_agent_reader] show ?thesis by blast
qed

end
