(* ===== verification/Gateway_Authorization.thy ===== *)
theory Gateway_Authorization
  imports Gateway_Session
begin

text \<open>
  The authority of a Gateway: signed statements of the control plane (\<open>internal/security/gateway_statement.go\<close>), the requests that lead to
  them (\<open>internal/domain/gateway_decision.go\<close>), and the tracker of the decisions for one binding (\<open>internal/gateway/authorization.go\<close>).
  Signatures and JSON decoding are parameters; the canonical encoding is modelled.
\<close>

section \<open>Statements\<close>

record auth_binding =
  ab_AdmissionID :: uuid
  ab_Owner :: uuid
  ab_RuntimeID :: uuid
  ab_AgentID :: uuid
  ab_HostID :: uuid
  ab_RepositoryID :: uuid
  ab_GatewayID :: uuid
  ab_StorageCredentialID :: uuid
  ab_DeliveryID :: uuid
  ab_GatewaySecretRef :: uuid
  ab_ResticSecretRef :: uuid
  ab_ConfigurationHash :: string

definition zero_auth_binding :: auth_binding where
  "zero_auth_binding = \<lparr>ab_AdmissionID = uuid_nil, ab_Owner = uuid_nil, ab_RuntimeID = uuid_nil, ab_AgentID = uuid_nil, ab_HostID = uuid_nil,
     ab_RepositoryID = uuid_nil, ab_GatewayID = uuid_nil, ab_StorageCredentialID = uuid_nil, ab_DeliveryID = uuid_nil,
     ab_GatewaySecretRef = uuid_nil, ab_ResticSecretRef = uuid_nil, ab_ConfigurationHash = []\<rparr>"

text \<open>Thirty-two bytes in canonical hexadecimal form, as \<open>Validate\<close> and \<open>validPendingHash\<close> test it.\<close>

definition validPendingHash :: "string \<Rightarrow> bool" where
  "validPendingHash v = (case hex_decode v of Some b \<Rightarrow> length b = 32 \<and> hex_encode b = v | None \<Rightarrow> False)"

definition binding_Validate :: "auth_binding \<Rightarrow> bool" where
  "binding_Validate b \<longleftrightarrow> list_all uuid_v7 [ab_AdmissionID b, ab_Owner b, ab_RuntimeID b, ab_AgentID b, ab_HostID b, ab_RepositoryID b,
     ab_GatewayID b, ab_StorageCredentialID b, ab_DeliveryID b, ab_GatewaySecretRef b, ab_ResticSecretRef b] \<and>
     validPendingHash (ab_ConfigurationHash b)"

record statement =
  st_Binding :: auth_binding
  st_Revision :: nat
  st_IssuedAt :: int
  st_ExpiresAt :: int
  st_Revoked :: bool

definition zero_statement :: statement where
  "zero_statement = \<lparr>st_Binding = zero_auth_binding, st_Revision = 0, st_IssuedAt = 0, st_ExpiresAt = 0, st_Revoked = False\<rparr>"

definition MaxGatewayAuthorizationSeconds :: int where
  "MaxGatewayAuthorizationSeconds = 30 * 24 * 3600"

definition statement_validate :: "statement \<Rightarrow> bool" where
  "statement_validate s =
     (if \<not> binding_Validate (st_Binding s) \<or> st_Revision s = 0 \<or> st_Revision s > 9223372036854775807
         \<or> st_IssuedAt s \<le> 0 \<or> st_IssuedAt s > 253402300799 then False
      else if st_Revoked s then st_ExpiresAt s = 0
      else \<not> (st_ExpiresAt s \<le> st_IssuedAt s \<or> st_ExpiresAt s > 253402300799
         \<or> st_ExpiresAt s - st_IssuedAt s > MaxGatewayAuthorizationSeconds))"

definition json_uuid :: "uuid \<Rightarrow> string option" where
  "json_uuid i = Some (json_string (uuid_string i))"

definition binding_json :: "auth_binding \<Rightarrow> string" where
  "binding_json b = json_object
     [(''admission_id'', json_uuid (ab_AdmissionID b)), (''owner'', json_uuid (ab_Owner b)), (''runtime_id'', json_uuid (ab_RuntimeID b)),
      (''agent_id'', json_uuid (ab_AgentID b)), (''host_id'', json_uuid (ab_HostID b)), (''repository_id'', json_uuid (ab_RepositoryID b)),
      (''gateway_id'', json_uuid (ab_GatewayID b)), (''storage_credential_id'', json_uuid (ab_StorageCredentialID b)),
      (''delivery_id'', json_uuid (ab_DeliveryID b)), (''gateway_secret_ref'', json_uuid (ab_GatewaySecretRef b)),
      (''restic_secret_ref'', json_uuid (ab_ResticSecretRef b)), (''configuration_hash'', Some (json_string (ab_ConfigurationHash b)))]"

definition statement_json :: "statement \<Rightarrow> string" where
  "statement_json s = json_object
     [(''binding'', Some (binding_json (st_Binding s))), (''revision'', Some (itoa (int (st_Revision s)))),
      (''issued_at'', Some (itoa (st_IssuedAt s))), (''expires_at'', Some (itoa (st_ExpiresAt s))),
      (''revoked'', Some (json_bool (st_Revoked s)))]"

text \<open>
  \<open>sg_sign\<close> and \<open>sg_verify\<close> stand for Ed25519, \<open>sg_public\<close> for the public key of a private one, \<open>sg_statement\<close> for \<open>json.Unmarshal\<close> into a statement.
\<close>

record signing =
  sg_sign :: "string \<Rightarrow> string \<Rightarrow> string"
  sg_verify :: "string \<Rightarrow> string \<Rightarrow> string \<Rightarrow> bool"
  sg_public :: "string \<Rightarrow> string"
  sg_statement :: "string \<Rightarrow> statement option"

definition gatewayStatementContext :: string where
  "gatewayStatementContext = ''restfleet:gateway-authorization:v1'' @ [char_of (0 :: nat)]"

definition MaxGatewayStatementSize :: nat where
  "MaxGatewayStatementSize = 2048"

definition SignGatewayStatement :: "signing \<Rightarrow> statement \<Rightarrow> string \<Rightarrow> string option" where
  "SignGatewayStatement sg s key =
     (if length key \<noteq> 64 \<or> \<not> statement_validate s then None
      else if length (statement_json s) + 64 > MaxGatewayStatementSize then None
      else Some (statement_json s @ sg_sign sg key (gatewayStatementContext @ statement_json s)))"

definition VerifyGatewayStatement :: "signing \<Rightarrow> string \<Rightarrow> string \<Rightarrow> statement option" where
  "VerifyGatewayStatement sg wire key =
     (if length key \<noteq> 32 \<or> length wire \<le> 64 \<or> length wire > MaxGatewayStatementSize then None
      else
        (let payload = take (length wire - 64) wire
         in if \<not> sg_verify sg key (gatewayStatementContext @ payload) (drop (length wire - 64) wire) then None
            else case sg_statement sg payload of
              None \<Rightarrow> None
            | Some s \<Rightarrow> if \<not> statement_validate s then None else if payload \<noteq> statement_json s then None else Some s))"

text \<open>What the two sides rely on.\<close>

definition signing_ok :: "signing \<Rightarrow> bool" where
  "signing_ok sg \<longleftrightarrow> (\<forall>k m. sg_verify sg (sg_public sg k) m (sg_sign sg k m)) \<and> (\<forall>k m. length (sg_sign sg k m) = 64) \<and>
     (\<forall>k. length k = 64 \<longrightarrow> length (sg_public sg k) = 32) \<and> (\<forall>s. statement_validate s \<longrightarrow> sg_statement sg (statement_json s) = Some s)"

lemma statement_json_nonempty [simp]: "statement_json s \<noteq> []"
  by (simp add: statement_json_def json_object_def)

lemma statement_round_trip:
  assumes "signing_ok sg" "SignGatewayStatement sg s key = Some wire"
  shows "VerifyGatewayStatement sg wire (sg_public sg key) = Some s"
  using assms by (auto simp: SignGatewayStatement_def VerifyGatewayStatement_def signing_ok_def Let_def split: if_splits)

lemma verified_valid: "VerifyGatewayStatement sg wire key = Some s \<Longrightarrow> statement_validate s"
  by (auto simp: VerifyGatewayStatement_def Let_def split: if_splits option.splits)

text \<open>A verified text is the only one of its statement, but for the signature.\<close>

lemma verified_canonical:
  "VerifyGatewayStatement sg wire key = Some s \<Longrightarrow> take (length wire - 64) wire = statement_json s"
  by (auto simp: VerifyGatewayStatement_def Let_def split: if_splits option.splits)

subsection \<open>The size of a statement\<close>

text \<open>Characters that JSON copies: digits, lower-case letters, dashes and underscores.\<close>

definition plain_char :: "char \<Rightarrow> bool" where
  "plain_char c \<longleftrightarrow> 45 \<le> byte c \<and> byte c \<le> 57 \<or> byte c = 95 \<or> 97 \<le> byte c \<and> byte c \<le> 122"

lemma json_chars_plain: "list_all plain_char s \<Longrightarrow> json_chars s = s"
proof (induction s)
  case (Cons c s)
  then have "byte c < 128" "json_byte c = [c]" by (auto simp: plain_char_def json_byte_def)
  with Cons show ?case by (simp add: json_rune_def)
qed simp

lemma length_json_plain: "list_all plain_char s \<Longrightarrow> length (json_string s) = length s + 2"
  by (simp add: json_string_def json_chars_plain)

lemma hex_digits_plain: "list_all plain_char (hex_digits n v)"
proof (induction n arbitrary: v)
  case (Suc n)
  have "plain_char (hex_digit (v mod 16))" by (auto simp: plain_char_def byte_hex_digit)
  with Suc show ?case by simp
qed simp

lemma uuid_string_plain: "list_all plain_char (uuid_string u)" and uuid_string_length: "length (uuid_string u) = 36"
proof -
  have "list_all plain_char (take n (drop m (hex_digits 32 v)))" for n m v
    using hex_digits_plain[of 32 v] by (auto simp: list_all_iff dest: in_set_takeD in_set_dropD)
  moreover have "list_all plain_char (take n (hex_digits 32 v))" "list_all plain_char (drop n (hex_digits 32 v))" for n v
    using hex_digits_plain[of 32 v] by (auto simp: list_all_iff dest: in_set_takeD in_set_dropD)
  moreover have "plain_char (CHR ''-'')" by (simp add: plain_char_def byte_def)
  ultimately show "list_all plain_char (uuid_string u)" unfolding uuid_string_def Let_def by (simp del: hex_digits.simps)
qed (simp add: uuid_string_def Let_def)

lemma hash_plain: "validPendingHash v \<Longrightarrow> list_all plain_char v \<and> length v = 64"
proof -
  assume "validPendingHash v"
  then obtain b where b: "length b = 32" "v = hex_encode b" by (auto simp: validPendingHash_def split: option.splits)
  have "list_all plain_char (hex_encode b) \<and> length (hex_encode b) = 2 * length b"
    unfolding hex_encode_def using hex_digits_plain by (induction b) (auto simp del: hex_digits.simps)
  with b show ?thesis by simp
qed

lemma length_json_uuid [simp]: "length (the (json_uuid i)) = 38" "json_uuid i \<noteq> None"
  by (simp_all add: json_uuid_def length_json_plain uuid_string_plain uuid_string_length)

lemma length_itoa_nonneg: "0 \<le> v \<Longrightarrow> v \<le> max_int64 \<Longrightarrow> length (itoa v) \<le> 19"
  using length_nat_digits[of "nat v" 18] by (simp add: itoa_def max_int64_def nat_less_iff)

lemma length_member: "list_all plain_char k \<Longrightarrow> length (json_string k @ '':'' @ v) = length k + 3 + length v"
  by (simp add: length_json_plain)

lemma length_json_object:
  assumes "fs \<noteq> []" "list_all (\<lambda>(k, v). v \<noteq> None \<and> list_all plain_char k) fs"
  shows "length (json_object fs) = 1 + sum_list (map (\<lambda>(k, v). length k + 4 + length (the v)) fs)"
proof -
  have "length (json_commas (map (\<lambda>(k, v). json_string k @ '':'' @ the v) fs)) + 1 =
      sum_list (map (\<lambda>(k, v). length k + 4 + length (the v)) fs)" if "fs \<noteq> []" "list_all (\<lambda>(k, v). list_all plain_char k) fs" for fs
    using that
  proof (induction fs)
    case (Cons f fs)
    then show ?case by (cases fs) (auto simp: length_json_plain split: prod.splits)
  qed simp
  from this[of fs] assms have "length (json_commas (map (\<lambda>(k, v). json_string k @ '':'' @ the v) fs)) + 1 =
      sum_list (map (\<lambda>(k, v). length k + 4 + length (the v)) fs)"
    by (auto simp: list_all_iff)
  moreover have "filter (\<lambda>(k, v). v \<noteq> None) fs = fs" using assms(2) by (auto simp: list_all_iff filter_id_conv)
  ultimately show ?thesis by (simp add: json_object_def)
qed

lemma binding_json_length: "binding_Validate b \<Longrightarrow> length (binding_json b) \<le> 800"
  unfolding binding_json_def
  by (subst length_json_object) (simp_all add: plain_char_def byte_def json_uuid_def length_json_plain uuid_string_plain uuid_string_length
      binding_Validate_def hash_plain)

text \<open>Every valid statement fits: signing does not fail for its size.\<close>

lemma statement_size: "statement_validate s \<Longrightarrow> length (statement_json s) + 64 \<le> MaxGatewayStatementSize"
proof -
  assume v: "statement_validate s"
  then have "length (itoa (int (st_Revision s))) \<le> 19" "length (itoa (st_IssuedAt s)) \<le> 19" "length (itoa (st_ExpiresAt s)) \<le> 19"
    by (auto intro!: length_itoa_nonneg simp: statement_validate_def max_int64_def split: if_splits)
  moreover have "length (binding_json (st_Binding s)) \<le> 800"
    using v by (intro binding_json_length) (auto simp: statement_validate_def split: if_splits)
  moreover have "length (json_bool (st_Revoked s)) \<le> 5" by (simp add: json_bool_def)
  ultimately show ?thesis
    unfolding statement_json_def by (subst length_json_object) (simp_all add: plain_char_def byte_def MaxGatewayStatementSize_def)
qed

lemma sign_valid:
  "statement_validate s \<Longrightarrow> length key = 64 \<Longrightarrow> SignGatewayStatement sg s key = Some (statement_json s @ sg_sign sg key (gatewayStatementContext @ statement_json s))"
  using statement_size[of s] by (simp add: SignGatewayStatement_def)

section \<open>Decision requests\<close>

record decision_request =
  dr_ID :: uuid
  dr_AdmissionID :: uuid
  dr_Owner :: uuid
  dr_RuntimeID :: uuid
  dr_ExpectedRevision :: int
  dr_Lifetime :: duration
  dr_Revoke :: bool

definition MaxGatewayOfflineWindow :: duration where
  "MaxGatewayOfflineWindow = 30 * 24 * hour"

definition decision_Validate :: "decision_request \<Rightarrow> bool" where
  "decision_Validate r =
     (if \<not> list_all uuid_v7 [dr_ID r, dr_AdmissionID r, dr_Owner r, dr_RuntimeID r] then False
      else if dr_ExpectedRevision r < 0 \<or> dr_ExpectedRevision r = max_int64 then False
      else if dr_Revoke r then dr_Lifetime r = 0
      else \<not> (dr_Lifetime r < second \<or> dr_Lifetime r > MaxGatewayOfflineWindow \<or> dr_Lifetime r mod second \<noteq> 0))"

text \<open>The longest life a decision can ask for is the longest a statement may have.\<close>

lemma decision_within_statement:
  assumes "decision_Validate r" "\<not> dr_Revoke r"
  shows "1 \<le> dr_Lifetime r div second \<and> dr_Lifetime r div second \<le> MaxGatewayAuthorizationSeconds"
  using assms by (auto simp: decision_Validate_def MaxGatewayOfflineWindow_def MaxGatewayAuthorizationSeconds_def go_lib split: if_splits)

section \<open>The tracker\<close>

text \<open>A reading of the clock has a wall and a monotonic part; comparing two readings of one process compares the monotonic parts.\<close>

record instant =
  wall :: time
  mono :: int

record authorization =
  az_key :: string
  az_binding :: auth_binding
  az_current :: statement
  az_lastGrant :: statement
  az_lastWall :: time
  az_deadline :: instant
  az_clockUnsafe :: bool

datatype authorization_status = AuthorizationUnknown | AuthorizationValid | AuthorizationExpired | AuthorizationRevoked | AuthorizationClockUnsafe

definition NewAuthorization :: "string \<Rightarrow> auth_binding \<Rightarrow> authorization option" where
  "NewAuthorization key binding =
     (if length key \<noteq> 32 \<or> \<not> binding_Validate binding then None
      else Some \<lparr>az_key = key, az_binding = binding, az_current = zero_statement, az_lastGrant = zero_statement, az_lastWall = 0,
        az_deadline = \<lparr>wall = 0, mono = 0\<rparr>, az_clockUnsafe = False\<rparr>)"

definition observeClock :: "instant \<Rightarrow> authorization \<Rightarrow> authorization \<times> bool" where
  "observeClock now a =
     (let a' = a\<lparr>az_clockUnsafe := az_clockUnsafe a \<or> is_zero (wall now) \<or> wall now < az_lastWall a, az_lastWall := wall now\<rparr>
      in (a', \<not> az_clockUnsafe a'))"

text \<open>\<open>now.Add(d)\<close> keeps the monotonic part; the wall part of the deadline is the expiry.\<close>

definition instant_add :: "instant \<Rightarrow> duration \<Rightarrow> instant" where
  "instant_add t d = \<lparr>wall = wall t + d, mono = mono t + d\<rparr>"

definition Accept :: "signing \<Rightarrow> instant \<Rightarrow> string \<Rightarrow> authorization \<Rightarrow> authorization \<times> bool" where
  "Accept sg now wire a =
     (case observeClock now a of
        (a1, False) \<Rightarrow> (a1, False)
      | (a1, True) \<Rightarrow>
          (case VerifyGatewayStatement sg wire (az_key a1) of
             None \<Rightarrow> (a1, False)
           | Some s \<Rightarrow>
               if st_Binding s \<noteq> az_binding a1 \<or> st_IssuedAt s > unix (wall now) then (a1, False)
               else if s = az_current a1 then (a1, True)
               else if st_Revoked (az_current a1) \<or> st_Revision s \<le> st_Revision (az_current a1) \<or> st_IssuedAt s < st_IssuedAt (az_current a1)
                  \<or> \<not> st_Revoked s \<and> st_ExpiresAt s \<le> unix (wall now) then (a1, False)
               else if st_Revoked s then (a1\<lparr>az_current := s\<rparr>, True)
               else (a1\<lparr>az_current := s, az_lastGrant := s,
                 az_deadline := instant_add now (time_sub (from_unix (st_ExpiresAt s)) (wall now))\<rparr>, True)))"

definition Status :: "instant \<Rightarrow> authorization \<Rightarrow> authorization \<times> authorization_status" where
  "Status now a =
     (case observeClock now a of (a1, clockOK) \<Rightarrow>
        (a1,
         if st_Revoked (az_current a1) then AuthorizationRevoked
         else if \<not> clockOK then AuthorizationClockUnsafe
         else if st_Revision (az_current a1) = 0 then AuthorizationUnknown
         else if unix (wall now) \<ge> st_ExpiresAt (az_current a1) \<or> \<not> mono now < mono (az_deadline a1) then AuthorizationExpired
         else AuthorizationValid))"

section \<open>Histories\<close>

text \<open>
  The life of a tracker: decisions that arrive and questions that are asked, with a reading of the clock each. The run also gives the
  statements that were accepted, with the reading at which.
\<close>

datatype auth_event = Arrives instant string | Asked instant

fun at :: "auth_event \<Rightarrow> instant" where
  "at (Arrives t _) = t"
| "at (Asked t) = t"

definition auth_step :: "signing \<Rightarrow> auth_event \<Rightarrow> authorization \<Rightarrow> authorization \<times> (statement \<times> instant) list" where
  "auth_step sg e a =
     (case e of
        Asked now \<Rightarrow> (fst (Status now a), [])
      | Arrives now wire \<Rightarrow> (case Accept sg now wire a of (a', ok) \<Rightarrow> (a', if ok \<and> az_current a' \<noteq> az_current a then [(az_current a', now)] else [])))"

fun auth_run :: "signing \<Rightarrow> auth_event list \<Rightarrow> authorization \<Rightarrow> authorization \<times> (statement \<times> instant) list" where
  "auth_run sg [] a = (a, [])"
| "auth_run sg (e # es) a =
     (case auth_step sg e a of (a', xs) \<Rightarrow> (case auth_run sg es a' of (b, ys) \<Rightarrow> (b, xs @ ys)))"

lemma auth_run_snoc:
  "auth_run sg (es @ [e]) a = (case auth_run sg es a of (b, xs) \<Rightarrow> (case auth_step sg e b of (c, ys) \<Rightarrow> (c, xs @ ys)))"
  by (induction es arbitrary: a) (auto split: prod.splits)

text \<open>The readings of a clock that never went back.\<close>

definition clock_ok :: "instant list \<Rightarrow> bool" where
  "clock_ok ts \<longleftrightarrow> sorted (map wall ts) \<and> list_all (\<lambda>t. 0 < wall t) ts"

lemma clock_ok_snoc: "clock_ok (ts @ [t]) \<longleftrightarrow> clock_ok ts \<and> 0 < wall t \<and> (\<forall>u \<in> set ts. wall u \<le> wall t)"
  by (auto simp: clock_ok_def sorted_append)

text \<open>
  The state of a tracker after a history: the readings, the statements it accepted, which came with the events \<open>evs\<close>. Statements grow strictly in revision, nothing follows a
  revocation, and the deadline belongs to the last grant.
\<close>

definition tracks :: "signing \<Rightarrow> auth_event list \<Rightarrow> string \<Rightarrow> auth_binding \<Rightarrow> instant list \<Rightarrow> (statement \<times> instant) list \<Rightarrow> authorization \<Rightarrow> bool" where
  "tracks sg evs key binding ts acc a \<longleftrightarrow> az_key a = key \<and> az_binding a = binding \<and>
     (az_clockUnsafe a \<longleftrightarrow> \<not> clock_ok ts) \<and> az_lastWall a = (if ts = [] then 0 else wall (last ts)) \<and>
     az_current a = (if acc = [] then zero_statement else fst (last acc)) \<and>
     sorted_wrt (<) (map (st_Revision \<circ> fst) acc) \<and> list_all (\<lambda>x. \<not> st_Revoked (fst x)) (butlast acc) \<and>
     list_all (\<lambda>x. statement_validate (fst x) \<and> st_Binding (fst x) = binding \<and> st_IssuedAt (fst x) \<le> unix (wall (snd x)) \<and>
       (\<not> st_Revoked (fst x) \<longrightarrow> unix (wall (snd x)) < st_ExpiresAt (fst x)) \<and>
       (\<exists>wire. Arrives (snd x) wire \<in> set evs \<and> VerifyGatewayStatement sg wire key = Some (fst x))) acc \<and>
     (acc \<noteq> [] \<and> \<not> st_Revoked (fst (last acc)) \<longrightarrow>
       az_deadline a = instant_add (snd (last acc)) (time_sub (from_unix (st_ExpiresAt (fst (last acc)))) (wall (snd (last acc)))))"

lemma clock_ok_last: "clock_ok ts \<Longrightarrow> ts \<noteq> [] \<Longrightarrow> u \<in> set ts \<Longrightarrow> wall u \<le> wall (last ts)"
  by (cases ts rule: rev_cases) (auto simp: clock_ok_snoc)

lemma clock_ok_next:
  "clock_ok (ts @ [t]) \<longleftrightarrow> clock_ok ts \<and> 0 < wall t \<and> (if ts = [] then 0 else wall (last ts)) \<le> wall t"
proof (cases "ts = []")
  case True
  then show ?thesis by (auto simp: clock_ok_def)
next
  case False
  then show ?thesis using clock_ok_last[of ts] last_in_set[of ts] by (auto simp: clock_ok_snoc intro: order_trans)
qed

text \<open>A reading of the clock.\<close>

lemma observeClock_tracks:
  assumes "tracks sg evs key binding ts acc a" "observeClock now a = (b, ok)"
  shows "tracks sg evs key binding (ts @ [now]) acc b \<and> (ok \<longleftrightarrow> clock_ok (ts @ [now])) \<and> az_current b = az_current a"
proof -
  have b: "b = a\<lparr>az_clockUnsafe := az_clockUnsafe a \<or> is_zero (wall now) \<or> wall now < az_lastWall a, az_lastWall := wall now\<rparr>"
    "ok \<longleftrightarrow> \<not> az_clockUnsafe b"
    using assms(2) by (auto simp: observeClock_def Let_def)
  have c: "az_clockUnsafe b \<longleftrightarrow> \<not> clock_ok (ts @ [now])"
  proof -
    have "az_clockUnsafe a \<longleftrightarrow> \<not> clock_ok ts" "az_lastWall a = (if ts = [] then 0 else wall (last ts))"
      using assms(1) by (simp_all add: tracks_def)
    moreover have "clock_ok ts \<Longrightarrow> 0 \<le> (if ts = [] then 0 else wall (last ts))"
      by (auto simp: clock_ok_def list_all_iff intro: less_imp_le)
    ultimately show ?thesis unfolding b(1) clock_ok_next by (auto simp: is_zero_def)
  qed
  have "tracks sg evs key binding (ts @ [now]) acc b"
    using assms(1) c unfolding tracks_def b(1) by (auto simp: list_all_iff)
  with c b show ?thesis by simp
qed

lemma valid_nonzero: "statement_validate s \<Longrightarrow> 0 < st_Revision s \<and> s \<noteq> zero_statement"
  by (auto simp: statement_validate_def zero_statement_def split: if_splits)

text \<open>A newly accepted statement.\<close>

lemma accept_tracks:
  assumes t: "tracks sg evs key binding ts acc a" "Arrives now wire \<in> set evs" "VerifyGatewayStatement sg wire key = Some s"
    and s: "statement_validate s" "st_Binding s = binding" "st_IssuedAt s \<le> unix (wall now)" "\<not> st_Revoked (az_current a)"
      "st_Revision (az_current a) < st_Revision s" "\<not> st_Revoked s \<Longrightarrow> unix (wall now) < st_ExpiresAt s"
    and b: "b = (if st_Revoked s then a\<lparr>az_current := s\<rparr> else a\<lparr>az_current := s, az_lastGrant := s,
      az_deadline := instant_add now (time_sub (from_unix (st_ExpiresAt s)) (wall now))\<rparr>)"
  shows "tracks sg evs key binding ts (acc @ [(s, now)]) b"
proof -
  have "\<forall>x \<in> set acc. st_Revision (fst x) < st_Revision s"
  proof
    fix x assume x: "x \<in> set acc"
    then obtain ys y where acc: "acc = ys @ [y]" by (cases acc rule: rev_cases) auto
    with x t(1) have "st_Revision (fst x) \<le> st_Revision (fst y)"
      by (auto simp: tracks_def sorted_wrt_append intro: less_imp_le)
    with s(5) t(1) acc show "st_Revision (fst x) < st_Revision s" by (simp add: tracks_def)
  qed
  moreover have "list_all (\<lambda>x. \<not> st_Revoked (fst x)) acc"
    using t(1) s(4) by (cases acc rule: rev_cases) (auto simp: tracks_def)
  moreover have "az_current b = s" "az_key b = az_key a" "az_binding b = az_binding a" "az_clockUnsafe b = az_clockUnsafe a" "az_lastWall b = az_lastWall a"
    "\<not> st_Revoked s \<Longrightarrow> az_deadline b = instant_add now (time_sub (from_unix (st_ExpiresAt s)) (wall now))"
    unfolding b by auto
  ultimately show ?thesis using t s(1-3,6) unfolding tracks_def by (auto simp: sorted_wrt_append)
qed

lemma auth_step_tracks:
  assumes "tracks sg evs key binding ts acc a" "auth_step sg e a = (b, xs)" "e \<in> set evs"
  shows "tracks sg evs key binding (ts @ [at e]) (acc @ xs) b"
proof (cases e)
  case (Asked now)
  then show ?thesis using assms observeClock_tracks[OF assms(1), of now]
    by (auto simp: auth_step_def Status_def split: prod.splits)
next
  case (Arrives now wire)
  obtain a1 ok where a1: "observeClock now a = (a1, ok)" by fastforce
  from observeClock_tracks[OF assms(1) a1] have t1: "tracks sg evs key binding (ts @ [now]) acc a1" "az_current a1 = az_current a" by auto
  obtain ok' where acc: "Accept sg now wire a = (b, ok')" "xs = (if ok' \<and> az_current b \<noteq> az_current a then [(az_current b, now)] else [])"
    using assms(2) Arrives by (auto simp: auth_step_def split: prod.splits)
  show ?thesis
  proof (cases "ok' \<and> az_current b \<noteq> az_current a")
    case False
    then have "b = a1" using acc a1 t1(2) by (auto simp: Accept_def split: bool.splits option.splits if_splits)
    with False t1 acc Arrives show ?thesis by simp
  next
    case True
    then obtain s where s: "VerifyGatewayStatement sg wire (az_key a1) = Some s" "st_Binding s = az_binding a1" "st_IssuedAt s \<le> unix (wall now)"
      "\<not> st_Revoked (az_current a1)" "st_Revision (az_current a1) < st_Revision s" "\<not> st_Revoked s \<Longrightarrow> unix (wall now) < st_ExpiresAt s"
      "b = (if st_Revoked s then a1\<lparr>az_current := s\<rparr> else a1\<lparr>az_current := s, az_lastGrant := s,
        az_deadline := instant_add now (time_sub (from_unix (st_ExpiresAt s)) (wall now))\<rparr>)"
      using acc a1 t1(2) by (auto simp: Accept_def not_le not_less split: bool.splits option.splits if_splits)
    have "st_Binding s = binding" "az_current b = s" "az_key a1 = key" using s(2,7) t1(1) by (auto simp: tracks_def)
    with accept_tracks[OF t1(1) _ _ verified_valid[OF s(1)] _ s(3-7), of wire] s(1) assms(3) True acc Arrives show ?thesis by simp
  qed
qed

lemma auth_run_tracks:
  "tracks sg evs key binding ts acc a \<Longrightarrow> auth_run sg es a = (b, xs) \<Longrightarrow> set es \<subseteq> set evs \<Longrightarrow> tracks sg evs key binding (ts @ map at es) (acc @ xs) b"
proof (induction es arbitrary: ts acc a xs)
  case (Cons e es)
  then show ?case using auth_step_tracks[OF Cons.prems(1)] by (fastforce split: prod.splits)
qed simp

lemma new_tracks: "NewAuthorization key binding = Some a \<Longrightarrow> tracks sg evs key binding [] [] a"
  by (auto simp: NewAuthorization_def tracks_def clock_ok_def split: if_splits)

lemma grant_span:
  assumes "statement_validate s" "\<not> st_Revoked s" "st_IssuedAt s \<le> unix w" "unix w < st_ExpiresAt s"
  shows "time_sub (from_unix (st_ExpiresAt s)) w = from_unix (st_ExpiresAt s) - w" "from_unix (st_ExpiresAt s) - w \<le> MaxGatewayOfflineWindow"
proof -
  have low: "w \<ge> from_unix (st_IssuedAt s)" "w \<le> from_unix (st_ExpiresAt s)"
    using assms(3,4) by (simp_all add: unix_def from_unix_def)
  moreover have "st_ExpiresAt s - st_IssuedAt s \<le> MaxGatewayAuthorizationSeconds"
    using assms(1,2) by (auto simp: statement_validate_def split: if_splits)
  ultimately show span: "from_unix (st_ExpiresAt s) - w \<le> MaxGatewayOfflineWindow"
    using low(1) by (simp add: from_unix_def MaxGatewayOfflineWindow_def MaxGatewayAuthorizationSeconds_def hour_def minute_def second_def)
  with low(2) show "time_sub (from_unix (st_ExpiresAt s)) w = from_unix (st_ExpiresAt s) - w"
    by (simp add: time_sub_def MaxGatewayOfflineWindow_def hour_def minute_def second_def max_int64_def min_int64_def)
qed

section \<open>A grant at work\<close>

text \<open>A grant, and a signature scheme that knows this grant only.\<close>

definition demo_auth_binding :: auth_binding where
  "demo_auth_binding = (let i = 528914269453437118709761 in \<lparr>ab_AdmissionID = i, ab_Owner = i, ab_RuntimeID = i, ab_AgentID = i, ab_HostID = i,
     ab_RepositoryID = i, ab_GatewayID = i, ab_StorageCredentialID = i, ab_DeliveryID = i, ab_GatewaySecretRef = i, ab_ResticSecretRef = i,
     ab_ConfigurationHash = replicate 64 (CHR ''0'')\<rparr>)"

definition demo_grant :: statement where
  "demo_grant = \<lparr>st_Binding = demo_auth_binding, st_Revision = 1, st_IssuedAt = 1000, st_ExpiresAt = 2000, st_Revoked = False\<rparr>"

definition demo_signing :: signing where
  "demo_signing = \<lparr>sg_sign = (\<lambda>k m. replicate 64 (CHR ''s'')), sg_verify = (\<lambda>k m g. g = replicate 64 (CHR ''s'')),
     sg_public = (\<lambda>k. take 32 k), sg_statement = (\<lambda>p. if p = statement_json demo_grant then Some demo_grant else None)\<rparr>"

definition demo_statement_wire :: "statement \<Rightarrow> string" where
  "demo_statement_wire s = statement_json s @ replicate 64 (CHR ''s'')"

definition demo_at :: "int \<Rightarrow> instant" where
  "demo_at n = \<lparr>wall = from_unix n, mono = n * second\<rparr>"

definition demo_authorization :: authorization where
  "demo_authorization = \<lparr>az_key = replicate 32 (CHR ''k''), az_binding = demo_auth_binding, az_current = zero_statement, az_lastGrant = zero_statement,
     az_lastWall = 0, az_deadline = \<lparr>wall = 0, mono = 0\<rparr>, az_clockUnsafe = False\<rparr>"

lemma demo_binding_valid: "binding_Validate demo_auth_binding"
proof -
  have "validPendingHash (replicate 64 (CHR ''0''))" by code_simp
  then show ?thesis by (simp add: binding_Validate_def demo_auth_binding_def uuid_v7_def uuid_version_def uuid_rfc4122_def)
qed

lemma demo_grant_valid: "statement_validate demo_grant"
  using demo_binding_valid by (simp add: statement_validate_def demo_grant_def MaxGatewayAuthorizationSeconds_def)

lemma demo_grant_verified: "VerifyGatewayStatement demo_signing (demo_statement_wire demo_grant) (replicate 32 (CHR ''k'')) = Some demo_grant"
  using statement_size[OF demo_grant_valid] demo_grant_valid by (simp add: VerifyGatewayStatement_def demo_statement_wire_def demo_signing_def)

lemma demo_authorized:
  "\<exists>a. auth_run demo_signing [Asked (demo_at 1100), Arrives (demo_at 1200) (demo_statement_wire demo_grant)] demo_authorization = (a, [(demo_grant, demo_at 1200)]) \<and>
     snd (Status (demo_at 1300) a) = AuthorizationValid"
proof -
  have n: "demo_grant \<noteq> zero_statement" using valid_nonzero[OF demo_grant_valid] by simp
  show ?thesis
    using demo_grant_verified n
    by (simp add: auth_step_def Status_def Accept_def observeClock_def Let_def demo_authorization_def demo_at_def is_zero_def from_unix_def
        unix_def zero_statement_def, simp add: demo_grant_def instant_add_def time_sub_def max_int64_def min_int64_def second_def)
qed

section \<open>Properties\<close>

text \<open>C7: Authority is never invented and never outlives its grant: over any history of arriving statements and clock readings, when the tracker
  says that its authorization is valid, then its current statement came in that history with a good signature for this binding, no accepted statement is a
  revocation or has a higher revision, the wall clock never went back and has not reached the expiry, and the monotonic clock has advanced, since the statement was accepted, by less
  than what then remained until its expiry, which is never more than the offline window. After an accepted revocation the answer is always that it is revoked.\<close>

theorem authority_history:
  assumes "NewAuthorization key binding = Some a0" and "auth_run sg es a0 = (a, acc)"
  shows "(snd (Status now a) = AuthorizationValid \<longrightarrow>
       (\<exists>s t wire. acc \<noteq> [] \<and> last acc = (s, t) \<and> Arrives t wire \<in> set es \<and> VerifyGatewayStatement sg wire key = Some s \<and> st_Binding s = binding \<and>
          (\<forall>x \<in> set acc. \<not> st_Revoked (fst x) \<and> st_Revision (fst x) \<le> st_Revision s) \<and> clock_ok (map at es @ [now]) \<and>
          unix (wall now) < st_ExpiresAt s \<and> mono now - mono t < from_unix (st_ExpiresAt s) - wall t \<and>
          from_unix (st_ExpiresAt s) - wall t \<le> MaxGatewayOfflineWindow)) \<and>
     ((\<exists>x \<in> set acc. st_Revoked (fst x)) \<longrightarrow> snd (Status now a) = AuthorizationRevoked)"
proof (intro conjI impI)
  obtain b ok where b: "observeClock now a = (b, ok)" by fastforce
  have tr: "tracks sg es key binding (map at es) acc a"
    using auth_run_tracks[OF new_tracks[OF assms(1), of sg es] assms(2)] by simp
  note o = observeClock_tracks[OF tr b]
  {
    assume v: "snd (Status now a) = AuthorizationValid"
    have ne: "acc \<noteq> []" using v o b by (auto simp: Status_def tracks_def zero_statement_def split: if_splits)
    obtain ys s t where acc: "acc = ys @ [(s, t)]" using ne by (cases acc rule: rev_cases) auto
    have cur: "az_current b = s" "\<not> st_Revoked s" using o acc v b by (auto simp: tracks_def Status_def split: if_splits)
    have st: "statement_validate s" "st_Binding s = binding" "st_IssuedAt s \<le> unix (wall t)" "unix (wall t) < st_ExpiresAt s"
      using o acc cur(2) by (auto simp: tracks_def)
    have "mono now < mono (az_deadline b)" "unix (wall now) < st_ExpiresAt s" "clock_ok (map at es @ [now])"
      using v b o cur by (auto simp: Status_def split: if_splits)
    moreover have "az_deadline b = instant_add t (time_sub (from_unix (st_ExpiresAt s)) (wall t))" using o acc cur(2) by (auto simp: tracks_def)
    moreover have "\<forall>x \<in> set acc. \<not> st_Revoked (fst x) \<and> st_Revision (fst x) \<le> st_Revision s"
      using o acc cur(2) by (auto simp: tracks_def sorted_wrt_append list_all_iff butlast_append intro: less_imp_le)
    moreover obtain wire where "Arrives t wire \<in> set es" "VerifyGatewayStatement sg wire key = Some s"
      using o acc by (auto simp: tracks_def)
    ultimately show "\<exists>s t wire. acc \<noteq> [] \<and> last acc = (s, t) \<and> Arrives t wire \<in> set es \<and> VerifyGatewayStatement sg wire key = Some s \<and> st_Binding s = binding \<and>
          (\<forall>x \<in> set acc. \<not> st_Revoked (fst x) \<and> st_Revision (fst x) \<le> st_Revision s) \<and> clock_ok (map at es @ [now]) \<and>
          unix (wall now) < st_ExpiresAt s \<and> mono now - mono t < from_unix (st_ExpiresAt s) - wall t \<and>
          from_unix (st_ExpiresAt s) - wall t \<le> MaxGatewayOfflineWindow"
      using ne acc st(2) grant_span[OF st(1) cur(2) st(3,4)] by (intro exI[of _ s] exI[of _ t] exI[of _ wire]) (auto simp: instant_add_def)
  next
    assume "\<exists>x \<in> set acc. st_Revoked (fst x)"
    then have "acc \<noteq> []" "st_Revoked (fst (last acc))"
      using tr by (cases acc rule: rev_cases; auto simp: tracks_def list_all_iff)+
    then have "st_Revoked (az_current b)" using o by (simp add: tracks_def)
    then show "snd (Status now a) = AuthorizationRevoked" using b by (simp add: Status_def)
  }
qed

theorem authority_history_witness:
  "\<exists>a acc s t. auth_run demo_signing [Asked (demo_at 1100), Arrives (demo_at 1200) (demo_statement_wire demo_grant)] demo_authorization = (a, acc) \<and>
     snd (Status (demo_at 1300) a) = AuthorizationValid \<and> last acc = (s, t) \<and> unix (wall (demo_at 1300)) < st_ExpiresAt s \<and>
     mono (demo_at 1300) - mono t < from_unix (st_ExpiresAt s) - wall t"
proof -
  have n: "NewAuthorization (replicate 32 (CHR ''k'')) demo_auth_binding = Some demo_authorization"
    using demo_binding_valid by (simp add: NewAuthorization_def demo_authorization_def)
  obtain a where a: "auth_run demo_signing [Asked (demo_at 1100), Arrives (demo_at 1200) (demo_statement_wire demo_grant)] demo_authorization = (a, [(demo_grant, demo_at 1200)])"
    "snd (Status (demo_at 1300) a) = AuthorizationValid"
    using demo_authorized by blast
  from authority_history[OF n a(1), of "demo_at 1300"] a show ?thesis by blast
qed

end
