(* ===== verification/Pending_Records.thy ===== *)
theory Pending_Records
  imports Gateway_Authorization
begin

text \<open>
  Records a Gateway keeps for the control plane while it is not connected, and the receipts it gets for them
  (\<open>internal/security/gateway_pending.go\<close>): validation, sealing, inspection and opening. The signature and the sealed box are parameters, as is the
  decoding of JSON; what is encoded is modelled.
\<close>

section \<open>Records\<close>

record audit_binding =
  xb_OriginID :: uuid
  xb_RuntimeID :: uuid

definition zero_audit_binding :: audit_binding where
  "zero_audit_binding = \<lparr>xb_OriginID = uuid_nil, xb_RuntimeID = uuid_nil\<rparr>"

definition audit_binding_Validate :: "audit_binding \<Rightarrow> bool" where
  "audit_binding_Validate b \<longleftrightarrow> list_all uuid_v7 [xb_OriginID b, xb_RuntimeID b]"

record pending_header =
  ph_Binding :: auth_binding
  ph_RecordID :: uuid
  ph_Sequence :: int
  ph_PreviousHash :: string
  ph_AuthorizationRevision :: int
  ph_CreatedAt :: int
  ph_AuditOrigin :: audit_binding

definition zero_hash :: string where
  "zero_hash = replicate 64 (CHR ''0'')"

definition header_Validate :: "pending_header \<Rightarrow> bool" where
  "header_Validate h =
     (let global = (ph_AuditOrigin h \<noteq> zero_audit_binding)
      in if \<not> global \<and> (\<not> binding_Validate (ph_Binding h) \<or> ph_AuthorizationRevision h < 1)
            \<or> global \<and> (\<not> audit_binding_Validate (ph_AuditOrigin h) \<or> ph_Binding h \<noteq> zero_auth_binding \<or> ph_AuthorizationRevision h \<noteq> 0)
            \<or> \<not> uuid_v7 (ph_RecordID h) \<or> ph_Sequence h < 1 \<or> ph_Sequence h = max_int64 \<or> ph_CreatedAt h \<le> 0
            \<or> ph_CreatedAt h > 253402300799 \<or> \<not> validPendingHash (ph_PreviousHash h) then False
         else \<not> (ph_Sequence h = 1 \<and> ph_PreviousHash h \<noteq> zero_hash))"

record pending_record =
  pr_Header :: pending_header
  pr_Kind :: string
  pr_Event :: "gateway_event option"
  pr_ExpectedSecretRevision :: int
  pr_Config :: "string option"

definition record_Validate :: "pending_record \<Rightarrow> bool" where
  "record_Validate r =
     (if \<not> header_Validate (pr_Header r) then False
      else if pr_Kind r = ''global_audit'' then
        (case pr_Event r of
           None \<Rightarrow> False
         | Some e \<Rightarrow> audit_binding_Validate (ph_AuditOrigin (pr_Header r)) \<and> pr_ExpectedSecretRevision r = 0 \<and> pr_Config r = None \<and>
             snd (GatewayGlobalAudit e))
      else if pr_Kind r = ''audit'' then
        (case pr_Event r of
           None \<Rightarrow> False
         | Some e \<Rightarrow> ph_AuditOrigin (pr_Header r) = zero_audit_binding \<and> pr_ExpectedSecretRevision r = 0 \<and> pr_Config r = None \<and>
             snd (GatewayAudit e) \<and>
             (ge_Binding e = zero_gateway_binding \<or> gb_HostID (ge_Binding e) = ab_HostID (ph_Binding (pr_Header r)) \<and>
                gb_RepositoryID (ge_Binding e) = ab_RepositoryID (ph_Binding (pr_Header r)) \<and>
                gb_GatewayID (ge_Binding e) = ab_GatewayID (ph_Binding (pr_Header r))))
      else if pr_Kind r = ''refresh'' then
        ph_AuditOrigin (pr_Header r) = zero_audit_binding \<and> pr_Event r = None \<and> 1 \<le> pr_ExpectedSecretRevision r \<and>
        pr_ExpectedSecretRevision r \<noteq> max_int64 \<and> (case pr_Config r of None \<Rightarrow> False | Some c \<Rightarrow> c \<noteq> [] \<and> length c \<le> 262144)
      else False)"

section \<open>Encoding\<close>

text \<open>\<open>encoding/base64\<close> with padding, which is how JSON writes bytes.\<close>

definition base64_digit :: "nat \<Rightarrow> char" where
  "base64_digit n = (if n < 26 then char_of (65 + n) else if n < 52 then char_of (71 + n) else if n < 62 then char_of (n - 4)
     else if n = 62 then CHR ''+'' else CHR ''/'')"

fun base64 :: "string \<Rightarrow> string" where
  "base64 [] = []"
| "base64 [a] = (let n = byte a * 65536 in [base64_digit (n div 262144), base64_digit (n div 4096 mod 64), CHR ''='', CHR ''=''])"
| "base64 [a, b] =
     (let n = byte a * 65536 + byte b * 256
      in [base64_digit (n div 262144), base64_digit (n div 4096 mod 64), base64_digit (n div 64 mod 64), CHR ''=''])"
| "base64 (a # b # c # s) =
     (let n = byte a * 65536 + byte b * 256 + byte c
      in base64_digit (n div 262144) # base64_digit (n div 4096 mod 64) # base64_digit (n div 64 mod 64) # base64_digit (n mod 64) # base64 s)"

definition json_base64 :: "string \<Rightarrow> string" where
  "json_base64 s = json_string (base64 s)"

definition audit_binding_json :: "audit_binding \<Rightarrow> string" where
  "audit_binding_json b = json_object [(''origin_id'', json_uuid (xb_OriginID b)), (''runtime_id'', json_uuid (xb_RuntimeID b))]"

definition header_json :: "pending_header \<Rightarrow> string" where
  "header_json h = json_object
     [(''binding'', Some (binding_json (ph_Binding h))), (''record_id'', json_uuid (ph_RecordID h)),
      (''sequence'', Some (itoa (ph_Sequence h))), (''previous_hash'', Some (json_string (ph_PreviousHash h))),
      (''authorization_revision'', Some (itoa (ph_AuthorizationRevision h))), (''created_at'', Some (itoa (ph_CreatedAt h))),
      (''audit_origin'', if ph_AuditOrigin h = zero_audit_binding then None else Some (audit_binding_json (ph_AuditOrigin h)))]"

definition event_json :: "gateway_event \<Rightarrow> string" where
  "event_json e = json_object
     [(''binding'', Some (json_object [(''host_id'', json_uuid (gb_HostID (ge_Binding e))), (''repository_id'', json_uuid (gb_RepositoryID (ge_Binding e))),
        (''gateway_id'', json_uuid (gb_GatewayID (ge_Binding e))), (''session_id'', json_uuid (gb_OperationID (ge_Binding e)))])),
      (''authenticated'', Some (json_bool (ge_Authenticated e))), (''action'', Some (json_string (ge_Action e))),
      (''reason'', Some (json_string (ge_Reason e)))]"

definition record_json :: "pending_record \<Rightarrow> string" where
  "record_json r = json_object
     [(''header'', Some (header_json (pr_Header r))), (''kind'', Some (json_string (pr_Kind r))),
      (''event'', Some (case pr_Event r of None \<Rightarrow> ''null'' | Some e \<Rightarrow> event_json e)),
      (''expected_secret_revision'', Some (itoa (pr_ExpectedSecretRevision r))),
      (''config'', Some (case pr_Config r of None \<Rightarrow> ''null'' | Some c \<Rightarrow> json_base64 c))]"

definition wire_json :: "pending_header \<Rightarrow> string \<Rightarrow> string" where
  "wire_json h sealed = json_object [(''header'', Some (header_json h)), (''ciphertext'', Some (json_base64 sealed))]"

section \<open>Sealing and inspecting\<close>

text \<open>
  \<open>pc_derive\<close> is the private key of a seed, \<open>pc_seal\<close> the anonymous box with its own randomness, \<open>pc_open\<close> its inverse for a private key,
  \<open>pc_public\<close> the public key of the box; \<open>pc_header\<close>, \<open>pc_wire\<close> and \<open>pc_record\<close> are \<open>json.Unmarshal\<close> into the three types.
\<close>

record pending_codec =
  pc_sign :: "string \<Rightarrow> string \<Rightarrow> string"
  pc_verify :: "string \<Rightarrow> string \<Rightarrow> string \<Rightarrow> bool"
  pc_derive :: "string \<Rightarrow> string"
  pc_seal :: "string \<Rightarrow> string \<Rightarrow> string option"
  pc_open :: "string \<Rightarrow> string \<Rightarrow> string option"
  pc_public :: "string \<Rightarrow> string option"
  pc_header :: "string \<Rightarrow> pending_header option"
  pc_wire :: "string \<Rightarrow> (pending_header \<times> string) option"
  pc_record :: "string \<Rightarrow> pending_record option"

definition MaxGatewayPendingSize :: nat where
  "MaxGatewayPendingSize = 524288"

definition AnonymousOverhead :: nat where
  "AnonymousOverhead = 48"

definition nul :: string where
  "nul = [char_of (0 :: nat)]"

definition pendingSignatureContext :: "pending_header \<Rightarrow> string" where
  "pendingSignatureContext h =
     (if ph_AuditOrigin h \<noteq> zero_audit_binding then ''restfleet:gateway-global-audit:v1'' @ nul else ''restfleet:gateway-pending:v1'' @ nul)"

definition SealGatewayPending :: "pending_codec \<Rightarrow> pending_record \<Rightarrow> string \<Rightarrow> string \<Rightarrow> string option" where
  "SealGatewayPending pc r recipient source =
     (if \<not> record_Validate r \<or> length source \<noteq> 64 then None
      else if pc_derive pc (take 32 source) \<noteq> source then None
      else case pc_seal pc (record_json r) recipient of
        None \<Rightarrow> None
      | Some sealed \<Rightarrow>
          (let payload = wire_json (pr_Header r) sealed
           in if length payload + 64 > MaxGatewayPendingSize then None
              else Some (payload @ pc_sign pc source (pendingSignatureContext (pr_Header r) @ payload))))"

definition verifyPendingWire :: "pending_codec \<Rightarrow> string \<Rightarrow> string \<Rightarrow> (pending_header \<times> string) option" where
  "verifyPendingWire pc wire source =
     (if length source \<noteq> 32 \<or> length wire \<le> 64 \<or> length wire > MaxGatewayPendingSize then None
      else
        (let payload = take (length wire - 64) wire
         in case pc_header pc payload of
              None \<Rightarrow> None
            | Some selector \<Rightarrow>
                if \<not> header_Validate selector
                   \<or> \<not> pc_verify pc source (pendingSignatureContext selector @ payload) (drop (length wire - 64) wire) then None
                else (case pc_wire pc payload of
                   None \<Rightarrow> None
                 | Some (h, c) \<Rightarrow> if length c \<le> AnonymousOverhead \<or> wire_json h c \<noteq> payload then None else Some (h, c))))"

definition InspectGatewayPending :: "pending_codec \<Rightarrow> string \<Rightarrow> string \<Rightarrow> pending_header option" where
  "InspectGatewayPending pc wire source = map_option fst (verifyPendingWire pc wire source)"

definition OpenGatewayPending :: "pending_codec \<Rightarrow> string \<Rightarrow> string \<Rightarrow> string \<Rightarrow> pending_record option" where
  "OpenGatewayPending pc wire source private =
     (case (verifyPendingWire pc wire source, if length private = 32 then pc_public pc private else None) of
        (Some (h, c), Some public) \<Rightarrow>
          (case pc_open pc c private of
             None \<Rightarrow> None
           | Some plain \<Rightarrow>
               (case pc_record pc plain of
                  None \<Rightarrow> None
                | Some r \<Rightarrow> if pr_Header r \<noteq> h \<or> \<not> record_Validate r \<or> record_json r \<noteq> plain then None else Some r))
      | _ \<Rightarrow> None)"

definition GatewayPendingHash :: "(string \<Rightarrow> 8 word list) \<Rightarrow> string \<Rightarrow> string" where
  "GatewayPendingHash digest wire = hex_encode (digest wire)"

section \<open>Receipts\<close>

record pending_receipt =
  rc_AdmissionID :: uuid
  rc_RuntimeID :: uuid
  rc_Sequence :: int
  rc_RecordID :: uuid
  rc_WireHash :: string
  rc_AuditOriginID :: uuid

definition zero_receipt :: pending_receipt where
  "zero_receipt = \<lparr>rc_AdmissionID = uuid_nil, rc_RuntimeID = uuid_nil, rc_Sequence = 0, rc_RecordID = uuid_nil, rc_WireHash = [],
     rc_AuditOriginID = uuid_nil\<rparr>"

definition receipt_valid :: "pending_receipt \<Rightarrow> bool" where
  "receipt_valid r =
     (if rc_AuditOriginID r \<noteq> uuid_nil \<and> rc_AdmissionID r \<noteq> uuid_nil then False
      else list_all uuid_v7 [if rc_AuditOriginID r \<noteq> uuid_nil then rc_AuditOriginID r else rc_AdmissionID r, rc_RuntimeID r, rc_RecordID r] \<and>
        rc_Sequence r > 0 \<and> rc_Sequence r < max_int64 \<and> validPendingHash (rc_WireHash r))"

definition receipt_json :: "pending_receipt \<Rightarrow> string" where
  "receipt_json r = json_object
     [(''admission_id'', json_uuid (rc_AdmissionID r)), (''runtime_id'', json_uuid (rc_RuntimeID r)), (''sequence'', Some (itoa (rc_Sequence r))),
      (''record_id'', json_uuid (rc_RecordID r)), (''wire_hash'', Some (json_string (rc_WireHash r))),
      (''audit_origin_id'', if rc_AuditOriginID r = uuid_nil then None else json_uuid (rc_AuditOriginID r))]"

definition receiptSignatureContext :: "pending_receipt \<Rightarrow> string" where
  "receiptSignatureContext r =
     (if rc_AuditOriginID r \<noteq> uuid_nil then ''restfleet:gateway-global-audit-receipt:v1'' @ nul else ''restfleet:gateway-pending-receipt:v1'' @ nul)"

text \<open>\<open>decode\<close> is \<open>json.Unmarshal\<close> into a receipt.\<close>

definition SignGatewayPendingReceipt :: "pending_codec \<Rightarrow> pending_receipt \<Rightarrow> string \<Rightarrow> string option" where
  "SignGatewayPendingReceipt pc r key =
     (if \<not> receipt_valid r \<or> length key \<noteq> 64 then None
      else Some (receipt_json r @ pc_sign pc key (receiptSignatureContext r @ receipt_json r)))"

definition VerifyGatewayPendingReceipt ::
    "pending_codec \<Rightarrow> (string \<Rightarrow> pending_receipt option) \<Rightarrow> string \<Rightarrow> string \<Rightarrow> pending_receipt option" where
  "VerifyGatewayPendingReceipt pc decode wire key =
     (if length key \<noteq> 32 \<or> length wire \<le> 64 \<or> length wire > 1024 then None
      else
        (let payload = take (length wire - 64) wire
         in case decode payload of
              None \<Rightarrow> None
            | Some r \<Rightarrow>
                if \<not> receipt_valid r \<or> \<not> pc_verify pc key (receiptSignatureContext r @ payload) (drop (length wire - 64) wire) then None
                else if payload \<noteq> receipt_json r then None
                else Some r))"

lemma verified_receipt_valid: "VerifyGatewayPendingReceipt pc decode wire key = Some r \<Longrightarrow> receipt_valid r \<and> length wire \<le> 1024"
  by (auto simp: VerifyGatewayPendingReceipt_def Let_def split: if_splits option.splits)

lemma inspected_header:
  assumes "InspectGatewayPending pc wire source = Some h"
  shows "length wire \<le> MaxGatewayPendingSize \<and> (\<exists>c. wire_json h c = take (length wire - 64) wire)"
  using assms by (auto simp: InspectGatewayPending_def verifyPendingWire_def Let_def split: if_splits option.splits)

text \<open>
  What the two sides rely on: a signature made with a private key verifies with its public half and has 64 bytes, a box opens to what was sealed and is longer than
  its overhead, and decoding reads what was encoded.
\<close>

definition codec_ok :: "pending_codec \<Rightarrow> bool" where
  "codec_ok pc \<longleftrightarrow> (\<forall>k m. length k = 64 \<and> pc_derive pc (take 32 k) = k \<longrightarrow>
       pc_verify pc (drop 32 k) m (pc_sign pc k m) \<and> length (pc_sign pc k m) = 64) \<and>
     (\<forall>plain recipient c. pc_seal pc plain recipient = Some c \<longrightarrow> length c > AnonymousOverhead \<and>
       (\<forall>private. pc_public pc private = Some recipient \<longrightarrow> pc_open pc c private = Some plain)) \<and>
     (\<forall>h c. header_Validate h \<longrightarrow> pc_header pc (wire_json h c) = Some h \<and> pc_wire pc (wire_json h c) = Some (h, c)) \<and>
     (\<forall>r. record_Validate r \<longrightarrow> pc_record pc (record_json r) = Some r)"

text \<open>A sealed record shows its header to whoever knows the source, and opens to itself for the recipient.\<close>

lemma sealed_inspects:
  assumes "codec_ok pc" "SealGatewayPending pc r recipient source = Some wire"
  shows "\<exists>c. verifyPendingWire pc wire (drop 32 source) = Some (pr_Header r, c) \<and> pc_seal pc (record_json r) recipient = Some c"
proof -
  from assms(2) obtain c where c: "record_Validate r" "length source = 64" "pc_derive pc (take 32 source) = source"
    "pc_seal pc (record_json r) recipient = Some c" "length (wire_json (pr_Header r) c) + 64 \<le> MaxGatewayPendingSize"
    "wire = wire_json (pr_Header r) c @ pc_sign pc source (pendingSignatureContext (pr_Header r) @ wire_json (pr_Header r) c)"
    by (auto simp: SealGatewayPending_def Let_def split: if_splits option.splits)
  have h: "header_Validate (pr_Header r)" using c(1) by (auto simp: record_Validate_def split: if_splits)
  have n: "wire_json (pr_Header r) c \<noteq> []" by (simp add: wire_json_def json_object_def)
  from assms(1) c h have "length (pc_sign pc source (pendingSignatureContext (pr_Header r) @ wire_json (pr_Header r) c)) = 64"
    "pc_verify pc (drop 32 source) (pendingSignatureContext (pr_Header r) @ wire_json (pr_Header r) c)
       (pc_sign pc source (pendingSignatureContext (pr_Header r) @ wire_json (pr_Header r) c))" "length c > AnonymousOverhead"
    "pc_header pc (wire_json (pr_Header r) c) = Some (pr_Header r)" "pc_wire pc (wire_json (pr_Header r) c) = Some (pr_Header r, c)"
    by (simp_all add: codec_ok_def)
  with c n h show ?thesis by (simp add: verifyPendingWire_def Let_def)
qed

lemma sealed_opens:
  assumes "codec_ok pc" "SealGatewayPending pc r recipient source = Some wire" "pc_public pc private = Some recipient" "length private = 32"
  shows "OpenGatewayPending pc wire (drop 32 source) private = Some r"
proof -
  have v: "record_Validate r" using assms(2) by (auto simp: SealGatewayPending_def split: if_splits)
  obtain c where c: "verifyPendingWire pc wire (drop 32 source) = Some (pr_Header r, c)" "pc_seal pc (record_json r) recipient = Some c"
    using sealed_inspects[OF assms(1,2)] by blast
  with assms(1,3) v have "pc_open pc c private = Some (record_json r)" "pc_record pc (record_json r) = Some r" by (auto simp: codec_ok_def)
  with c v assms(3,4) show ?thesis by (simp add: OpenGatewayPending_def)
qed

end
