(* ===== verification/Spec2Isabelle.thy ===== *)
theory Spec2Isabelle
  imports Agent_System Pending_Records
begin

text \<open>
  RestFleet drives a fleet of backup Agents from a control plane. A Server keeps hosts, plans and operations in PostgreSQL and
  sends every Agent a desired state; the Agent (\<open>internal/agent\<close>) stores it, runs the plans by its own clock, runs Restic through a Gateway
  session, and reports operations and logs back over one gRPC stream. The Gateway (\<open>internal/gateway\<close>) stands between Restic and the storage: it
  admits the caller of a session and lets it only add to the repository. This development models the Agent, the core of the Gateway
  and the vocabulary both share with the Server.

  \<^bold>\<open>Foundations.\<close>
  \<^item> \<open>Prelude\<close>: ordered key-value buckets, the locale \<open>bucket\<close> with its interpretation \<open>bkt\<close> on sorted association lists, and
    the locale \<open>weak_order\<close> of a comparison function handed to a sort.
  \<^item> \<open>Go_Lib\<close>: what the sources use of Go and its standard library: integers that wrap at 64 and 32 bits, \<open>strings\<close>, \<open>strconv\<close>, \<open>time\<close>,
    \<open>encoding/json\<close> output, UUIDs as 128-bit words. A string is its list of bytes, an instant is the number of nanoseconds since the
    year 1 (so that the zero \<open>time.Time\<close> is 0).

  \<^bold>\<open>Domain\<close> (\<open>internal/domain\<close>).
  \<^item> \<open>Domain\<close>: operation states, retry policy, paths, template validation (\<open>operation.go\<close>, \<open>backup_execution.go\<close>, \<open>template.go\<close>).
  \<^item> \<open>Desired_State\<close>: the desired state of an Agent, its validation and its canonical JSON (\<open>agentstate.go\<close>). Shown: every plan
    that validation accepts can be scheduled; the hash does not depend on the order of the plans.

  \<^bold>\<open>Agent\<close> (\<open>internal/agent\<close>). The record \<open>agent\<close> of \<open>Agent_State\<close> is the struct \<open>State\<close> with its bbolt buckets; every write goes
  through \<open>db_update\<close>, which either commits as a whole or, when the next entry of \<open>faults\<close> says so, fails and changes nothing.
  \<^item> \<open>Schedule\<close>: cron parsing, the minute search, jitter, misfires (\<open>schedule/schedule.go\<close>). The search recurses on the minutes left of
    366 days; \<open>parseField\<close> counts in 64 bits as the code does.
  \<^item> \<open>Agent_State\<close>, \<open>Agent_Logs\<close>: operation records, reports, recovery after a crash (\<open>operations.go\<close>), and the bounded operation
    logs (\<open>logs.go\<close>), whose entries after the acknowledged one stay gapless.
  \<^item> \<open>Agent_Config\<close>: decoding and activating a desired state (\<open>config.go\<close>), with the sending side of \<open>server/agentgrpc/connect.go\<close>.
  \<^item> \<open>Agent_Scheduler\<close>: a tick, a slot, the retries and the goroutine of an operation as the step function \<open>worker_step\<close>
    (\<open>scheduler.go\<close>).
  \<^item> \<open>Agent_Identity\<close>, \<open>Agent_Session\<close>: identity and credential files (\<open>identity.go\<close>, \<open>repository_credential.go\<close>) and the client of
    a Gateway session (\<open>gateway.go\<close>); the network is the list of its replies.
  \<^item> \<open>Restic_Output\<close>, \<open>Agent_Backup\<close>: the readers of Restic's output and one whole backup run (\<open>backup.go\<close>, \<open>restic_linux.go\<close>,
    \<open>hooks_linux.go\<close>); what Restic does is a function of the arguments and the environment it is started with.
  \<^item> \<open>Agent_Stream\<close>, \<open>Stream_Contract\<close>, \<open>Stream_Properties\<close>: the control stream (\<open>client_stream.go\<close>, \<open>report.go\<close>,
    \<open>telemetry.go\<close>); a connection is a function of the list of its events. The locale \<open>link_contract\<close> says what an invariant of a
    connection has to stand; each property of a connection is one interpretation of it.
  \<^item> \<open>Agent_System\<close>: the whole process: ticks, control stream, goroutines, reports and crashes interleaved as the step relation
    \<open>sys_step\<close>. It refines a ledger of running and closed operations, from which the limits on parallel runs follow. A new
    desired state may lower a limit while operations run; they run on, and none starts until the number is below it.

  \<^bold>\<open>Gateway\<close> (\<open>internal/gateway\<close>, \<open>internal/security\<close>).
  \<^item> \<open>Gateway_Audit\<close>: the closed vocabulary of Gateway events, their audit form and the hash chain of the audit
    (\<open>domain/gateway_audit.go\<close>, \<open>gateway_global_audit.go\<close>, \<open>audit.go\<close>). Shown: two verified chains of one length that end in the same
    hash agree in everything that is hashed.
  \<^item> \<open>Gateway_Session\<close>: the request handler of a session (\<open>session_linux.go\<close>, \<open>retry_linux.go\<close>) with the identities read from
    certificates (\<open>security/pki.go\<close>, \<open>gateway_reader.go\<close>). A request is one step, since mutations hold the channel \<open>writes\<close>; the answers
    of the backend, the contexts and the free places of the channels are inputs. A ghost list keeps the exchanges with the backend.
    Shown: a session is append-only; the retry code that the Agent trusts (\<open>Agent_Session\<close>, \<open>gatewayRetryHint\<close>) is safe; every event
    belongs to the vocabulary.
  \<^item> \<open>Gateway_Authorization\<close>: signed statements and the tracker of decisions over the wall and the monotonic clock
    (\<open>security/gateway_statement.go\<close>, \<open>gateway/authorization.go\<close>, \<open>domain/gateway_decision.go\<close>).
  \<^item> \<open>Pending_Records\<close>: sealed pending records and their receipts (\<open>security/gateway_pending.go\<close>). Shown: a sealed record can be
    inspected and opened again.

  \<^bold>\<open>What is assumed.\<close> Parameters stand for code that is not in the repository: the time zone database, SHA-256, \<open>uuid.Parse\<close>,
  \<open>uuid.NewSHA1\<close>, Ed25519, the anonymous box, X.509 and PEM decoding, JSON decoding, the file system, the Restic process and the network. Hypotheses about them
  are stated in the theorems that need them: that \<open>uuid.Parse\<close> reads the canonical text of an identifier, that the JSON decoder reads an
  encoded execution policy back as that policy, that SHA-256 does not collide on the two texts of a theorem. The step relation takes a
  new UUIDv7 to be one that no stored operation has (\<open>input_ok\<close>). A bbolt transaction is atomic; about which keys a bbolt cursor reaches
  that deletes while it moves on nothing is assumed, so what it should have deleted may be left.

  \<^bold>\<open>Not modelled.\<close>
  \<^item> Generated code (\<open>openapi.gen.go\<close>, \<open>*.pb.go\<close>): messages are records with the fields the handlers read.
  \<^item> The HTTP API, sign-in, and the PostgreSQL stores other than those named above: they are SQL texts whose meaning is that of the database.
  \<^item> \<open>internal/rclone\<close>, \<open>internal/restic\<close>, provisioning and \<open>cmd\<close>: process handling, files and command lines.
  \<^item> The rest of \<open>internal/security\<close>: cryptography of the standard library, seen here as parameters.
  \<^item> The rest of \<open>internal/gateway\<close> and \<open>internal/gatewaypending\<close>: sockets, supervision of processes, files and their delivery.
  \<^item> Timers, contexts and goroutine scheduling other than the interleaving of \<open>sys_step\<close>.
\<close>

end
